(* ===== verification/Prelude.thy ===== *)
theory Prelude
  imports Main "HOL-Library.Word"
begin

text \<open>
  Shared vocabulary of the development: the part of the Rust standard library that the
  framework's own code calls on strings, integers and durations, with the generic lemmas
  the component theories rest on.

  A Rust \<open>str\<close> is a sequence of UTF-8 bytes; it is modelled by HOL's \<open>string\<close>,
  whose characters are bytes, so that \<open>length\<close> is \<open>str::len\<close> and the searches for an
  ASCII character are the byte searches the library performs.  A \<open>Result\<close> is a sum with
  the error on the left.  A \<open>Duration\<close> is its number of nanoseconds.  Unsigned integers
  are natural numbers; every operation of the source that can leave the width of its type is
  written with its checked or saturating form.
\<close>

section \<open>Types and lemma collections\<close>

type_synonym ('e, 'a) result = "'e + 'a"
type_synonym bytes = string

named_theorems str_simps \<open>equations on the string operations\<close>
named_theorems str_intros \<open>introduction rules on the string operations\<close>
named_theorems num_simps \<open>equations on the bounded integer operations\<close>

text \<open>The \<open>?\<close> operator of the source on a \<open>Result\<close>.\<close>

definition bind_result :: "('e, 'a) result \<Rightarrow> ('a \<Rightarrow> ('e, 'b) result) \<Rightarrow> ('e, 'b) result" where
  "bind_result m f = (case m of Inl e \<Rightarrow> Inl e | Inr x \<Rightarrow> f x)"

lemma bind_result_simps [simp]:
  "bind_result (Inl e) f = Inl e"
  "bind_result (Inr x) f = f x"
  by (simp_all add: bind_result_def)

lemma bind_result_eq_Inr [simp]:
  "bind_result m f = Inr y \<longleftrightarrow> (\<exists>x. m = Inr x \<and> f x = Inr y)"
  by (cases m) auto

lemma bind_result_eq_Inl:
  "bind_result m f = Inl e \<longleftrightarrow> m = Inl e \<or> (\<exists>x. m = Inr x \<and> f x = Inl e)"
  by (cases m) auto

text \<open>\<open>collect::<Result<Vec<_>, _>>\<close>: the first error, or all the values.\<close>

fun collect_results :: "('e, 'a) result list \<Rightarrow> ('e, 'a list) result" where
  "collect_results [] = Inr []"
| "collect_results (Inl e # rs) = Inl e"
| "collect_results (Inr x # rs) =
     (case collect_results rs of Inl e \<Rightarrow> Inl e | Inr xs \<Rightarrow> Inr (x # xs))"

lemma collect_results_Inr: "collect_results rs = Inr xs \<longleftrightarrow> rs = map Inr xs"
proof (induction rs arbitrary: xs rule: collect_results.induct)
  case (3 x rs)
  then show ?case by (cases xs; cases "collect_results rs") auto
qed auto

section \<open>Characters\<close>

abbreviation code_of :: "char \<Rightarrow> nat" where
  "code_of c \<equiv> of_char c"

definition in_codes :: "nat \<Rightarrow> nat \<Rightarrow> char \<Rightarrow> bool" where
  "in_codes lo hi c \<longleftrightarrow> lo \<le> code_of c \<and> code_of c \<le> hi"

definition is_ascii_digit :: "char \<Rightarrow> bool" where
  "is_ascii_digit c \<longleftrightarrow> in_codes 48 57 c"

definition is_ascii_alphanumeric :: "char \<Rightarrow> bool" where
  "is_ascii_alphanumeric c \<longleftrightarrow> in_codes 48 57 c \<or> in_codes 65 90 c \<or> in_codes 97 122 c"

definition is_ascii_hexdigit :: "char \<Rightarrow> bool" where
  "is_ascii_hexdigit c \<longleftrightarrow> in_codes 48 57 c \<or> in_codes 65 70 c \<or> in_codes 97 102 c"

definition is_ascii_control :: "char \<Rightarrow> bool" where
  "is_ascii_control c \<longleftrightarrow> code_of c \<le> 31 \<or> code_of c = 127"

definition to_ascii_lower :: "char \<Rightarrow> char" where
  "to_ascii_lower c = (if in_codes 65 90 c then char_of (code_of c + 32) else c)"

definition to_ascii_lowercase :: "string \<Rightarrow> string" where
  "to_ascii_lowercase s = map to_ascii_lower s"

definition eq_ignore_ascii_case :: "string \<Rightarrow> string \<Rightarrow> bool" where
  "eq_ignore_ascii_case s t \<longleftrightarrow> to_ascii_lowercase s = to_ascii_lowercase t"

lemmas char_class_defs =
  in_codes_def is_ascii_digit_def is_ascii_alphanumeric_def is_ascii_hexdigit_def
  is_ascii_control_def

section \<open>Searching and splitting strings\<close>

definition starts_with :: "string \<Rightarrow> string \<Rightarrow> bool" where
  "starts_with p s \<longleftrightarrow> take (length p) s = p"

definition ends_with :: "string \<Rightarrow> string \<Rightarrow> bool" where
  "ends_with p s \<longleftrightarrow> length p \<le> length s \<and> drop (length s - length p) s = p"

definition strip_prefix :: "string \<Rightarrow> string \<Rightarrow> string option" where
  "strip_prefix p s = (if starts_with p s then Some (drop (length p) s) else None)"

fun contains_str :: "string \<Rightarrow> string \<Rightarrow> bool" where
  "contains_str p [] = (p = [])"
| "contains_str p (x # xs) = (starts_with p (x # xs) \<or> contains_str p xs)"

text \<open>\<open>str::split\<close> on one ASCII character.\<close>

fun split_on :: "char \<Rightarrow> string \<Rightarrow> string list" where
  "split_on c [] = [[]]"
| "split_on c (x # xs) =
     (if x = c then [] # split_on c xs
      else (case split_on c xs of [] \<Rightarrow> [[x]] | y # ys \<Rightarrow> (x # y) # ys))"

text \<open>\<open>str::split_once\<close>: the parts around the first occurrence.\<close>

fun split_once :: "char \<Rightarrow> string \<Rightarrow> (string \<times> string) option" where
  "split_once c [] = None"
| "split_once c (x # xs) =
     (if x = c then Some ([], xs) else map_option (\<lambda>(a, b). (x # a, b)) (split_once c xs))"

text \<open>\<open>[&str]::join\<close>.\<close>

fun join_with :: "string \<Rightarrow> string list \<Rightarrow> string" where
  "join_with sep [] = []"
| "join_with sep [x] = x"
| "join_with sep (x # y # ys) = x @ sep @ join_with sep (y # ys)"

definition trim_matches :: "char \<Rightarrow> string \<Rightarrow> string" where
  "trim_matches c s = rev (dropWhile ((=) c) (rev (dropWhile ((=) c) s)))"

lemma starts_with_Nil [simp]: "starts_with [] s"
  by (simp add: starts_with_def)

lemma starts_with_Cons_Nil [simp]: "starts_with (a # p) [] \<longleftrightarrow> False"
  by (simp add: starts_with_def)

lemma starts_with_Cons_Cons [simp]: "starts_with (a # p) (b # s) \<longleftrightarrow> a = b \<and> starts_with p s"
  by (auto simp: starts_with_def)

lemma starts_with_iff: "starts_with p s \<longleftrightarrow> (\<exists>r. s = p @ r)"
  by (auto simp: starts_with_def) (metis append_take_drop_id)

lemma strip_prefix_Some: "strip_prefix p s = Some r \<longleftrightarrow> s = p @ r"
  by (auto simp: strip_prefix_def starts_with_iff)

lemma strip_prefix_append [simp]: "strip_prefix p (p @ r) = Some r"
  by (simp add: strip_prefix_Some)

lemma strip_prefix_self [simp]: "strip_prefix p p = Some []"
  by (simp add: strip_prefix_Some)

lemma contains_str_iff: "contains_str p s \<longleftrightarrow> (\<exists>a b. s = a @ p @ b)"
proof (induction s)
  case (Cons x xs)
  show ?case
  proof
    assume "contains_str p (x # xs)"
    then consider "starts_with p (x # xs)" | "contains_str p xs" by auto
    then show "\<exists>a b. x # xs = a @ p @ b"
    proof cases
      case 1
      then show ?thesis by (metis append_Nil starts_with_iff)
    next
      case 2
      then show ?thesis using Cons.IH by (metis append_Cons)
    qed
  next
    assume "\<exists>a b. x # xs = a @ p @ b"
    then obtain a b where ab: "x # xs = a @ p @ b" by blast
    show "contains_str p (x # xs)"
    proof (cases a)
      case Nil
      with ab have "starts_with p (x # xs)" by (auto simp: starts_with_iff)
      then show ?thesis by simp
    next
      case (Cons y ys)
      with ab Cons.IH show ?thesis by auto
    qed
  qed
qed auto

subsection \<open>Split and join are inverse\<close>

lemma split_on_not_Nil [simp]: "split_on c s \<noteq> []"
  by (induction s) (auto split: list.splits)

lemma split_on_no_sep: "x \<in> set (split_on c s) \<Longrightarrow> c \<notin> set x"
  by (induction s arbitrary: x) (auto split: list.splits if_splits)

lemma set_split_on: "x \<in> set (split_on c s) \<Longrightarrow> set x \<subseteq> set s"
  by (induction s arbitrary: x) (fastforce split: list.splits if_splits)+

lemma join_with_Cons: "xs \<noteq> [] \<Longrightarrow> join_with sep (x # xs) = x @ sep @ join_with sep xs"
  by (cases xs) auto

lemma join_split_on [simp]: "join_with [c] (split_on c s) = s"
proof (induction s)
  case (Cons x xs)
  show ?case
  proof (cases "split_on c xs")
    case Nil
    then show ?thesis by (metis split_on_not_Nil)
  next
    case (Cons y ys)
    with Cons.IH show ?thesis by (cases ys) (auto simp: join_with_Cons)
  qed
qed auto

lemma split_on_no_occ: "c \<notin> set s \<Longrightarrow> split_on c s = [s]"
  by (induction s) auto

lemma split_on_append_sep:
  "c \<notin> set s \<Longrightarrow> split_on c (s @ c # t) = s # split_on c t"
  by (induction s) auto

lemma split_on_append: "split_on c (a @ c # b) = split_on c a @ split_on c b"
proof (induction a)
  case (Cons x xs)
  then show ?case by (cases "split_on c xs") auto
qed auto

lemma split_on_join:
  "xs \<noteq> [] \<Longrightarrow> \<forall>x\<in>set xs. c \<notin> set x \<Longrightarrow> split_on c (join_with [c] xs) = xs"
proof (induction xs rule: induct_list012)
  case (3 x y zs)
  then show ?case by (simp add: split_on_append_sep)
qed (auto simp: split_on_no_occ)

lemma split_once_Some: "split_once c s = Some (a, b) \<longleftrightarrow> s = a @ c # b \<and> c \<notin> set a"
proof (induction s arbitrary: a)
  case (Cons x xs)
  then show ?case by (cases a) auto
qed auto

lemma split_once_None: "split_once c s = None \<longleftrightarrow> c \<notin> set s"
  by (induction s) auto

lemma set_trim_matches: "set (trim_matches c s) \<subseteq> set s"
  by (auto simp: trim_matches_def dest!: set_dropWhileD)

lemma trim_matches_id:
  assumes "s \<noteq> []" "hd s \<noteq> c" "last s \<noteq> c"
  shows "trim_matches c s = s"
proof -
  from assms have "dropWhile ((=) c) s = s"
    by (cases s) auto
  moreover from assms have "dropWhile ((=) c) (rev s) = rev s"
    by (cases s rule: rev_cases) auto
  ultimately show ?thesis by (simp add: trim_matches_def)
qed

lemma trim_matches_Nil [simp]: "trim_matches c [] = []"
  by (simp add: trim_matches_def)

lemma trim_matches_Cons_same [simp]: "trim_matches c (c # s) = trim_matches c s"
  by (simp add: trim_matches_def)

text \<open>The segments of a path: the non-empty parts between the separators.\<close>

lemma filter_split_on_append_sep [simp]:
  "filter (\<lambda>x. x \<noteq> []) (split_on c (s @ [c])) = filter (\<lambda>x. x \<noteq> []) (split_on c s)"
proof (induction s)
  case (Cons x xs)
  obtain y ys where y: "split_on c xs = y # ys" by (cases "split_on c xs") auto
  obtain z zs where z: "split_on c (xs @ [c]) = z # zs" by (cases "split_on c (xs @ [c])") auto
  have "y = z \<and> filter (\<lambda>x. x \<noteq> []) ys = filter (\<lambda>x. x \<noteq> []) zs"
    using Cons.IH y z
    by (cases xs) (auto split: list.splits if_splits)
  then show ?case using y z Cons.IH by auto
qed auto

lemma filter_split_on_Cons_sep [simp]:
  "filter (\<lambda>x. x \<noteq> []) (split_on c (c # s)) = filter (\<lambda>x. x \<noteq> []) (split_on c s)"
  by simp

section \<open>White space\<close>

text \<open>
  \<open>str::trim\<close> removes characters with the Unicode \<open>White_Space\<close> property.  On the
  UTF-8 bytes these are six ASCII bytes, two two-byte sequences and eighteen three-byte
  sequences.
\<close>

definition ws1 :: "char \<Rightarrow> bool" where
  "ws1 a \<longleftrightarrow> in_codes 9 13 a \<or> code_of a = 32"

definition ws2 :: "char \<Rightarrow> char \<Rightarrow> bool" where
  "ws2 a b \<longleftrightarrow> code_of a = 0xC2 \<and> (code_of b = 0x85 \<or> code_of b = 0xA0)"

definition ws3 :: "char \<Rightarrow> char \<Rightarrow> char \<Rightarrow> bool" where
  "ws3 a b c \<longleftrightarrow>
     code_of a = 0xE1 \<and> code_of b = 0x9A \<and> code_of c = 0x80
   \<or> code_of a = 0xE2 \<and> code_of b = 0x80 \<and>
       (in_codes 0x80 0x8A c \<or> code_of c = 0xA8 \<or> code_of c = 0xA9 \<or> code_of c = 0xAF)
   \<or> code_of a = 0xE2 \<and> code_of b = 0x81 \<and> code_of c = 0x9F
   \<or> code_of a = 0xE3 \<and> code_of b = 0x80 \<and> code_of c = 0x80"

text \<open>Length of the white-space character at the front, 0 if there is none; the second function
  reads the reversed string.\<close>

fun ws_front :: "string \<Rightarrow> nat" where
  "ws_front [] = 0"
| "ws_front [a] = (if ws1 a then 1 else 0)"
| "ws_front [a, b] = (if ws1 a then 1 else if ws2 a b then 2 else 0)"
| "ws_front (a # b # c # r) =
     (if ws1 a then 1 else if ws2 a b then 2 else if ws3 a b c then 3 else 0)"

fun ws_back :: "string \<Rightarrow> nat" where
  "ws_back [] = 0"
| "ws_back [c] = (if ws1 c then 1 else 0)"
| "ws_back [c, b] = (if ws1 c then 1 else if ws2 b c then 2 else 0)"
| "ws_back (c # b # a # r) =
     (if ws1 c then 1 else if ws2 b c then 2 else if ws3 a b c then 3 else 0)"

lemma ws_front_le: "ws_front s \<le> length s"
  by (cases s rule: ws_front.cases) auto

lemma ws_back_le: "ws_back s \<le> length s"
  by (cases s rule: ws_back.cases) auto

function trim_start :: "string \<Rightarrow> string" where
  "trim_start s = (let n = ws_front s in if n = 0 then s else trim_start (drop n s))"
  by pat_completeness auto
termination
  by (relation "measure length") (use ws_front_le in \<open>auto intro!: diff_less simp: order_less_le_trans\<close>)

function trim_back :: "string \<Rightarrow> string" where
  "trim_back s = (let n = ws_back s in if n = 0 then s else trim_back (drop n s))"
  by pat_completeness auto
termination
  by (relation "measure length") (use ws_back_le in \<open>auto intro!: diff_less simp: order_less_le_trans\<close>)

declare trim_start.simps [simp del] trim_back.simps [simp del]

definition trim :: "string \<Rightarrow> string" where
  "trim s = rev (trim_back (rev (trim_start s)))"

definition is_blank :: "string \<Rightarrow> bool" where
  "is_blank s \<longleftrightarrow> trim s = []"

lemma trim_start_suffix: "\<exists>p. s = p @ trim_start s"
proof (induction s rule: trim_start.induct)
  case (1 s)
  show ?case
  proof (cases "ws_front s = 0")
    case False
    with 1 obtain p where "drop (ws_front s) s = p @ trim_start (drop (ws_front s) s)" by auto
    moreover have "trim_start s = trim_start (drop (ws_front s) s)"
      using False by (simp add: trim_start.simps [of s] Let_def)
    ultimately have "take (ws_front s) s @ p @ trim_start s = take (ws_front s) s @ drop (ws_front s) s" by simp
    then show ?thesis by (metis append_assoc append_take_drop_id)
  qed (simp add: trim_start.simps [of s])
qed

lemma trim_back_suffix: "\<exists>p. s = p @ trim_back s"
proof (induction s rule: trim_back.induct)
  case (1 s)
  show ?case
  proof (cases "ws_back s = 0")
    case False
    with 1 obtain p where "drop (ws_back s) s = p @ trim_back (drop (ws_back s) s)" by auto
    moreover have "trim_back s = trim_back (drop (ws_back s) s)"
      using False by (simp add: trim_back.simps [of s] Let_def)
    ultimately have "take (ws_back s) s @ p @ trim_back s = take (ws_back s) s @ drop (ws_back s) s" by simp
    then show ?thesis by (metis append_assoc append_take_drop_id)
  qed (simp add: trim_back.simps [of s])
qed

lemma trim_infix: "\<exists>a b. s = a @ trim s @ b"
proof -
  obtain a where a: "s = a @ trim_start s" using trim_start_suffix by blast
  obtain b where "rev (trim_start s) = b @ trim_back (rev (trim_start s))"
    using trim_back_suffix by blast
  then have "rev (rev (trim_start s)) = rev (trim_back (rev (trim_start s))) @ rev b"
    by (simp only: rev_append [symmetric])
  then have "trim_start s = trim s @ rev b" by (simp add: trim_def)
  with a have "s = a @ trim s @ rev b" by simp
  then show ?thesis by blast
qed

lemma length_trim_le: "length (trim s) \<le> length s"
  using trim_infix [of s] by (metis le_add1 le_add2 length_append order_trans)

lemma set_trim: "set (trim s) \<subseteq> set s"
proof -
  obtain a b where "s = a @ trim s @ b" using trim_infix by blast
  then have "set s = set a \<union> set (trim s) \<union> set b" by (metis set_append sup_assoc)
  then show ?thesis by blast
qed

lemma trim_Nil [simp]: "trim [] = []"
  by (simp add: trim_def trim_start.simps trim_back.simps)

text \<open>\<open>char::is_control\<close> on some character of the string: the C0 and C1 controls and DEL.\<close>

fun has_control :: "string \<Rightarrow> bool" where
  "has_control [] = False"
| "has_control [a] = is_ascii_control a"
| "has_control (a # b # r) =
     (is_ascii_control a \<or> (code_of a = 0xC2 \<and> in_codes 0x80 0x9F b) \<or> has_control (b # r))"

text \<open>\<open>char::is_whitespace\<close> on some character of the string.  A white-space sequence starts with an
  ASCII byte or a lead byte, so in well-formed text it is found at a character boundary only.\<close>

fun has_whitespace :: "string \<Rightarrow> bool" where
  "has_whitespace [] = False"
| "has_whitespace (a # r) = (ws_front (a # r) \<noteq> 0 \<or> has_whitespace r)"

text \<open>A string of plain ASCII characters without blanks is not changed by \<open>trim\<close>.\<close>

definition plain_char :: "char \<Rightarrow> bool" where
  "plain_char c \<longleftrightarrow> code_of c < 128 \<and> \<not> ws1 c"

lemma ws_front_plain: "list_all plain_char s \<Longrightarrow> ws_front s = 0"
  by (cases s rule: ws_front.cases) (auto simp: plain_char_def ws2_def ws3_def)

lemma ws_back_plain: "list_all plain_char s \<Longrightarrow> ws_back s = 0"
  by (cases s rule: ws_back.cases) (auto simp: plain_char_def ws2_def ws3_def)

lemma trim_plain: "list_all plain_char s \<Longrightarrow> trim s = s"
  by (simp add: trim_def trim_start.simps [of s] trim_back.simps [of "rev s"] ws_front_plain
      ws_back_plain)

lemma has_whitespace_append: "has_whitespace b \<Longrightarrow> has_whitespace (a @ b)"
  by (induction a) auto

lemma ws_back_has_whitespace: "ws_back (rev s) \<noteq> 0 \<Longrightarrow> has_whitespace s"
proof (cases "rev s" rule: ws_back.cases)
  case (4 c b a r)
  then have "s = rev r @ [a, b, c]" by (metis append.assoc append_Cons append_Nil rev.simps(2) rev_rev_ident)
  moreover assume "ws_back (rev s) \<noteq> 0"
  ultimately have "has_whitespace [a, b, c]" by (auto split: if_splits)
  with \<open>s = _\<close> show ?thesis by (simp only: has_whitespace_append)
qed (auto split: if_splits simp: rev_swap)

lemma trim_no_whitespace: "\<not> has_whitespace s \<Longrightarrow> trim s = s"
proof -
  assume nw: "\<not> has_whitespace s"
  then have "ws_front s = 0" by (cases s) auto
  moreover from nw have "ws_back (rev s) = 0" using ws_back_has_whitespace [of s] by blast
  ultimately show ?thesis by (simp add: trim_def trim_start.simps [of s] trim_back.simps [of "rev s"])
qed

section \<open>UTF-8\<close>

text \<open>\<open>String::from_utf8\<close> accepts exactly the well-formed sequences of the Unicode standard.\<close>

abbreviation utf8_tail :: "char \<Rightarrow> bool" where
  "utf8_tail c \<equiv> in_codes 0x80 0xBF c"

definition utf8_lead2 :: "char \<Rightarrow> char \<Rightarrow> bool" where
  "utf8_lead2 a b \<longleftrightarrow> in_codes 0xC2 0xDF a \<and> utf8_tail b"

definition utf8_lead3 :: "char \<Rightarrow> char \<Rightarrow> bool" where
  "utf8_lead3 a b \<longleftrightarrow>
     (code_of a = 0xE0 \<and> in_codes 0xA0 0xBF b) \<or> (in_codes 0xE1 0xEC a \<and> utf8_tail b) \<or>
     (code_of a = 0xED \<and> in_codes 0x80 0x9F b) \<or> (in_codes 0xEE 0xEF a \<and> utf8_tail b)"

definition utf8_lead4 :: "char \<Rightarrow> char \<Rightarrow> bool" where
  "utf8_lead4 a b \<longleftrightarrow>
     (code_of a = 0xF0 \<and> in_codes 0x90 0xBF b) \<or> (in_codes 0xF1 0xF3 a \<and> utf8_tail b) \<or>
     (code_of a = 0xF4 \<and> in_codes 0x80 0x8F b)"

fun utf8_valid :: "bytes \<Rightarrow> bool" where
  "utf8_valid [] = True"
| "utf8_valid (a # r) =
     (if code_of a < 0x80 then utf8_valid r
      else case r of
        [] \<Rightarrow> False
      | b # r2 \<Rightarrow>
          if utf8_lead2 a b then utf8_valid r2
          else case r2 of
            [] \<Rightarrow> False
          | c # r3 \<Rightarrow>
              if utf8_lead3 a b \<and> utf8_tail c then utf8_valid r3
              else case r3 of
                [] \<Rightarrow> False
              | e # r4 \<Rightarrow> utf8_lead4 a b \<and> utf8_tail c \<and> utf8_tail e \<and> utf8_valid r4)"

lemma utf8_valid_ascii: "\<forall>c\<in>set s. code_of c < 128 \<Longrightarrow> utf8_valid s"
  by (induction s) auto

section \<open>Bounded integers\<close>

abbreviation u16_bound :: nat where "u16_bound \<equiv> 65536"
abbreviation u32_bound :: nat where "u32_bound \<equiv> 4294967296"
abbreviation u64_bound :: nat where "u64_bound \<equiv> 18446744073709551616"
abbreviation i64_max :: nat where "i64_max \<equiv> 9223372036854775807"

text \<open>\<open>usize\<close> is 64 bits wide on the supported targets.\<close>

abbreviation usize_bound :: nat where "usize_bound \<equiv> u64_bound"

definition checked_add :: "nat \<Rightarrow> nat \<Rightarrow> nat \<Rightarrow> nat option" where
  "checked_add bound a b = (if a + b < bound then Some (a + b) else None)"

definition saturating_add :: "nat \<Rightarrow> nat \<Rightarrow> nat \<Rightarrow> nat" where
  "saturating_add bound a b = min (a + b) (bound - 1)"

definition saturating_pow :: "nat \<Rightarrow> nat \<Rightarrow> nat \<Rightarrow> nat" where
  "saturating_pow bound a n = min (a ^ n) (bound - 1)"

lemma checked_add_Some [num_simps]:
  "checked_add bound a b = Some c \<longleftrightarrow> c = a + b \<and> a + b < bound"
  by (auto simp: checked_add_def)

lemma saturating_add_less: "0 < bound \<Longrightarrow> saturating_add bound a b < bound"
  by (auto simp: saturating_add_def)

definition digit_value :: "char \<Rightarrow> nat" where
  "digit_value c = code_of c - 48"

text \<open>\<open>str::parse\<close> for an unsigned type with values below \<open>bound\<close>: an optional plus sign,
  then at least one decimal digit, failing on overflow.\<close>

fun parse_digits :: "nat \<Rightarrow> nat \<Rightarrow> string \<Rightarrow> nat option" where
  "parse_digits bound acc [] = Some acc"
| "parse_digits bound acc (c # cs) =
     (if is_ascii_digit c \<and> acc * 10 + digit_value c < bound
      then parse_digits bound (acc * 10 + digit_value c) cs else None)"

definition parse_uint :: "nat \<Rightarrow> string \<Rightarrow> nat option" where
  "parse_uint bound s =
     (case s of [] \<Rightarrow> None
      | c # cs \<Rightarrow> if c = CHR ''+'' then (if cs = [] then None else parse_digits bound 0 cs)
                 else parse_digits bound 0 s)"

lemma parse_digits_less: "acc < bound \<Longrightarrow> parse_digits bound acc s = Some n \<Longrightarrow> n < bound"
  by (induction bound acc s rule: parse_digits.induct) (auto split: if_splits)

lemma parse_uint_less: "0 < bound \<Longrightarrow> parse_uint bound s = Some n \<Longrightarrow> n < bound"
  by (auto simp: parse_uint_def dest: parse_digits_less split: list.splits if_splits)

lemma parse_digits_append:
  "parse_digits bound acc (s @ t) =
     (case parse_digits bound acc s of None \<Rightarrow> None | Some n \<Rightarrow> parse_digits bound n t)"
  by (induction bound acc s rule: parse_digits.induct) auto

text \<open>\<open>Display\<close> of an unsigned integer, and \<open>LowerHex\<close>.\<close>

definition digit_char :: "nat \<Rightarrow> char" where
  "digit_char n = (if n < 10 then char_of (48 + n) else char_of (87 + n))"

function show_base :: "nat \<Rightarrow> nat \<Rightarrow> string" where
  "show_base b n = (if n < b \<or> b < 2 then [digit_char n]
                    else show_base b (n div b) @ [digit_char (n mod b)])"
  by pat_completeness auto
termination
  by (relation "measure snd") auto

declare show_base.simps [simp del]

abbreviation show_nat :: "nat \<Rightarrow> string" where
  "show_nat \<equiv> show_base 10"

abbreviation show_hex :: "nat \<Rightarrow> string" where
  "show_hex \<equiv> show_base 16"

lemma digit_char_digit:
  assumes "n < 10"
  shows "is_ascii_digit (digit_char n)" "digit_value (digit_char n) = n"
  using assms by (auto simp: digit_char_def char_class_defs digit_value_def)

lemma show_base_not_Nil [simp]: "show_base b n \<noteq> []"
  by (subst show_base.simps) simp

lemma parse_digits_show_nat: "n < bound \<Longrightarrow> parse_digits bound 0 (show_nat n) = Some n"
proof (induction "10 :: nat" n rule: show_base.induct)
  case (1 n)
  show ?case
  proof (cases "n < 10")
    case True
    then show ?thesis using 1 by (subst show_base.simps) (simp add: digit_char_digit)
  next
    case False
    with 1 have "parse_digits bound 0 (show_nat (n div 10)) = Some (n div 10)" by simp
    then show ?thesis using 1 False
      by (subst show_base.simps) (simp add: parse_digits_append digit_char_digit)
  qed
qed

lemma show_nat_digits: "c \<in> set (show_nat n) \<Longrightarrow> is_ascii_digit c"
proof (induction "10 :: nat" n rule: show_base.induct)
  case (1 n)
  then show ?case
    by (cases "n < 10")
       (auto simp: show_base.simps [of 10 n] digit_char_digit)
qed

lemma parse_uint_show_nat: "n < bound \<Longrightarrow> parse_uint bound (show_nat n) = Some n"
proof -
  assume n: "n < bound"
  obtain c cs where c: "show_nat n = c # cs" by (cases "show_nat n") auto
  have "is_ascii_digit c" using show_nat_digits [of c n] c by simp
  then have "c \<noteq> CHR ''+''" by (auto simp: char_class_defs)
  then show ?thesis using parse_digits_show_nat [OF n] c by (simp add: parse_uint_def)
qed

lemma digit_char_inj: "i < 16 \<Longrightarrow> j < 16 \<Longrightarrow> digit_char i = digit_char j \<Longrightarrow> i = j"
proof -
  assume ij: "i < 16" "j < 16" and eq: "digit_char i = digit_char j"
  have code: "code_of (digit_char n) = (if n < 10 then 48 + n else 87 + n)" if "n < 16" for n
    using that by (simp add: digit_char_def)
  from eq have "code_of (digit_char i) = code_of (digit_char j)" by simp
  then show "i = j" using ij by (simp add: code split: if_splits)
qed

lemma show_base_inj:
  assumes "2 \<le> b" "b \<le> 16"
  shows "show_base b n = show_base b m \<Longrightarrow> n = m"
proof (induction n arbitrary: m rule: less_induct)
  case (less n)
  note n = show_base.simps [of b n] and m = show_base.simps [of b m]
  show ?case
  proof (cases "n < b")
    case True
    with less.prems n have one: "[digit_char n] = show_base b m" using assms by simp
    then have "m < b" using m assms by (auto simp: eq_commute [of "[]"] split: if_splits)
    with one m True assms digit_char_inj [of n m] show ?thesis by simp
  next
    case False
    then have n': "show_base b n = show_base b (n div b) @ [digit_char (n mod b)]" using n assms by simp
    have "\<not> m < b"
    proof
      assume "m < b"
      with less.prems n' m show False by simp
    qed
    then have "show_base b m = show_base b (m div b) @ [digit_char (m mod b)]" using m assms by simp
    with less.prems n' have "show_base b (n div b) = show_base b (m div b)"
      "digit_char (n mod b) = digit_char (m mod b)" by simp_all
    moreover have "n div b < n" using False assms by (simp add: not_less)
    ultimately have "n div b = m div b" "n mod b = m mod b"
      using less.IH digit_char_inj [of "n mod b" "m mod b"] assms
      by (auto simp: less_le_trans [OF mod_less_divisor])
    then show ?thesis by (metis div_mult_mod_eq)
  qed
qed

lemma show_hex_chars: "c \<in> set (show_hex n) \<Longrightarrow> in_codes 48 57 c \<or> in_codes 97 102 c"
proof (induction "16 :: nat" n rule: show_base.induct)
  case (1 n)
  have d: "in_codes 48 57 (digit_char i) \<or> in_codes 97 102 (digit_char i)" if "i < 16" for i
    using that by (auto simp: digit_char_def in_codes_def)
  show ?case using 1 d [of n] d [of "n mod 16"] by (auto simp: show_base.simps [of 16 n] split: if_splits)
qed

lemma show_nat_0: "show_nat 0 = ''0''"
  by (subst show_base.simps) (simp add: digit_char_def char_of_def bit_Suc_0_iff)

text \<open>A length-delimited text is read back in one way only.\<close>

lemma delimited_inj:
  fixes a b :: string
  assumes "a @ c # b = a' @ c # b'" "c \<notin> set a" "c \<notin> set a'"
  shows "a = a' \<and> b = b'"
proof -
  have h: "split_once c (a @ c # b) = Some (a, b)"
    unfolding split_once_Some using assms(2) by (intro conjI refl)
  have "split_once c (a' @ c # b') = Some (a', b')"
    unfolding split_once_Some using assms(3) by (intro conjI refl)
  with h [unfolded assms(1)] show ?thesis by simp
qed

lemma colon_not_digit: "CHR '':'' \<notin> set (show_nat n)"
  using show_nat_digits [of "CHR '':''" n] by (auto simp: char_class_defs)

section \<open>Durations\<close>

type_synonym duration = nat

text \<open>A \<open>SystemTime\<close> is its signed number of nanoseconds since the epoch.\<close>

type_synonym system_time = int

abbreviation nanos_per_sec :: nat where "nanos_per_sec \<equiv> 1000000000"
abbreviation nanos_per_milli :: nat where "nanos_per_milli \<equiv> 1000000"

definition duration_max :: duration where
  "duration_max = u64_bound * nanos_per_sec - 1"

definition from_secs :: "nat \<Rightarrow> duration" where
  "from_secs n = n * nanos_per_sec"

definition from_millis :: "nat \<Rightarrow> duration" where
  "from_millis n = n * nanos_per_milli"

definition as_secs :: "duration \<Rightarrow> nat" where
  "as_secs d = d div nanos_per_sec"

definition as_millis :: "duration \<Rightarrow> nat" where
  "as_millis d = d div nanos_per_milli"

definition subsec_nanos :: "duration \<Rightarrow> nat" where
  "subsec_nanos d = d mod nanos_per_sec"

definition duration_saturating_mul :: "duration \<Rightarrow> nat \<Rightarrow> duration" where
  "duration_saturating_mul d k = min (d * k) duration_max"

lemmas duration_defs =
  from_secs_def from_millis_def as_secs_def as_millis_def subsec_nanos_def
  duration_saturating_mul_def duration_max_def

section \<open>Calls to a server\<close>

text \<open>What happens to one command: it is answered, or it reached the server and the answer is lost, or it is not sent.\<close>

datatype redis_link = Answered | ReplyLost | NotSent

section \<open>Evaluation\<close>

text \<open>Equations with which the simplifier evaluates the string operations on literals.\<close>

lemmas trim_eval = trim_def trim_start.simps trim_back.simps ws1_def ws2_def ws3_def in_codes_def
lemmas parse_eval = parse_uint_def char_class_defs digit_value_def
lemmas show_eval = show_base.simps digit_char_def char_of_def bit_Suc_0_iff
lemmas case_eval = eq_ignore_ascii_case_def to_ascii_lowercase_def to_ascii_lower_def in_codes_def char_of_def bit_Suc_0_iff

end
