(* ===== verification/Http.thy ===== *)
theory Http
  imports Prelude
begin

text \<open>
  The HTTP foundation of the framework, \<open>crates/rustee-core\<close> and \<open>crates/rustee-json\<close>:
  requests, responses and their extensions, sanitized errors, conversions of handler results
  into responses, bounded JSON encoding, typed application state and the request extractors.

  The data types of the \<open>http\<close> and \<open>http-body\<close> packages are plain data here: a header map
  is the list of values of every (lower-case) field name, a method is its token, a status its
  number.  Functions of other packages are parameters: \<open>deps\<close> bundles the two that almost
  every component calls, \<open>HeaderValue::to_str\<close> and the JSON encoding of an error payload.
  An \<open>async\<close> function is the function of its inputs that it computes.
\<close>

section \<open>Network addresses and connection metadata\<close>

datatype ip_addr = V4 "32 word" | V6 "128 word"

record connection_info =
  peer_ip :: ip_addr
  peer_port :: nat

section \<open>Route metadata\<close>

datatype route_template = RouteTemplate (template_str: string)

datatype route_classification =
    Matched route_template
  | Fallback
  | MethodNotAllowed
  | NotFound

definition classification_str :: "route_classification \<Rightarrow> string" where
  "classification_str c =
     (case c of
        Matched template \<Rightarrow> template_str template
      | Fallback \<Rightarrow> ''<fallback>''
      | MethodNotAllowed \<Rightarrow> ''<method-not-allowed>''
      | NotFound \<Rightarrow> ''<not-found>'')"

type_synonym route_params = "(string \<times> string) list"

definition route_params_get :: "route_params \<Rightarrow> string \<Rightarrow> string option" where
  "route_params_get params name = map_option snd (find (\<lambda>(key, value). key = name) params)"

section \<open>Requests and responses\<close>

type_synonym header_map = "string \<Rightarrow> string list"

datatype body_error = LengthLimit | OtherBodyError

text \<open>An owned body is either one buffer or a stream of chunks that may end in an error.\<close>

datatype body = FullBody bytes | StreamBody "bytes list" "body_error option"

record uri =
  uri_path :: string
  uri_query :: "string option"

record forwarded_context =
  fwd_client_ip :: ip_addr
  fwd_scheme :: "string option"
  fwd_host :: "string option"

text \<open>The identity values that the authentication layers put into a request: a \<open>BTreeSet\<close> is its set.\<close>

record principal =
  prin_subject :: string
  prin_issuer :: "string option"
  prin_tenant :: "string option"
  prin_scopes :: "string set"
  prin_roles :: "string set"
  prin_permissions :: "string set"

datatype tenant_context = TenantContext (tenant_str: string)

datatype session_id = SessionId (session_uuid: "128 word")

record session_context =
  sctx_id :: session_id
  sctx_csrf_token :: string

text \<open>The typed extension map of a request, one field per extension type the modelled code uses.\<close>

record extensions =
  ext_connection :: "connection_info option"
  ext_template :: "route_template option"
  ext_nested_prefix :: "string option"
  ext_forwarded :: "forwarded_context option"
  ext_principal :: "principal option"
  ext_tenant :: "tenant_context option"
  ext_session :: "session_context option"

definition no_extensions :: extensions where
  "no_extensions = \<lparr>ext_connection = None, ext_template = None, ext_nested_prefix = None,
     ext_forwarded = None, ext_principal = None, ext_tenant = None, ext_session = None\<rparr>"

record request =
  req_method :: string
  req_uri :: uri
  req_headers :: header_map
  req_extensions :: extensions
  req_body :: body

record response =
  resp_status :: nat
  resp_headers :: header_map
  resp_body :: body
  resp_template :: "route_template option"
  resp_classification :: "route_classification option"

record deps =
  header_to_str :: "bytes \<Rightarrow> string option"
  json_error :: "string \<Rightarrow> string \<Rightarrow> bytes option"

text \<open>\<open>HeaderMap::insert\<close>, \<open>append\<close>, \<open>remove\<close> and \<open>contains_key\<close>.\<close>

abbreviation header_insert :: "string \<Rightarrow> string \<Rightarrow> header_map \<Rightarrow> header_map" where
  "header_insert name value headers \<equiv> headers(name := [value])"

abbreviation header_append :: "string \<Rightarrow> string \<Rightarrow> header_map \<Rightarrow> header_map" where
  "header_append name value headers \<equiv> headers(name := headers name @ [value])"

abbreviation header_remove :: "string \<Rightarrow> header_map \<Rightarrow> header_map" where
  "header_remove name headers \<equiv> headers(name := [])"

abbreviation contains_header :: "header_map \<Rightarrow> string \<Rightarrow> bool" where
  "contains_header headers name \<equiv> headers name \<noteq> []"

definition no_headers :: header_map where
  "no_headers = (\<lambda>_. [])"

section \<open>Bodies and response construction\<close>

definition full_body :: "bytes \<Rightarrow> body" where
  "full_body value = FullBody value"

definition empty_body :: body where
  "empty_body = full_body []"

definition stream_body :: "bytes list \<Rightarrow> body_error option \<Rightarrow> body" where
  "stream_body chunks failure = StreamBody chunks failure"

text \<open>The bytes a client receives before the body ends or fails.\<close>

fun body_bytes :: "body \<Rightarrow> bytes" where
  "body_bytes (FullBody value) = value"
| "body_bytes (StreamBody chunks failure) = concat chunks"

definition status_disallows_body :: "nat \<Rightarrow> bool" where
  "status_disallows_body status \<longleftrightarrow>
     (100 \<le> status \<and> status < 200) \<or> status = 204 \<or> status = 205 \<or> status = 304"

definition response :: "nat \<Rightarrow> body \<Rightarrow> response" where
  "response status b =
     \<lparr>resp_status = status, resp_headers = no_headers,
      resp_body = (if status_disallows_body status then empty_body else b),
      resp_template = None, resp_classification = None\<rparr>"

definition json_response_from_encoded :: "nat \<Rightarrow> bytes \<Rightarrow> response" where
  "json_response_from_encoded status encoded =
     (response status (full_body encoded))
       \<lparr>resp_headers := header_insert ''content-type'' ''application/json; charset=utf-8'' no_headers\<rparr>"

section \<open>Sanitized errors\<close>

record http_error =
  err_status :: nat
  err_code :: string
  err_message :: string

definition error_new :: "nat \<Rightarrow> string \<Rightarrow> string \<Rightarrow> http_error" where
  "error_new status code message =
     \<lparr>err_status = status, err_code = code, err_message = message\<rparr>"

definition error_bad_request :: "string \<Rightarrow> http_error" where
  "error_bad_request message = error_new 400 ''bad_request'' message"

definition error_not_found :: "string \<Rightarrow> http_error" where
  "error_not_found message = error_new 404 ''not_found'' message"

definition error_unsupported_media_type :: "string \<Rightarrow> http_error" where
  "error_unsupported_media_type message = error_new 415 ''unsupported_media_type'' message"

definition error_internal :: http_error where
  "error_internal = error_new 500 ''internal_error'' ''an internal server error occurred''"

section \<open>Conversion into responses\<close>

text \<open>\<open>json_response\<close> on an already chosen encoder result: a failed encoding is an internal
  error.\<close>

definition json_response :: "nat \<Rightarrow> bytes option \<Rightarrow> (http_error, response) result" where
  "json_response status encoded =
     (case encoded of None \<Rightarrow> Inl error_internal
      | Some bytes \<Rightarrow> Inr (json_response_from_encoded status bytes))"

definition error_into_response :: "deps \<Rightarrow> http_error \<Rightarrow> response" where
  "error_into_response d e =
     (case json_response (err_status e) (json_error d (err_code e) (err_message e)) of
        Inr r \<Rightarrow> r
      | Inl _ \<Rightarrow> response (err_status e) empty_body)"

definition status_into_response :: "nat \<Rightarrow> response" where
  "status_into_response status = response status empty_body"

definition unit_into_response :: response where
  "unit_into_response = status_into_response 204"

definition text_response :: "nat \<Rightarrow> bytes \<Rightarrow> response" where
  "text_response status value =
     (response status (full_body value))
       \<lparr>resp_headers := header_insert ''content-type'' ''text/plain; charset=utf-8'' no_headers\<rparr>"

definition string_into_response :: "string \<Rightarrow> response" where
  "string_into_response s = text_response 200 s"

definition bytes_into_response :: "bytes \<Rightarrow> response" where
  "bytes_into_response b = response 200 (full_body b)"

text \<open>\<open>IntoResponse for (StatusCode, T)\<close>, on the converted value.\<close>

definition with_status_into_response :: "nat \<Rightarrow> response \<Rightarrow> response" where
  "with_status_into_response status value =
     (let r = value\<lparr>resp_status := status\<rparr> in
      if status_disallows_body status
      then r\<lparr>resp_body := empty_body,
             resp_headers :=
               header_remove ''transfer-encoding'' (header_remove ''content-length'' (resp_headers r))\<rparr>
      else r)"

fun result_into_response ::
  "('e \<Rightarrow> response) \<Rightarrow> ('a \<Rightarrow> response) \<Rightarrow> ('e, 'a) result \<Rightarrow> response" where
  "result_into_response on_err on_ok (Inr value) = on_ok value"
| "result_into_response on_err on_ok (Inl err) = on_err err"

definition json_into_response :: "deps \<Rightarrow> bytes option \<Rightarrow> response" where
  "json_into_response d encoded =
     (case json_response 200 encoded of
        Inr r \<Rightarrow> r
      | Inl _ \<Rightarrow> error_into_response d error_internal)"

section \<open>Bounded JSON encoding\<close>

record json_buffer =
  buf_bytes :: bytes
  buf_max :: nat
  buf_exceeded :: bool

datatype bounded_json_error = TooLarge | Serialize

definition json_buffer_new :: "nat \<Rightarrow> json_buffer" where
  "json_buffer_new max_bytes = \<lparr>buf_bytes = [], buf_max = max_bytes, buf_exceeded = False\<rparr>"

definition json_buffer_write :: "json_buffer \<Rightarrow> bytes \<Rightarrow> (unit, nat) result \<times> json_buffer" where
  "json_buffer_write b chunk =
     (if length chunk > buf_max b - length (buf_bytes b)
      then (Inl (), b\<lparr>buf_exceeded := True\<rparr>)
      else (Inr (length chunk), b\<lparr>buf_bytes := buf_bytes b @ chunk\<rparr>))"

text \<open>
  \<open>serde_json::to_writer\<close> is a parameter: for a value it is the sequence of chunks it writes
  and whether serialization itself then succeeds.  It stops at the first failing write.
\<close>

fun to_writer :: "bytes list \<Rightarrow> bool \<Rightarrow> json_buffer \<Rightarrow> (unit, unit) result \<times> json_buffer" where
  "to_writer [] ok b = (if ok then Inr () else Inl (), b)"
| "to_writer (c # cs) ok b =
     (case json_buffer_write b c of
        (Inl e, b') \<Rightarrow> (Inl (), b')
      | (Inr n, b') \<Rightarrow> to_writer cs ok b')"

definition to_vec_bounded ::
  "('v \<Rightarrow> bytes list \<times> bool) \<Rightarrow> 'v \<Rightarrow> nat \<Rightarrow> (bounded_json_error, bytes) result" where
  "to_vec_bounded serializer value max_bytes =
     (let (chunks, ok) = serializer value in
      case to_writer chunks ok (json_buffer_new max_bytes) of
        (Inr _, b) \<Rightarrow> Inr (buf_bytes b)
      | (Inl _, b) \<Rightarrow> if buf_exceeded b then Inl TooLarge else Inl Serialize)"

definition encode_json_bounded ::
  "('v \<Rightarrow> bytes list \<times> bool) \<Rightarrow> 'v \<Rightarrow> nat \<Rightarrow> (http_error, bytes) result" where
  "encode_json_bounded serializer value max_bytes =
     (case to_vec_bounded serializer value max_bytes of
        Inr encoded \<Rightarrow> Inr encoded
      | Inl TooLarge \<Rightarrow>
          Inl (error_new 500 ''response_too_large'' ''response body exceeds configured limit'')
      | Inl Serialize \<Rightarrow> Inl error_internal)"

definition json_response_bounded ::
  "('v \<Rightarrow> bytes list \<times> bool) \<Rightarrow> nat \<Rightarrow> 'v \<Rightarrow> nat \<Rightarrow> (http_error, response) result" where
  "json_response_bounded serializer status value max_bytes =
     bind_result (encode_json_bounded serializer value max_bytes)
       (\<lambda>encoded. Inr (json_response_from_encoded status encoded))"

section \<open>Lemmas\<close>

lemmas error_constructors =
  error_new_def error_bad_request_def error_not_found_def error_unsupported_media_type_def
  error_internal_def

lemmas response_builders =
  response_def json_response_from_encoded_def json_response_def status_into_response_def
  text_response_def string_into_response_def bytes_into_response_def unit_into_response_def

lemma response_status [simp]: "resp_status (response status b) = status"
  by (simp add: response_def)

lemma response_headers [simp]: "resp_headers (response status b) = no_headers"
  by (simp add: response_def)

lemma error_into_response_status [simp]: "resp_status (error_into_response d e) = err_status e"
  by (simp add: error_into_response_def response_builders split: option.splits)

lemma error_new_fields [simp]:
  "err_status (error_new s c m) = s" "err_code (error_new s c m) = c"
  "err_message (error_new s c m) = m"
  by (simp_all add: error_new_def)

lemma error_into_response_classification [simp]:
  "resp_classification (error_into_response d e) = None"
  "resp_template (error_into_response d e) = None"
  by (simp_all add: error_into_response_def response_builders split: option.splits)

lemma error_into_response_headers [simp]:
  "name \<noteq> ''content-type'' \<Longrightarrow> resp_headers (error_into_response d e) name = []"
  by (simp add: error_into_response_def response_builders no_headers_def split: option.splits)

lemma body_bytes_empty [simp]: "body_bytes empty_body = []"
  by (simp add: empty_body_def full_body_def)

text \<open>A response whose status forbids a payload has none, however it was built.\<close>

definition payload_allowed :: "response \<Rightarrow> bool" where
  "payload_allowed r \<longleftrightarrow> (status_disallows_body (resp_status r) \<longrightarrow> body_bytes (resp_body r) = [])"

lemma payload_allowed_builders:
  "payload_allowed (response status b)"
  "payload_allowed (json_response_from_encoded status enc)"
  "payload_allowed (error_into_response d e)"
  "payload_allowed (status_into_response status)"
  "payload_allowed unit_into_response"
  "payload_allowed (text_response status value)"
  "payload_allowed (string_into_response value)"
  "payload_allowed (bytes_into_response value)"
  "payload_allowed (with_status_into_response status r)"
  "payload_allowed (json_into_response d encoded)"
  by (auto simp: payload_allowed_def response_builders error_into_response_def Let_def
      with_status_into_response_def json_into_response_def split: option.splits)

subsection \<open>The bounded writer\<close>

definition json_buffer_inv :: "json_buffer \<Rightarrow> bool" where
  "json_buffer_inv b \<longleftrightarrow> length (buf_bytes b) \<le> buf_max b"

lemma json_buffer_write_inv:
  "json_buffer_inv b \<Longrightarrow> json_buffer_inv (snd (json_buffer_write b chunk))"
  by (auto simp: json_buffer_inv_def json_buffer_write_def)

lemma to_writer_fits:
  "length (buf_bytes b) + length (concat chunks) \<le> buf_max b \<Longrightarrow>
   to_writer chunks ok b =
     (if ok then Inr () else Inl (), b\<lparr>buf_bytes := buf_bytes b @ concat chunks\<rparr>)"
  by (induction chunks arbitrary: b) (auto simp: json_buffer_write_def)

lemma to_writer_exceeds:
  "json_buffer_inv b \<Longrightarrow> buf_max b < length (buf_bytes b) + length (concat chunks) \<Longrightarrow>
   fst (to_writer chunks ok b) = Inl () \<and> buf_exceeded (snd (to_writer chunks ok b))"
proof (induction chunks arbitrary: b)
  case (Cons c cs)
  show ?case
  proof (cases "length c > buf_max b - length (buf_bytes b)")
    case False
    let ?b = "b\<lparr>buf_bytes := buf_bytes b @ c\<rparr>"
    from False Cons.prems have "json_buffer_inv ?b"
      "buf_max ?b < length (buf_bytes ?b) + length (concat cs)"
      by (auto simp: json_buffer_inv_def)
    from Cons.IH [OF this] False show ?thesis by (simp add: json_buffer_write_def)
  qed (simp add: json_buffer_write_def)
qed (simp add: json_buffer_inv_def)

lemma to_vec_bounded_eq:
  assumes "serializer value = (chunks, ok)"
  shows "to_vec_bounded serializer value max_bytes =
    (if max_bytes < length (concat chunks) then Inl TooLarge
     else if ok then Inr (concat chunks) else Inl Serialize)"
proof (cases "max_bytes < length (concat chunks)")
  case True
  let ?w = "to_writer chunks ok (json_buffer_new max_bytes)"
  have "fst ?w = Inl () \<and> buf_exceeded (snd ?w)"
    using True by (intro to_writer_exceeds) (auto simp: json_buffer_new_def json_buffer_inv_def)
  then show ?thesis using assms True
    by (cases ?w) (simp add: to_vec_bounded_def)
next
  case False
  then have "to_writer chunks ok (json_buffer_new max_bytes) =
      (if ok then Inr () else Inl (), (json_buffer_new max_bytes)\<lparr>buf_bytes := concat chunks\<rparr>)"
    by (subst to_writer_fits) (auto simp: json_buffer_new_def)
  then show ?thesis using assms False by (auto simp: to_vec_bounded_def json_buffer_new_def)
qed

section \<open>Sample inputs\<close>

text \<open>Concrete parameters and requests on which properties are evaluated.\<close>

definition sample_deps :: deps where
  "sample_deps = \<lparr>header_to_str = Some, json_error = (\<lambda>code message. Some (code @ '': '' @ message))\<rparr>"

definition sample_request :: "string \<Rightarrow> string \<Rightarrow> request" where
  "sample_request method path =
     \<lparr>req_method = method, req_uri = \<lparr>uri_path = path, uri_query = None\<rparr>,
      req_headers = no_headers, req_extensions = no_extensions, req_body = empty_body\<rparr>"

end
