(* ===== verification/Pattern.thy ===== *)
theory Pattern
  imports Http "HOL-Library.List_Lexorder" "HOL-Library.Char_ord"
begin

text \<open>
  Route patterns and nested prefixes, \<open>crates/rustee-router/src/pattern.rs\<close>: parsing,
  matching with parameter capture, pattern equivalence and prefix stripping, with the lemmas
  that relate a pattern to the set of request paths it matches.
\<close>

section \<open>Definitions\<close>

datatype route_error = RouteError string

datatype segment = Static string | Parameter string

record route_pattern =
  pat_segments :: "segment list"
  pat_static_segments :: nat

text \<open>\<open>path.trim_matches('/').split('/').filter(|segment| !segment.is_empty())\<close>, which parsing
  and matching share.\<close>

definition path_segments :: "string \<Rightarrow> string list" where
  "path_segments path =
     filter (\<lambda>segment. segment \<noteq> []) (split_on (CHR ''/'') (trim_matches (CHR ''/'') path))"

fun parse_segments ::
  "string list \<Rightarrow> nat \<Rightarrow> string set \<Rightarrow> segment list \<Rightarrow> (route_error, route_pattern) result" where
  "parse_segments [] static_segments names segments =
     Inr \<lparr>pat_segments = segments, pat_static_segments = static_segments\<rparr>"
| "parse_segments (segment # rest) static_segments names segments =
     (case strip_prefix '':'' segment of
        Some name \<Rightarrow>
          if name = [] \<or> \<not> list_all (\<lambda>c. is_ascii_alphanumeric c \<or> c = CHR ''_'') name
          then Inl (RouteError
            ''route parameter names must contain only ASCII letters, digits, or underscores'')
          else if name \<in> names
          then Inl (RouteError ''route parameter names must be unique'')
          else parse_segments rest static_segments (insert name names)
                 (segments @ [Parameter name])
      | None \<Rightarrow>
          parse_segments rest (static_segments + 1) names (segments @ [Static segment]))"

definition pattern_parse :: "string \<Rightarrow> (route_error, route_pattern) result" where
  "pattern_parse path =
     (if \<not> starts_with ''/'' path
      then Inl (RouteError (''route paths must start with '/'' @ [CHR 0x27]))
      else if CHR ''?'' \<in> set path \<or> CHR ''#'' \<in> set path
      then Inl (RouteError ''route paths cannot contain a query string or fragment'')
      else if contains_str ''//'' path
      then Inl (RouteError ''route paths cannot contain repeated '/' separators'')
      else parse_segments (path_segments path) 0 {} [])"

fun match_segments :: "segment list \<Rightarrow> string list \<Rightarrow> route_params \<Rightarrow> route_params option" where
  "match_segments [] incoming params = (if incoming = [] then Some params else None)"
| "match_segments (segment # segments) [] params = None"
| "match_segments (Static expected # segments) (i # incoming) params =
     (if expected = i then match_segments segments incoming params else None)"
| "match_segments (Parameter name # segments) (i # incoming) params =
     match_segments segments incoming (params @ [(name, i)])"

definition pattern_matches :: "route_pattern \<Rightarrow> string \<Rightarrow> route_params option" where
  "pattern_matches pat path =
     (if contains_str ''//'' path then None
      else match_segments (pat_segments pat) (path_segments path) [])"

fun segment_equivalent :: "segment \<Rightarrow> segment \<Rightarrow> bool" where
  "segment_equivalent (Static left) (Static right) = (left = right)"
| "segment_equivalent (Parameter left) (Parameter right) = True"
| "segment_equivalent _ _ = False"

definition is_equivalent_to :: "route_pattern \<Rightarrow> route_pattern \<Rightarrow> bool" where
  "is_equivalent_to self other \<longleftrightarrow>
     length (pat_segments self) = length (pat_segments other) \<and>
     list_all (\<lambda>(left, right). segment_equivalent left right)
       (zip (pat_segments self) (pat_segments other))"

record nested_prefix =
  np_value :: string
  np_segment_count :: nat

fun is_static :: "segment \<Rightarrow> bool" where
  "is_static (Static s) = True"
| "is_static (Parameter n) = False"

text \<open>The \<open>unreachable!\<close> arm of the source is the parameter case; the check before it makes
  sure that it is never evaluated.\<close>

fun static_text :: "segment \<Rightarrow> string" where
  "static_text (Static s) = s"
| "static_text (Parameter n) = undefined"

definition nested_prefix_parse :: "string \<Rightarrow> (route_error, nested_prefix) result" where
  "nested_prefix_parse path =
     bind_result (pattern_parse path) (\<lambda>pat.
       if pat_segments pat = []
       then Inl (RouteError ''nest prefixes must contain at least one static path segment'')
       else if \<not> list_all is_static (pat_segments pat)
       then Inl (RouteError ''nest prefixes cannot contain route parameters'')
       else Inr \<lparr>np_value = ''/'' @ join_with ''/'' (map static_text (pat_segments pat)),
                 np_segment_count = length (pat_segments pat)\<rparr>)"

definition nested_prefix_strip :: "nested_prefix \<Rightarrow> string \<Rightarrow> string option" where
  "nested_prefix_strip self path =
     (case strip_prefix (np_value self) path of
        None \<Rightarrow> None
      | Some remaining \<Rightarrow>
          if remaining = [] then Some ''/''
          else if starts_with ''/'' remaining then Some remaining
          else None)"

section \<open>Segments of a path\<close>

definition segment_text :: "string \<Rightarrow> bool" where
  "segment_text s \<longleftrightarrow> s \<noteq> [] \<and> CHR ''/'' \<notin> set s"

text \<open>The canonical path with the given segments.\<close>

definition path_of :: "string list \<Rightarrow> string" where
  "path_of segs = ''/'' @ join_with ''/'' segs"

lemma path_segments_text: "s \<in> set (path_segments path) \<Longrightarrow> segment_text s"
  by (auto simp: path_segments_def segment_text_def dest: split_on_no_sep)

lemma segment_text_ends:
  "segment_text x \<Longrightarrow> x \<noteq> [] \<and> hd x \<noteq> CHR ''/'' \<and> last x \<noteq> CHR ''/''"
  unfolding segment_text_def by (metis hd_in_set last_in_set)

lemma join_with_hd_last:
  "xs \<noteq> [] \<Longrightarrow> \<forall>x\<in>set xs. segment_text x \<Longrightarrow>
   join_with ''/'' xs \<noteq> [] \<and> hd (join_with ''/'' xs) \<noteq> CHR ''/'' \<and>
   last (join_with ''/'' xs) \<noteq> CHR ''/''"
proof (induction xs rule: induct_list012)
  case (2 x)
  then show ?case by (simp add: segment_text_ends)
next
  case (3 x y zs)
  then have "x \<noteq> []" "hd x \<noteq> CHR ''/''" by (auto simp: segment_text_ends)
  with 3 show ?case by auto
qed simp

lemma path_segments_path_of:
  assumes "\<forall>x\<in>set segs. segment_text x"
  shows "path_segments (path_of segs) = segs"
proof (cases segs)
  case Nil
  then show ?thesis by (simp add: path_segments_def path_of_def)
next
  case (Cons x xs)
  then have "trim_matches (CHR ''/'') (path_of segs) = join_with ''/'' segs"
    using join_with_hd_last [of segs] assms by (simp add: path_of_def trim_matches_id)
  moreover have "split_on (CHR ''/'') (join_with ''/'' segs) = segs"
    using assms Cons by (intro split_on_join) (auto simp: segment_text_def)
  moreover have "filter (\<lambda>s. s \<noteq> []) segs = segs"
    using assms by (intro filter_True) (auto simp: segment_text_def)
  ultimately show ?thesis by (simp add: path_segments_def)
qed

lemma no_double_sep_Cons:
  "\<not> contains_str ''//'' (c # s) \<longleftrightarrow>
   \<not> contains_str ''//'' s \<and> (c = CHR ''/'' \<longrightarrow> s = [] \<or> hd s \<noteq> CHR ''/'')"
  by (cases s) auto

lemma no_double_sep_append:
  "CHR ''/'' \<notin> set x \<Longrightarrow> \<not> contains_str ''//'' s \<Longrightarrow> \<not> contains_str ''//'' (x @ s)"
  by (induction x) (auto simp: no_double_sep_Cons simp del: contains_str.simps)

lemma no_double_sep_path_of:
  "\<forall>x\<in>set segs. segment_text x \<Longrightarrow> \<not> contains_str ''//'' (path_of segs)"
proof -
  assume segs: "\<forall>x\<in>set segs. segment_text x"
  then have "\<not> contains_str ''//'' (join_with ''/'' segs)"
  proof (induction segs rule: induct_list012)
    case (2 x)
    then show ?case
      using no_double_sep_append [of x "[]"] by (simp add: segment_text_def)
  next
    case (3 x y zs)
    then have "hd (join_with ''/'' (y # zs)) \<noteq> CHR ''/''"
      using join_with_hd_last [of "y # zs"] by simp
    with 3 have "\<not> contains_str ''//'' (CHR ''/'' # join_with ''/'' (y # zs))"
      by (simp add: no_double_sep_Cons del: contains_str.simps)
    then show ?case using no_double_sep_append [of x] 3 by (simp add: segment_text_def)
  qed simp
  moreover have "join_with ''/'' segs = [] \<or> hd (join_with ''/'' segs) \<noteq> CHR ''/''"
    using join_with_hd_last [of segs] segs by (cases segs) auto
  ultimately show ?thesis
    by (simp add: path_of_def no_double_sep_Cons del: contains_str.simps)
qed

section \<open>Parsing\<close>

definition classify_segment :: "string \<Rightarrow> segment" where
  "classify_segment s = (case strip_prefix '':'' s of Some name \<Rightarrow> Parameter name | None \<Rightarrow> Static s)"

fun segment_names :: "segment list \<Rightarrow> string list" where
  "segment_names [] = []"
| "segment_names (Static s # segs) = segment_names segs"
| "segment_names (Parameter n # segs) = n # segment_names segs"

definition valid_param_name :: "string \<Rightarrow> bool" where
  "valid_param_name name \<longleftrightarrow>
     name \<noteq> [] \<and> list_all (\<lambda>c. is_ascii_alphanumeric c \<or> c = CHR ''_'') name"

definition pattern_wf :: "route_pattern \<Rightarrow> bool" where
  "pattern_wf pat \<longleftrightarrow>
     pat_static_segments pat = length (filter is_static (pat_segments pat)) \<and>
     (\<forall>s. Static s \<in> set (pat_segments pat) \<longrightarrow> segment_text s) \<and>
     distinct (segment_names (pat_segments pat)) \<and>
     (\<forall>n\<in>set (segment_names (pat_segments pat)). valid_param_name n)"

lemma segment_names_append [simp]:
  "segment_names (xs @ ys) = segment_names xs @ segment_names ys"
  by (induction xs rule: segment_names.induct) auto

lemma classify_segment_cases [simp]:
  "strip_prefix '':'' s = Some n \<Longrightarrow> classify_segment s = Parameter n"
  "strip_prefix '':'' s = None \<Longrightarrow> classify_segment s = Static s"
  by (simp_all add: classify_segment_def)

lemma parse_segments_Inr:
  "parse_segments segs n names acc = Inr pat \<longleftrightarrow>
     pat_segments pat = acc @ map classify_segment segs \<and>
     pat_static_segments pat = n + length (filter is_static (map classify_segment segs)) \<and>
     (let ps = segment_names (map classify_segment segs) in
        distinct ps \<and> set ps \<inter> names = {} \<and> (\<forall>p\<in>set ps. valid_param_name p))"
proof (induction segs n names acc rule: parse_segments.induct)
  case (1 n names acc)
  then show ?case by (cases pat) auto
next
  case (2 s rest n names acc)
  show ?case
  proof (cases "strip_prefix '':'' s")
    case None
    then show ?thesis using 2 by (simp add: Let_def)
  next
    case (Some name)
    show ?thesis
    proof (cases "valid_param_name name \<and> name \<notin> names")
      case True
      then show ?thesis using 2 Some
        by (auto simp: valid_param_name_def Let_def)
    next
      case False
      then show ?thesis using Some by (auto simp: valid_param_name_def Let_def)
    qed
  qed
qed

lemma pattern_parse_segments:
  assumes "pattern_parse path = Inr pat"
  shows "pat_segments pat = map classify_segment (path_segments path)"
  using assms by (auto simp: pattern_parse_def parse_segments_Inr split: if_splits)

lemma pattern_parse_wf:
  assumes "pattern_parse path = Inr pat"
  shows "pattern_wf pat"
proof -
  have st: "segment_text s" if "Static s \<in> set (map classify_segment (path_segments path))" for s
    using that path_segments_text by (auto simp: classify_segment_def split: option.splits)
  with assms show ?thesis
    by (auto simp: pattern_parse_def parse_segments_Inr pattern_wf_def Let_def split: if_splits)
qed

section \<open>Matching\<close>

fun segment_accepts :: "segment \<Rightarrow> string \<Rightarrow> bool" where
  "segment_accepts (Static expected) i = (expected = i)"
| "segment_accepts (Parameter name) i = True"

fun captured :: "segment list \<Rightarrow> string list \<Rightarrow> route_params" where
  "captured (Parameter n # segs) (i # is) = (n, i) # captured segs is"
| "captured (Static s # segs) (i # is) = captured segs is"
| "captured _ _ = []"

lemma match_segments_Some:
  "match_segments segs inc params = Some ps \<longleftrightarrow>
     list_all2 segment_accepts segs inc \<and> ps = params @ captured segs inc"
  by (induction segs inc params rule: match_segments.induct)
     (auto simp: list_all2_Cons1)

lemma pattern_matches_Some:
  "pattern_matches pat path = Some ps \<longleftrightarrow>
     \<not> contains_str ''//'' path \<and>
     list_all2 segment_accepts (pat_segments pat) (path_segments path) \<and>
     ps = captured (pat_segments pat) (path_segments path)"
  by (simp add: pattern_matches_def match_segments_Some)

text \<open>The path a pattern denotes for given parameter values.\<close>

fun fill_segment :: "route_params \<Rightarrow> segment \<Rightarrow> string" where
  "fill_segment params (Static s) = s"
| "fill_segment params (Parameter n) =
     (case route_params_get params n of Some v \<Rightarrow> v | None \<Rightarrow> [])"

lemma route_params_get_simps [simp]:
  "route_params_get [] n = None"
  "route_params_get ((k, v) # ps) n = (if k = n then Some v else route_params_get ps n)"
  by (simp_all add: route_params_get_def)

lemma captured_names:
  "list_all2 segment_accepts segs inc \<Longrightarrow> map fst (captured segs inc) = segment_names segs"
  by (induction segs inc rule: captured.induct) (auto simp: list_all2_Cons1)

lemma fill_segment_irrelevant:
  "n \<notin> set (segment_names segs) \<Longrightarrow>
   map (fill_segment ((n, v) # ps)) segs = map (fill_segment ps) segs"
  by (induction segs rule: segment_names.induct) auto

lemma fill_captured:
  "list_all2 segment_accepts segs inc \<Longrightarrow> distinct (segment_names segs) \<Longrightarrow>
   map (fill_segment (captured segs inc)) segs = inc"
proof (induction segs inc rule: captured.induct)
  case (1 n segs i "is")
  then show ?case
    using fill_segment_irrelevant [of n segs i "captured segs is"] by simp
qed (auto simp: list_all2_Cons1)

section \<open>Equivalence of patterns\<close>

definition instance_of :: "string \<Rightarrow> segment list \<Rightarrow> string list" where
  "instance_of fill segs = map (\<lambda>s. case s of Static e \<Rightarrow> e | Parameter n \<Rightarrow> fill) segs"

lemma instance_of_accepted: "list_all2 segment_accepts segs (instance_of fill segs)"
  by (induction segs) (auto simp: instance_of_def split: segment.splits)

lemma segment_equivalent_accepts:
  "segment_equivalent a b \<Longrightarrow> segment_accepts a i = segment_accepts b i"
  by (cases a; cases b) auto

lemma is_equivalent_to_list_all2:
  "is_equivalent_to p q \<longleftrightarrow> list_all2 segment_equivalent (pat_segments p) (pat_segments q)"
  by (auto simp: is_equivalent_to_def list_all2_iff list_all_iff)

lemma equivalent_accept_same:
  "list_all2 segment_equivalent s t \<Longrightarrow>
   list_all2 segment_accepts s inc = list_all2 segment_accepts t inc"
proof (induction s t arbitrary: inc rule: list_all2_induct)
  case (Cons a s b t)
  then show ?case
    by (cases inc) (auto simp: segment_equivalent_accepts)
qed simp

lemma instance_of_text:
  "pattern_wf p \<Longrightarrow> segment_text fill \<Longrightarrow> \<forall>x\<in>set (instance_of fill (pat_segments p)). segment_text x"
  by (auto simp: instance_of_def pattern_wf_def split: segment.splits)

lemma pattern_matches_path_of:
  "\<forall>x\<in>set segs. segment_text x \<Longrightarrow>
   pattern_matches p (path_of segs) \<noteq> None \<longleftrightarrow> list_all2 segment_accepts (pat_segments p) segs"
  using pattern_matches_Some [of p "path_of segs"] no_double_sep_path_of path_segments_path_of
  by auto

lemma same_paths_equivalent:
  assumes p: "pattern_wf p" and q: "pattern_wf q"
    and same: "\<And>path. pattern_matches p path \<noteq> None \<longleftrightarrow> pattern_matches q path \<noteq> None"
  shows "is_equivalent_to p q"
proof -
  let ?s = "pat_segments p" and ?t = "pat_segments q"
  have acc: "list_all2 segment_accepts ?s inc = list_all2 segment_accepts ?t inc"
    if "\<forall>x\<in>set inc. segment_text x" for inc
    using same [of "path_of inc"] unfolding pattern_matches_path_of [OF that] .
  have st: "list_all2 segment_accepts ?t (instance_of f ?s)"
    and ts: "list_all2 segment_accepts ?s (instance_of f ?t)" if "segment_text f" for f
    using acc [OF instance_of_text [OF p that]] acc [OF instance_of_text [OF q that]]
    by (simp_all add: instance_of_accepted)
  have a: "segment_text ''a''" by (simp add: segment_text_def)
  have len: "length ?s = length ?t"
    using st [OF a] by (auto simp: instance_of_def dest: list_all2_lengthD)
  have "segment_equivalent (?s ! i) (?t ! i)" if i: "i < length ?s" for i
  proof -
    have s_f: "segment_accepts (?t ! i) (instance_of f ?s ! i)"
      and t_f: "segment_accepts (?s ! i) (instance_of f ?t ! i)" if "segment_text f" for f
      using st [OF that] ts [OF that] i len by (auto simp: list_all2_conv_all_nth)
    have seg: "segment_text e" if "?s ! i = Static e \<or> ?t ! i = Static e" for e
      using that p q i len unfolding pattern_wf_def by (metis nth_mem)
    have other: "segment_text (CHR ''a'' # e)" if "segment_text e" for e
      using that by (simp add: segment_text_def)
    show ?thesis
    proof (cases "?s ! i"; cases "?t ! i")
      fix e e' assume "?s ! i = Static e" "?t ! i = Static e'"
      with s_f [OF a] i show ?thesis by (simp add: instance_of_def)
    next
      fix e n assume e: "?s ! i = Static e" "?t ! i = Parameter n"
      with t_f [OF other [OF seg]] i len show ?thesis by (simp add: instance_of_def)
    next
      fix e n assume e: "?s ! i = Parameter n" "?t ! i = Static e"
      with s_f [OF other [OF seg]] i len show ?thesis by (simp add: instance_of_def)
    qed simp
  qed
  with len show ?thesis
    by (simp add: is_equivalent_to_list_all2 list_all2_conv_all_nth)
qed

lemma equivalent_same_paths:
  "is_equivalent_to p q \<Longrightarrow> pattern_matches p path \<noteq> None \<longleftrightarrow> pattern_matches q path \<noteq> None"
  using pattern_matches_Some [of p path] pattern_matches_Some [of q path]
  by (auto simp: is_equivalent_to_list_all2 dest: equivalent_accept_same)

section \<open>Nested prefixes\<close>

definition nested_prefix_wf :: "nested_prefix \<Rightarrow> bool" where
  "nested_prefix_wf np \<longleftrightarrow>
     (\<exists>segs. segs \<noteq> [] \<and>
             (\<forall>x\<in>set segs. segment_text x \<and> classify_segment x = Static x \<and>
                          CHR ''?'' \<notin> set x \<and> CHR ''#'' \<notin> set x) \<and>
             np_value np = path_of segs \<and> np_segment_count np = length segs)"

lemma set_path_segments: "x \<in> set (path_segments path) \<Longrightarrow> set x \<subseteq> set path"
proof -
  assume "x \<in> set (path_segments path)"
  then have "x \<in> set (split_on (CHR ''/'') (trim_matches (CHR ''/'') path))"
    by (simp add: path_segments_def)
  then have "set x \<subseteq> set (trim_matches (CHR ''/'') path)" by (rule set_split_on)
  with set_trim_matches show ?thesis by blast
qed

lemma nested_prefix_parse_wf:
  assumes "nested_prefix_parse path = Inr np"
  shows "nested_prefix_wf np"
proof -
  from assms obtain pat where pat: "pattern_parse path = Inr pat" "pat_segments pat \<noteq> []"
    "list_all is_static (pat_segments pat)"
    and np: "np = \<lparr>np_value = path_of (map static_text (pat_segments pat)),
                   np_segment_count = length (pat_segments pat)\<rparr>"
    by (auto simp: nested_prefix_parse_def path_of_def split: if_splits)
  let ?segs = "path_segments path"
  have segs: "pat_segments pat = map classify_segment ?segs"
    by (rule pattern_parse_segments [OF pat(1)])
  have static: "classify_segment x = Static x" if "x \<in> set ?segs" for x
    using pat(3) that unfolding segs
    by (auto simp: list_all_iff classify_segment_def split: option.splits)
  then have "map static_text (pat_segments pat) = ?segs"
    unfolding segs by (simp add: map_idI)
  moreover have "CHR ''?'' \<notin> set x \<and> CHR ''#'' \<notin> set x" if "x \<in> set ?segs" for x
    using set_path_segments [OF that] pat(1) by (auto simp: pattern_parse_def split: if_splits)
  ultimately show ?thesis
    unfolding nested_prefix_wf_def using pat(2) np segs static path_segments_text
    by (intro exI [of _ ?segs]) auto
qed

lemma nested_prefix_strip_Some:
  "nested_prefix_strip np path = Some rest \<longleftrightarrow>
     path = np_value np \<and> rest = ''/'' \<or>
     (\<exists>r. rest = CHR ''/'' # r \<and> path = np_value np @ rest)"
  by (auto simp: nested_prefix_strip_def strip_prefix_Some starts_with_iff
      split: option.splits if_splits)

lemma path_segments_alt:
  "path_segments path = filter (\<lambda>s. s \<noteq> []) (split_on (CHR ''/'') path)"
proof -
  have front: "filter (\<lambda>s. s \<noteq> []) (split_on c (dropWhile ((=) c) s)) =
               filter (\<lambda>s. s \<noteq> []) (split_on c s)" for c s
    by (induction s) auto
  have rear: "filter (\<lambda>s. s \<noteq> []) (split_on c (rev (dropWhile ((=) c) (rev s)))) =
              filter (\<lambda>s. s \<noteq> []) (split_on c s)" for c s
    by (induction s rule: rev_induct) (auto split: if_splits)
  show ?thesis unfolding path_segments_def trim_matches_def by (simp only: front rear)
qed

lemma split_on_append_sep_any:
  "split_on c (s @ c # t) = split_on c s @ split_on c t"
  by (induction s) (auto split: list.splits)

lemma path_segments_append_slash:
  "path_segments (a @ CHR ''/'' # b) = path_segments a @ path_segments b"
  by (simp add: path_segments_alt split_on_append_sep_any)

lemma path_segments_slash [simp]: "path_segments (CHR ''/'' # b) = path_segments b"
  by (simp add: path_segments_alt)

lemma no_double_sep_join:
  "\<not> contains_str ''//'' a \<Longrightarrow> a = [] \<or> last a \<noteq> CHR ''/'' \<Longrightarrow> \<not> contains_str ''//'' b \<Longrightarrow>
   \<not> contains_str ''//'' (a @ b)"
proof (induction a)
  case (Cons c a)
  then show ?case
    by (cases a) (auto simp: no_double_sep_Cons simp del: contains_str.simps)
qed simp

lemma path_of_last:
  "segs \<noteq> [] \<Longrightarrow> \<forall>x\<in>set segs. segment_text x \<Longrightarrow> last (path_of segs) \<noteq> CHR ''/''"
  using join_with_hd_last [of segs] by (simp add: path_of_def)

end
