(* ===== verification/Extract.thy ===== *)
theory Extract
  imports Http
begin

text \<open>
  Request extraction, \<open>crates/rustee-core/src/extract\<close>, the wire-value predicates of
  \<open>media_type.rs\<close>, \<open>oauth.rs\<close> and \<open>header.rs\<close>, and the handler adapter of
  \<open>crates/rustee-router/src/handler.rs\<close> that runs the extractors left to right.

  The JSON and form decoders, the percent decoder and header construction are parameters.
\<close>

section \<open>Wire-value predicates\<close>

text \<open>\<open>subtype.get(n..)\<close> is \<open>None\<close> off a character boundary; a suffix equal to
  \<open>+json\<close> starts on one, so comparing the bytes is the same test.\<close>

definition is_standard_json_media_type :: "string \<Rightarrow> bool" where
  "is_standard_json_media_type value =
     (let media_type = trim (hd (split_on (CHR '';'') value)) in
      if eq_ignore_ascii_case media_type ''application/json'' then True
      else case split_once (CHR ''/'') media_type of
        None \<Rightarrow> False
      | Some (top_level, subtype) \<Rightarrow>
          eq_ignore_ascii_case top_level ''application''
          \<and> CHR ''/'' \<notin> set subtype
          \<and> length subtype > length ''+json''
          \<and> eq_ignore_ascii_case (drop (length subtype - length ''+json'') subtype) ''+json'')"

definition is_valid_oauth_authorization_value :: "string \<Rightarrow> bool" where
  "is_valid_oauth_authorization_value value \<longleftrightarrow>
     43 \<le> length value \<and> length value \<le> 128 \<and>
     list_all (\<lambda>b. is_ascii_alphanumeric b \<or> b \<in> set ''-._~'') value"

definition is_valid_oauth_authorization_code :: "string \<Rightarrow> nat \<Rightarrow> bool" where
  "is_valid_oauth_authorization_code value max_value_bytes \<longleftrightarrow>
     \<not> is_blank value \<and> length value \<le> max_value_bytes \<and>
     list_all (\<lambda>b. \<not> is_ascii_control b) value"

definition is_valid_oauth_provider_error :: "string \<Rightarrow> nat \<Rightarrow> bool" where
  "is_valid_oauth_provider_error value max_value_bytes \<longleftrightarrow>
     value \<noteq> [] \<and> length value \<le> max_value_bytes \<and>
     list_all (\<lambda>b. is_ascii_alphanumeric b \<or> b \<in> set ''-._'') value"

definition is_valid_oauth_scope_token :: "string \<Rightarrow> nat \<Rightarrow> bool" where
  "is_valid_oauth_scope_token value max_value_bytes \<longleftrightarrow>
     value \<noteq> [] \<and> length value \<le> max_value_bytes \<and>
     list_all (\<lambda>b. code_of b = 33 \<or> in_codes 35 91 b \<or> in_codes 93 126 b) value"

fun are_valid_oauth_scope_tokens :: "string list \<Rightarrow> nat \<Rightarrow> bool" where
  "are_valid_oauth_scope_tokens [] max_value_bytes = False"
| "are_valid_oauth_scope_tokens (first # values) max_value_bytes =
     (is_valid_oauth_scope_token first max_value_bytes \<and>
      list_all (\<lambda>value. is_valid_oauth_scope_token value max_value_bytes) values)"

text \<open>\<open>HeaderValue::from_str\<close> is a parameter: whether the text can be a field value.\<close>

definition is_valid_http_bearer_value :: "(string \<Rightarrow> bool) \<Rightarrow> string \<Rightarrow> nat \<Rightarrow> bool" where
  "is_valid_http_bearer_value header_value_ok value max_value_bytes \<longleftrightarrow>
     \<not> is_blank value \<and> length value \<le> max_value_bytes \<and> header_value_ok (''Bearer '' @ value)"

section \<open>Typed application state\<close>

text \<open>The store maps a type identity to a value tagged with its dynamic type; \<open>get\<close>
  downcasts, so it compares the tag with the type asked for.\<close>

type_synonym type_id = string
type_synonym 'v state_store = "type_id \<Rightarrow> (type_id \<times> 'v) option"

definition state_empty :: "'v state_store" where
  "state_empty = (\<lambda>_. None)"

definition state_insert :: "type_id \<Rightarrow> 'v \<Rightarrow> 'v state_store \<Rightarrow> 'v state_store" where
  "state_insert ty value store = store(ty \<mapsto> (ty, value))"

definition state_get :: "type_id \<Rightarrow> 'v state_store \<Rightarrow> 'v option" where
  "state_get ty store =
     (case store ty of None \<Rightarrow> None
      | Some (dyn_ty, value) \<Rightarrow> if dyn_ty = ty then Some value else None)"

section \<open>Extractors\<close>

type_synonym ('v, 'a) extractor =
  "request \<Rightarrow> route_params \<Rightarrow> 'v state_store \<Rightarrow> (http_error, 'a) result \<times> request"

definition collect_body :: "request \<Rightarrow> (http_error, bytes) result \<times> request" where
  "collect_body req =
     ((case req_body req of
         FullBody value \<Rightarrow> Inr value
       | StreamBody chunks None \<Rightarrow> Inr (concat chunks)
       | StreamBody chunks (Some LengthLimit) \<Rightarrow>
           Inl (error_new 413 ''payload_too_large'' ''request body exceeds the configured limit'')
       | StreamBody chunks (Some OtherBodyError) \<Rightarrow>
           Inl (error_bad_request ''request body could not be read'')),
      req\<lparr>req_body := StreamBody [] None\<rparr>)"

definition from_request_connection_info :: "('v, connection_info) extractor" where
  "from_request_connection_info req params state =
     ((case ext_connection (req_extensions req) of
         Some info \<Rightarrow> Inr info
       | None \<Rightarrow> Inl (error_new 500 ''connection_info_missing''
                      ''transport connection metadata is required'')), req)"

definition from_request_route_template :: "('v, route_template) extractor" where
  "from_request_route_template req params state =
     ((case ext_template (req_extensions req) of
         Some template \<Rightarrow> Inr template
       | None \<Rightarrow> Inl (error_new 500 ''route_template_missing''
                      ''a matched router route is required'')), req)"

definition from_request_forwarded_context :: "('v, forwarded_context) extractor" where
  "from_request_forwarded_context req params state =
     ((case ext_forwarded (req_extensions req) of
         Some context \<Rightarrow> Inr context
       | None \<Rightarrow> Inl (error_new 500 ''forwarded_context_missing''
                      ''trusted proxy context is required'')), req)"

definition from_request_header_map :: "('v, header_map) extractor" where
  "from_request_header_map req params state = (Inr (req_headers req), req)"

definition from_request_bytes :: "('v, bytes) extractor" where
  "from_request_bytes req params state = collect_body req"

definition from_request_method :: "('v, string) extractor" where
  "from_request_method req params state = (Inr (req_method req), req)"

definition from_request_uri :: "('v, uri) extractor" where
  "from_request_uri req params state = (Inr (req_uri req), req)"

definition from_request_state :: "type_id \<Rightarrow> ('v, 'v) extractor" where
  "from_request_state ty req params state =
     ((case state_get ty state of Some value \<Rightarrow> Inr value | None \<Rightarrow> Inl error_internal), req)"

definition from_request_header ::
  "(string \<Rightarrow> bool) \<Rightarrow> string \<Rightarrow> (bytes \<Rightarrow> (http_error, 'a) result) \<Rightarrow> ('v, 'a) extractor" where
  "from_request_header header_name_ok name from_header req params state =
     ((if \<not> header_name_ok name then Inl error_internal
       else case req_headers req (to_ascii_lowercase name) of
         [] \<Rightarrow> Inl (error_bad_request (''missing '' @ name @ '' header''))
       | value # others \<Rightarrow>
           if others \<noteq> [] then Inl (error_bad_request (''duplicate '' @ name @ '' header''))
           else from_header value), req)"

definition from_request_json :: "deps \<Rightarrow> (bytes \<Rightarrow> 'a option) \<Rightarrow> ('v, 'a) extractor" where
  "from_request_json d from_slice req params state =
     (case req_headers req ''content-type'' of
        [] \<Rightarrow> (Inl (error_unsupported_media_type ''expected an application/json content type''), req)
      | content_type # others \<Rightarrow>
          if others \<noteq> [] then (Inl (error_bad_request ''duplicate Content-Type header''), req)
          else
            let content_type = (case header_to_str d content_type of None \<Rightarrow> [] | Some s \<Rightarrow> s) in
            if \<not> is_standard_json_media_type content_type
            then (Inl (error_unsupported_media_type
                         ''expected an application/json content type''), req)
            else case collect_body req of
              (Inl e, req') \<Rightarrow> (Inl e, req')
            | (Inr bytes, req') \<Rightarrow>
                ((case from_slice bytes of
                    Some value \<Rightarrow> Inr value
                  | None \<Rightarrow> Inl (error_bad_request ''invalid JSON body'')), req'))"

definition from_request_query :: "(string \<Rightarrow> 'a option) \<Rightarrow> ('v, 'a) extractor" where
  "from_request_query from_urlencoded req params state =
     ((case from_urlencoded (case uri_query (req_uri req) of None \<Rightarrow> [] | Some q \<Rightarrow> q) of
         Some value \<Rightarrow> Inr value
       | None \<Rightarrow> Inl (error_bad_request ''invalid query string'')), req)"

fun has_valid_percent_encoding :: "string \<Rightarrow> bool" where
  "has_valid_percent_encoding [] = True"
| "has_valid_percent_encoding (c # rest) =
     (if c = CHR ''%''
      then (case rest of
              high # low # rest' \<Rightarrow>
                is_ascii_hexdigit high \<and> is_ascii_hexdigit low \<and> has_valid_percent_encoding rest'
            | _ \<Rightarrow> False)
      else has_valid_percent_encoding rest)"

definition decode_path_parameter ::
  "(string \<Rightarrow> string option) \<Rightarrow> string \<Rightarrow> (http_error, string) result" where
  "decode_path_parameter percent_decode_utf8 value =
     (if \<not> has_valid_percent_encoding value
      then Inl (error_bad_request ''invalid path parameters'')
      else case percent_decode_utf8 value of
        Some decoded \<Rightarrow> Inr decoded
      | None \<Rightarrow> Inl (error_bad_request ''invalid path parameters''))"

text \<open>\<open>form_encode\<close> is the form serializer after all the pairs were appended.\<close>

definition from_request_path ::
  "(string \<Rightarrow> string option) \<Rightarrow> ((string \<times> string) list \<Rightarrow> string) \<Rightarrow> (string \<Rightarrow> 'a option) \<Rightarrow>
   ('v, 'a) extractor" where
  "from_request_path percent_decode_utf8 form_encode from_urlencoded req params state =
     ((case collect_results
             (map (\<lambda>(key, value).
                     bind_result (decode_path_parameter percent_decode_utf8 value)
                       (\<lambda>decoded. Inr (key, decoded))) params) of
         Inl e \<Rightarrow> Inl e
       | Inr pairs \<Rightarrow>
           (case from_urlencoded (form_encode pairs) of
              Some value \<Rightarrow> Inr value
            | None \<Rightarrow> Inl (error_bad_request ''invalid path parameters''))), req)"

section \<open>Handlers\<close>

text \<open>
  \<open>impl_handler!\<close> generates one implementation per number of extractors; the list stands for
  the extractor tuple and the handler receives the extracted values in the same order.
\<close>

fun run_extractors ::
  "('v, 'a) extractor list \<Rightarrow> request \<Rightarrow> route_params \<Rightarrow> 'v state_store \<Rightarrow>
   (http_error, 'a list) result" where
  "run_extractors [] req params state = Inr []"
| "run_extractors (e # es) req params state =
     (case e req params state of
        (Inl err, _) \<Rightarrow> Inl err
      | (Inr value, req') \<Rightarrow>
          (case run_extractors es req' params state of
             Inl err \<Rightarrow> Inl err
           | Inr values \<Rightarrow> Inr (value # values)))"

type_synonym 'v endpoint = "request \<Rightarrow> route_params \<Rightarrow> 'v state_store \<Rightarrow> response"

definition handler_call ::
  "deps \<Rightarrow> ('v, 'a) extractor list \<Rightarrow> ('a list \<Rightarrow> response) \<Rightarrow> 'v endpoint" where
  "handler_call d extractors handler req params state =
     (case run_extractors extractors req params state of
        Inl err \<Rightarrow> error_into_response d err
      | Inr values \<Rightarrow> handler values)"

end
