(* ===== verification/Selection.thy ===== *)
theory Selection
  imports Prelude
begin

text \<open>
  The comparison vocabulary of \<open>std::cmp\<close> and the contract behind the two candidate loops of
  the router: a single pass that keeps the current candidate and replaces it by a strictly
  better element returns a best element, and the first such element when several are equally
  good.  The client lemmas are proved once from the laws of a strict weak order.
\<close>

datatype ordering = Less | Equal | Greater

definition cmp_nat :: "nat \<Rightarrow> nat \<Rightarrow> ordering" where
  "cmp_nat a b = (if a < b then Less else if a = b then Equal else Greater)"

fun then_with :: "ordering \<Rightarrow> ordering \<Rightarrow> ordering" where
  "then_with Equal other = other"
| "then_with o1 other = o1"

lemma cmp_nat_eq [simp]:
  "cmp_nat a b = Greater \<longleftrightarrow> b < a" "cmp_nat a b = Less \<longleftrightarrow> a < b" "cmp_nat a b = Equal \<longleftrightarrow> a = b"
  by (auto simp: cmp_nat_def)

lemma then_with_Greater:
  "then_with a b = Greater \<longleftrightarrow> a = Greater \<or> a = Equal \<and> b = Greater"
  by (cases a) auto

text \<open>The reference loop.\<close>

fun select_best :: "('a \<Rightarrow> 'a \<Rightarrow> bool) \<Rightarrow> 'a option \<Rightarrow> 'a list \<Rightarrow> 'a option" where
  "select_best better candidate [] = candidate"
| "select_best better candidate (x # xs) =
     select_best better
       (case candidate of None \<Rightarrow> Some x
        | Some current \<Rightarrow> if better x current then Some x else candidate) xs"

locale priority =
  fixes better :: "'a \<Rightarrow> 'a \<Rightarrow> bool"
  assumes asym: "better x y \<Longrightarrow> \<not> better y x"
    and neg_trans: "better x z \<Longrightarrow> better x y \<or> better y z"
begin

lemma irrefl: "\<not> better x x"
  using asym by blast

lemma better_trans: "better x y \<Longrightarrow> better y z \<Longrightarrow> better x z"
  using asym neg_trans by blast

lemma not_better_trans: "\<not> better x y \<Longrightarrow> \<not> better y z \<Longrightarrow> \<not> better x z"
  using neg_trans by blast

lemma select_best_None: "select_best better c xs = None \<longleftrightarrow> c = None \<and> xs = []"
  by (induction xs arbitrary: c) (auto split: option.splits)

lemma select_best_from:
  "select_best better (Some c) xs = Some m \<Longrightarrow>
   (m = c \<or> m \<in> set xs) \<and> \<not> better c m \<and> (\<forall>x\<in>set xs. \<not> better x m)"
proof (induction xs arbitrary: c)
  case Nil
  then show ?case by (simp add: irrefl)
next
  case (Cons x xs)
  show ?case
  proof (cases "better x c")
    case True
    with Cons have "(m = x \<or> m \<in> set xs) \<and> \<not> better x m \<and> (\<forall>x\<in>set xs. \<not> better x m)" by simp
    moreover have "\<not> better c m" using calculation True asym neg_trans by blast
    ultimately show ?thesis by auto
  next
    case False
    with Cons have "(m = c \<or> m \<in> set xs) \<and> \<not> better c m \<and> (\<forall>x\<in>set xs. \<not> better x m)" by simp
    moreover have "\<not> better x m" using calculation False neg_trans by blast
    ultimately show ?thesis by auto
  qed
qed

lemma select_best_best:
  assumes "select_best better None xs = Some m"
  shows "m \<in> set xs \<and> (\<forall>x\<in>set xs. \<not> better x m)"
proof (cases xs)
  case Nil
  with assms show ?thesis by simp
next
  case (Cons x ys)
  with assms have "select_best better (Some x) ys = Some m" by simp
  from select_best_from [OF this] Cons show ?thesis by auto
qed

text \<open>Where no two elements are equally good the choice does not depend on the list's order.\<close>

lemma select_best_unique:
  assumes "select_best better None xs = Some m"
    and "\<And>x y. x \<in> set xs \<Longrightarrow> y \<in> set xs \<Longrightarrow> \<not> better x y \<Longrightarrow> \<not> better y x \<Longrightarrow> x = y"
    and "y \<in> set xs" "\<forall>x\<in>set xs. \<not> better x y"
  shows "y = m"
  using select_best_best [OF assms(1)] assms(2-) by blast

end

end
