(* ===== verification/Router.thy ===== *)
theory Router
  imports Pattern Extract Selection
begin

text \<open>
  The application router, \<open>crates/rustee-router/src/app.rs\<close>, \<open>dispatch.rs\<close> and
  \<open>nesting.rs\<close>: the route table and its construction, route selection, and dispatch with
  method mismatch, nested services and fallback.

  A mounted Tower service is the function from requests to responses that it computes, together
  with whether its lock is poisoned; a child application is mounted as its own dispatch
  function.  Rebuilding a URI from text is a function of the \<open>http\<close> package and a parameter.
\<close>

section \<open>The route table\<close>

record 'v route =
  route_method :: string
  route_pat :: route_pattern
  route_tmpl :: route_template
  route_endpoint :: "'v endpoint"
  route_order :: nat

record nested_route =
  nr_prefix :: nested_prefix
  nr_service :: "request \<Rightarrow> response"
  nr_poisoned :: bool
  nr_order :: nat

record 'v app =
  app_routes :: "'v route list"
  app_nested_routes :: "nested_route list"
  app_state :: "'v state_store"
  app_fallback :: "'v endpoint option"

definition app_new :: "'v app" where
  "app_new = \<lparr>app_routes = [], app_nested_routes = [], app_state = state_empty,
              app_fallback = None\<rparr>"

definition app_with_state :: "'v app \<Rightarrow> type_id \<Rightarrow> 'v \<Rightarrow> 'v app" where
  "app_with_state app ty value = app\<lparr>app_state := state_insert ty value (app_state app)\<rparr>"

definition app_try_route ::
  "'v app \<Rightarrow> string \<Rightarrow> string \<Rightarrow> 'v endpoint \<Rightarrow> (route_error, 'v app) result" where
  "app_try_route app method path handler =
     bind_result (pattern_parse path) (\<lambda>pat.
       if list_ex (\<lambda>r. route_method r = method \<and> is_equivalent_to (route_pat r) pat)
            (app_routes app)
       then Inl (RouteError ''a route for this method and path pattern is already registered'')
       else Inr (app\<lparr>app_routes := app_routes app @
              [\<lparr>route_method = method, route_pat = pat, route_tmpl = RouteTemplate path,
                route_endpoint = handler, route_order = length (app_routes app)\<rparr>]\<rparr>))"

text \<open>The infallible builders panic on an invalid declaration; \<open>None\<close> is the panic.\<close>

definition app_route ::
  "'v app \<Rightarrow> string \<Rightarrow> string \<Rightarrow> 'v endpoint \<Rightarrow> 'v app option" where
  "app_route app method path handler =
     (case app_try_route app method path handler of Inr app' \<Rightarrow> Some app' | Inl _ \<Rightarrow> None)"

definition app_get :: "'v app \<Rightarrow> string \<Rightarrow> 'v endpoint \<Rightarrow> 'v app option" where
  "app_get app path handler = app_route app ''GET'' path handler"

definition app_post :: "'v app \<Rightarrow> string \<Rightarrow> 'v endpoint \<Rightarrow> 'v app option" where
  "app_post app path handler = app_route app ''POST'' path handler"

definition app_put :: "'v app \<Rightarrow> string \<Rightarrow> 'v endpoint \<Rightarrow> 'v app option" where
  "app_put app path handler = app_route app ''PUT'' path handler"

definition app_patch :: "'v app \<Rightarrow> string \<Rightarrow> 'v endpoint \<Rightarrow> 'v app option" where
  "app_patch app path handler = app_route app ''PATCH'' path handler"

definition app_delete :: "'v app \<Rightarrow> string \<Rightarrow> 'v endpoint \<Rightarrow> 'v app option" where
  "app_delete app path handler = app_route app ''DELETE'' path handler"

definition nested_route_new :: "nested_prefix \<Rightarrow> (request \<Rightarrow> response) \<Rightarrow> nat \<Rightarrow> nested_route" where
  "nested_route_new prefix service order =
     \<lparr>nr_prefix = prefix, nr_service = service, nr_poisoned = False, nr_order = order\<rparr>"

definition app_try_nest ::
  "'v app \<Rightarrow> string \<Rightarrow> (request \<Rightarrow> response) \<Rightarrow> (route_error, 'v app) result" where
  "app_try_nest app prefix service =
     bind_result (nested_prefix_parse prefix) (\<lambda>np.
       Inr (app\<lparr>app_nested_routes := app_nested_routes app @
              [nested_route_new np service (length (app_nested_routes app))]\<rparr>))"

definition app_nest :: "'v app \<Rightarrow> string \<Rightarrow> (request \<Rightarrow> response) \<Rightarrow> 'v app option" where
  "app_nest app prefix service =
     (case app_try_nest app prefix service of Inr app' \<Rightarrow> Some app' | Inl _ \<Rightarrow> None)"

definition app_set_fallback :: "'v app \<Rightarrow> 'v endpoint \<Rightarrow> 'v app" where
  "app_set_fallback app handler = app\<lparr>app_fallback := Some handler\<rparr>"

section \<open>Route selection\<close>

datatype 'v direct_route_selection =
    DirectMatched "'v route" route_params
  | DirectMethodNotAllowed "string list"
  | DirectNoMatch

definition compare_routes :: "'v route \<Rightarrow> 'v route \<Rightarrow> ordering" where
  "compare_routes left right =
     then_with (cmp_nat (pat_static_segments (route_pat left)) (pat_static_segments (route_pat right)))
       (cmp_nat (route_order right) (route_order left))"

text \<open>The loop of \<open>select_direct_route\<close>; the \<open>BTreeSet\<close> of method names is the sorted list of
  its elements.\<close>

fun select_direct_loop ::
  "'v route list \<Rightarrow> string \<Rightarrow> string \<Rightarrow> string list \<Rightarrow> ('v route \<times> route_params) option \<Rightarrow>
   string list \<times> ('v route \<times> route_params) option" where
  "select_direct_loop [] path method allowed candidate = (allowed, candidate)"
| "select_direct_loop (r # routes) path method allowed candidate =
     (case pattern_matches (route_pat r) path of
        None \<Rightarrow> select_direct_loop routes path method allowed candidate
      | Some params \<Rightarrow>
          let allowed' = insort_insert (route_method r) allowed in
          if route_method r \<noteq> method
          then select_direct_loop routes path method allowed' candidate
          else
            let replace = (case candidate of None \<Rightarrow> True
                           | Some (current, _) \<Rightarrow> compare_routes r current = Greater) in
            select_direct_loop routes path method allowed'
              (if replace then Some (r, params) else candidate))"

definition select_direct_route ::
  "'v route list \<Rightarrow> string \<Rightarrow> string \<Rightarrow> 'v direct_route_selection" where
  "select_direct_route routes path method =
     (case select_direct_loop routes path method [] None of
        (allowed, Some (r, params)) \<Rightarrow> DirectMatched r params
      | (allowed, None) \<Rightarrow>
          if allowed \<noteq> [] then DirectMethodNotAllowed allowed else DirectNoMatch)"

definition nested_route_matches :: "nested_route \<Rightarrow> string \<Rightarrow> bool" where
  "nested_route_matches self path \<longleftrightarrow> nested_prefix_strip (nr_prefix self) path \<noteq> None"

definition is_more_specific_than :: "nested_route \<Rightarrow> nested_route \<Rightarrow> bool" where
  "is_more_specific_than self other \<longleftrightarrow>
     then_with (cmp_nat (np_segment_count (nr_prefix self)) (np_segment_count (nr_prefix other)))
       (cmp_nat (nr_order other) (nr_order self)) = Greater"

fun select_nested_loop :: "nested_route list \<Rightarrow> string \<Rightarrow> nested_route option \<Rightarrow> nested_route option" where
  "select_nested_loop [] path candidate = candidate"
| "select_nested_loop (r # routes) path candidate =
     (if \<not> nested_route_matches r path then select_nested_loop routes path candidate
      else if (case candidate of None \<Rightarrow> True | Some current \<Rightarrow> is_more_specific_than r current)
      then select_nested_loop routes path (Some r)
      else select_nested_loop routes path candidate)"

definition select_nested_route :: "nested_route list \<Rightarrow> string \<Rightarrow> nested_route option" where
  "select_nested_route routes path = select_nested_loop routes path None"

section \<open>Nested services\<close>

definition join_route_paths :: "string \<Rightarrow> string \<Rightarrow> string" where
  "join_route_paths prefix path =
     (if prefix = ''/'' then path else if path = ''/'' then prefix else prefix @ path)"

definition route_template_for_request :: "request \<Rightarrow> route_template \<Rightarrow> route_template" where
  "route_template_for_request req template =
     (case ext_nested_prefix (req_extensions req) of
        None \<Rightarrow> template
      | Some prefix \<Rightarrow> RouteTemplate (join_route_paths prefix (template_str template)))"

text \<open>\<open>rebuild_uri uri text\<close> is \<open>PathAndQuery::from_str\<close> followed by \<open>Uri::from_parts\<close> on the
  other parts of \<open>uri\<close>.\<close>

definition replace_request_path ::
  "(uri \<Rightarrow> string \<Rightarrow> uri option) \<Rightarrow> request \<Rightarrow> string \<Rightarrow> request option" where
  "replace_request_path rebuild_uri req path =
     (let path_and_query = (case uri_query (req_uri req) of
                              Some query \<Rightarrow> path @ ''?'' @ query
                            | None \<Rightarrow> path) in
      case rebuild_uri (req_uri req) path_and_query of
        None \<Rightarrow> None
      | Some u \<Rightarrow> Some (req\<lparr>req_uri := u\<rparr>))"

definition nested_route_call ::
  "deps \<Rightarrow> (uri \<Rightarrow> string \<Rightarrow> uri option) \<Rightarrow> nested_route \<Rightarrow> request \<Rightarrow> response" where
  "nested_route_call d rebuild_uri self req =
     (case nested_prefix_strip (nr_prefix self) (uri_path (req_uri req)) of
        None \<Rightarrow> error_into_response d (error_not_found ''the requested route was not found'')
      | Some path \<Rightarrow>
          let visible_prefix =
                (case ext_nested_prefix (req_extensions req) of
                   None \<Rightarrow> np_value (nr_prefix self)
                 | Some parent \<Rightarrow> join_route_paths parent (np_value (nr_prefix self)));
              req1 = req\<lparr>req_extensions :=
                       (req_extensions req)\<lparr>ext_nested_prefix := Some visible_prefix\<rparr>\<rparr> in
          case replace_request_path rebuild_uri req1 path of
            None \<Rightarrow> error_into_response d (error_not_found ''the requested route was not found'')
          | Some req2 \<Rightarrow>
              if nr_poisoned self
              then error_into_response d (error_new 500 ''nested_service_unavailable''
                     ''the nested service is unavailable'')
              else nr_service self req2)"

section \<open>Dispatch\<close>

text \<open>\<open>HeaderValue::from_str\<close> on the joined method list is the parameter \<open>header_value_ok\<close>.\<close>

definition dispatch ::
  "deps \<Rightarrow> (string \<Rightarrow> bool) \<Rightarrow> (uri \<Rightarrow> string \<Rightarrow> uri option) \<Rightarrow> 'v app \<Rightarrow> request \<Rightarrow> response" where
  "dispatch d header_value_ok rebuild_uri app req =
     (case select_direct_route (app_routes app) (uri_path (req_uri req)) (req_method req) of
        DirectMatched r params \<Rightarrow>
          let template = route_template_for_request req (route_tmpl r);
              req1 = req\<lparr>req_extensions := (req_extensions req)\<lparr>ext_template := Some template\<rparr>\<rparr>;
              resp = route_endpoint r req1 params (app_state app) in
          resp\<lparr>resp_template := Some template, resp_classification := Some (Matched template)\<rparr>
      | DirectMethodNotAllowed allowed \<Rightarrow>
          let allow = join_with '', '' allowed;
              resp = error_into_response d (error_new 405 ''method_not_allowed''
                       ''the route does not support this HTTP method'');
              resp1 = (if header_value_ok allow
                       then resp\<lparr>resp_headers := header_insert ''allow'' allow (resp_headers resp)\<rparr>
                       else resp) in
          resp1\<lparr>resp_classification := Some MethodNotAllowed\<rparr>
      | DirectNoMatch \<Rightarrow>
          (case select_nested_route (app_nested_routes app) (uri_path (req_uri req)) of
             Some nested \<Rightarrow> nested_route_call d rebuild_uri nested req
           | None \<Rightarrow>
               (case app_fallback app of
                  Some fallback \<Rightarrow>
                    (fallback req [] (app_state app))\<lparr>resp_classification := Some Fallback\<rparr>
                | None \<Rightarrow>
                    (error_into_response d (error_not_found ''the requested route was not found''))
                      \<lparr>resp_classification := Some NotFound\<rparr>)))"

section \<open>The selection loops meet their contract\<close>

abbreviation better_candidate :: "'v route \<times> route_params \<Rightarrow> 'v route \<times> route_params \<Rightarrow> bool" where
  "better_candidate a b \<equiv> compare_routes (fst a) (fst b) = Greater"

lemma compare_routes_Greater:
  "compare_routes a b = Greater \<longleftrightarrow>
     pat_static_segments (route_pat b) < pat_static_segments (route_pat a) \<or>
     pat_static_segments (route_pat a) = pat_static_segments (route_pat b) \<and>
     route_order a < route_order b"
  by (auto simp: compare_routes_def then_with_Greater)

lemma is_more_specific_than_iff:
  "is_more_specific_than a b \<longleftrightarrow>
     np_segment_count (nr_prefix b) < np_segment_count (nr_prefix a) \<or>
     np_segment_count (nr_prefix a) = np_segment_count (nr_prefix b) \<and> nr_order a < nr_order b"
  by (auto simp: is_more_specific_than_def then_with_Greater)

interpretation direct: priority "better_candidate :: 'v route \<times> route_params \<Rightarrow> _"
  by unfold_locales (auto simp: compare_routes_Greater)

interpretation nested: priority is_more_specific_than
  by unfold_locales (auto simp: is_more_specific_than_iff)

text \<open>The routes a request can be dispatched to, with the captured parameters.\<close>

fun eligible_routes :: "'v route list \<Rightarrow> string \<Rightarrow> string \<Rightarrow> ('v route \<times> route_params) list" where
  "eligible_routes [] path method = []"
| "eligible_routes (r # routes) path method =
     (case pattern_matches (route_pat r) path of
        Some params \<Rightarrow>
          if route_method r = method then (r, params) # eligible_routes routes path method
          else eligible_routes routes path method
      | None \<Rightarrow> eligible_routes routes path method)"

definition allowed_methods :: "'v route list \<Rightarrow> string \<Rightarrow> string set" where
  "allowed_methods routes path =
     {route_method r | r. r \<in> set routes \<and> pattern_matches (route_pat r) path \<noteq> None}"

lemma eligible_routes_iff:
  "(r, ps) \<in> set (eligible_routes routes path method) \<longleftrightarrow>
     r \<in> set routes \<and> route_method r = method \<and> pattern_matches (route_pat r) path = Some ps"
  by (induction routes) (auto split: option.splits)

lemma allowed_methods_Cons:
  "allowed_methods (r # routes) path =
     (if pattern_matches (route_pat r) path = None then {} else {route_method r}) \<union>
     allowed_methods routes path"
  by (auto simp: allowed_methods_def)

lemma allowed_methods_Nil [simp]: "allowed_methods [] path = {}"
  by (simp add: allowed_methods_def)

lemma select_direct_loop_candidate:
  "snd (select_direct_loop routes path method allowed candidate) =
     select_best better_candidate candidate (eligible_routes routes path method)"
  by (induction routes arbitrary: allowed candidate)
     (auto simp: Let_def split: option.splits prod.splits)

lemma select_direct_loop_allowed:
  "set (fst (select_direct_loop routes path method allowed candidate)) =
     set allowed \<union> allowed_methods routes path"
  by (induction routes arbitrary: allowed candidate)
     (auto simp: Let_def allowed_methods_Cons set_insort_insert split: option.splits)

lemma select_direct_loop_sorted:
  "sorted allowed \<Longrightarrow> distinct allowed \<Longrightarrow>
   sorted (fst (select_direct_loop routes path method allowed candidate)) \<and>
   distinct (fst (select_direct_loop routes path method allowed candidate))"
  by (induction routes arbitrary: allowed candidate)
     (auto simp: Let_def sorted_insort_insert distinct_insort_insert split: option.splits)

lemma select_direct_route_Matched:
  "select_direct_route routes path method = DirectMatched r ps \<longleftrightarrow>
     select_best better_candidate None (eligible_routes routes path method) = Some (r, ps)"
  unfolding select_direct_loop_candidate [of routes path "method" "[]", symmetric]
  by (auto simp: select_direct_route_def split: prod.splits option.splits if_splits)

lemma select_direct_route_MethodNotAllowed:
  "select_direct_route routes path method = DirectMethodNotAllowed ms \<longleftrightarrow>
     eligible_routes routes path method = [] \<and> ms \<noteq> [] \<and>
     ms = fst (select_direct_loop routes path method [] None)"
  using direct.select_best_None [of None "eligible_routes routes path method"]
  unfolding select_direct_loop_candidate [of routes path "method" "[]", symmetric]
  by (auto simp: select_direct_route_def split: prod.splits option.splits if_splits)





section \<open>The table invariant\<close>

definition route_wf :: "'v route \<Rightarrow> bool" where
  "route_wf r \<longleftrightarrow> pattern_parse (template_str (route_tmpl r)) = Inr (route_pat r)"

definition routes_wf :: "'v route list \<Rightarrow> bool" where
  "routes_wf routes \<longleftrightarrow>
     map route_order routes = [0..<length routes] \<and>
     (\<forall>r\<in>set routes. route_wf r) \<and>
     sorted_wrt (\<lambda>a b. \<not> (route_method a = route_method b \<and>
                          is_equivalent_to (route_pat a) (route_pat b))) routes"

definition nested_routes_wf :: "nested_route list \<Rightarrow> bool" where
  "nested_routes_wf nested \<longleftrightarrow>
     map nr_order nested = [0..<length nested] \<and> (\<forall>n\<in>set nested. nested_prefix_wf (nr_prefix n))"

definition app_wf :: "'v app \<Rightarrow> bool" where
  "app_wf app \<longleftrightarrow> routes_wf (app_routes app) \<and> nested_routes_wf (app_nested_routes app)"

text \<open>The applications that the builder methods can construct.\<close>

inductive app_built :: "'v app \<Rightarrow> bool" where
  built_new: "app_built app_new"
| built_state: "app_built app \<Longrightarrow> app_built (app_with_state app ty value)"
| built_route: "app_built app \<Longrightarrow> app_try_route app method path handler = Inr app' \<Longrightarrow> app_built app'"
| built_nest: "app_built app \<Longrightarrow> app_try_nest app prefix service = Inr app' \<Longrightarrow> app_built app'"
| built_fallback: "app_built app \<Longrightarrow> app_built (app_set_fallback app handler)"

lemma app_try_route_Inr:
  "app_try_route app method path handler = Inr app' \<longleftrightarrow>
     (\<exists>pat. pattern_parse path = Inr pat \<and>
        (\<forall>r\<in>set (app_routes app).
           \<not> (route_method r = method \<and> is_equivalent_to (route_pat r) pat)) \<and>
        app' = app\<lparr>app_routes := app_routes app @
          [\<lparr>route_method = method, route_pat = pat, route_tmpl = RouteTemplate path,
            route_endpoint = handler, route_order = length (app_routes app)\<rparr>]\<rparr>)"
  by (auto simp: app_try_route_def list_ex_iff)

lemma app_try_route_wf:
  "app_wf app \<Longrightarrow> app_try_route app method path handler = Inr app' \<Longrightarrow> app_wf app'"
  by (auto simp: app_wf_def routes_wf_def app_try_route_Inr route_wf_def sorted_wrt_append)

lemma app_try_nest_wf:
  assumes "app_wf app" "app_try_nest app prefix service = Inr app'"
  shows "app_wf app'"
proof -
  from assms(2) obtain np where np: "nested_prefix_parse prefix = Inr np"
    and app': "app' = app\<lparr>app_nested_routes := app_nested_routes app @
      [nested_route_new np service (length (app_nested_routes app))]\<rparr>"
    by (auto simp: app_try_nest_def)
  show ?thesis
    using assms(1) nested_prefix_parse_wf [OF np] unfolding app'
    by (simp add: app_wf_def nested_routes_wf_def nested_route_new_def)
qed

lemma app_built_wf: "app_built app \<Longrightarrow> app_wf app"
proof (induction rule: app_built.induct)
  case built_new
  then show ?case by (simp add: app_wf_def routes_wf_def nested_routes_wf_def app_new_def)
next
  case (built_state app ty v)
  then show ?case by (simp add: app_wf_def app_with_state_def)
next
  case (built_fallback app handler)
  then show ?case by (simp add: app_wf_def app_set_fallback_def)
qed (blast intro: app_try_route_wf app_try_nest_wf)+

lemma routes_wf_order_unique:
  assumes "routes_wf routes" "a \<in> set routes" "b \<in> set routes" "route_order a = route_order b"
  shows "a = b"
proof -
  have "distinct (map route_order routes)" using assms(1) by (simp add: routes_wf_def)
  with assms(2-) show ?thesis by (simp add: distinct_map inj_on_def)
qed

lemma select_direct_route_iff:
  assumes "routes_wf routes"
  shows "select_direct_route routes path method = DirectMatched r ps \<longleftrightarrow>
    (r, ps) \<in> set (eligible_routes routes path method) \<and>
    (\<forall>(r', ps') \<in> set (eligible_routes routes path method).
        r' = r \<or> compare_routes r r' = Greater)"
    (is "?sel \<longleftrightarrow> ?in \<and> ?best")
proof -
  let ?el = "eligible_routes routes path method"
  have uniq: "x = y" if "x \<in> set ?el" "y \<in> set ?el"
      "\<not> better_candidate x y" "\<not> better_candidate y x" for x y
  proof -
    obtain r ps r' ps' where xy: "x = (r, ps)" "y = (r', ps')" by fastforce
    with that have "route_order r = route_order r'" "r \<in> set routes" "r' \<in> set routes"
      by (auto simp: compare_routes_Greater eligible_routes_iff)
    with assms have "r = r'" by (auto intro: routes_wf_order_unique)
    with xy that show ?thesis by (auto simp: eligible_routes_iff)
  qed
  show ?thesis
  proof
    assume ?sel
    then have best: "select_best better_candidate None ?el = Some (r, ps)"
      by (simp add: select_direct_route_Matched)
    note B = direct.select_best_best [OF best]
    have "r' = r \<or> compare_routes r r' = Greater" if "(r', ps') \<in> set ?el" for r' ps'
      using uniq [of "(r', ps')" "(r, ps)"] that B by fastforce
    with B show "?in \<and> ?best" by blast
  next
    assume a: "?in \<and> ?best"
    then obtain m where m: "select_best better_candidate None ?el = Some m"
      using direct.select_best_None [of None ?el] by fastforce
    have "\<not> better_candidate x (r, ps)" if "x \<in> set ?el" for x
      using a that direct.asym [of "(r, ps)" x] direct.irrefl [of "(r, ps)"] by (cases x) fastforce
    then have "(r, ps) = m"
      using direct.select_best_unique [OF m uniq] a by blast
    with m show ?sel by (simp add: select_direct_route_Matched)
  qed
qed

section \<open>Nested templates\<close>

lemma join_route_paths_slash [simp]: "np_value np \<noteq> ''/'' \<Longrightarrow> join_route_paths (np_value np) ''/'' = np_value np"
  by (simp add: join_route_paths_def)

lemma set_join_with: "set (join_with sep xs) \<subseteq> set sep \<union> \<Union> (set ` set xs)"
  by (induction sep xs rule: join_with.induct) auto

text \<open>A prefix and a child template join to a parseable template whose pattern is the prefix's
  static segments followed by the child's segments.\<close>

lemma joined_template_parse:
  assumes np: "nested_prefix_wf np" and child: "pattern_parse tmpl = Inr pat"
  shows "\<exists>segs full. np_value np = path_of segs \<and> (\<forall>x\<in>set segs. segment_text x) \<and>
    pattern_parse (join_route_paths (np_value np) tmpl) = Inr full \<and>
    pat_segments full = map Static segs @ pat_segments pat"
proof -
  from np obtain segs where ne: "segs \<noteq> []" and st: "\<forall>x\<in>set segs. segment_text x"
    and cl: "\<forall>x\<in>set segs. classify_segment x = Static x"
    and qf: "\<forall>x\<in>set segs. CHR ''?'' \<notin> set x \<and> CHR ''#'' \<notin> set x"
    and v: "np_value np = path_of segs"
    unfolding nested_prefix_wf_def by blast
  let ?full = "join_route_paths (np_value np) tmpl"
  from child have t: "starts_with ''/'' tmpl" "CHR ''?'' \<notin> set tmpl" "CHR ''#'' \<notin> set tmpl"
    "\<not> contains_str ''//'' tmpl" by (auto simp: pattern_parse_def split: if_splits)
  have jne: "join_with ''/'' segs \<noteq> []" using join_with_hd_last [OF ne st] by simp
  then have vne: "np_value np \<noteq> ''/''" by (simp add: v path_of_def)
  have q: "CHR ''?'' \<notin> set (np_value np)" "CHR ''#'' \<notin> set (np_value np)"
    using set_join_with [of "''/''" segs] qf by (auto simp: v path_of_def)
  have dd: "\<not> contains_str ''//'' (np_value np)"
    unfolding v by (rule no_double_sep_path_of [OF st])
  have segs_v: "path_segments (np_value np) = segs"
    unfolding v by (rule path_segments_path_of [OF st])
  have F: "path_segments ?full = segs @ path_segments tmpl \<and> starts_with ''/'' ?full \<and>
      CHR ''?'' \<notin> set ?full \<and> CHR ''#'' \<notin> set ?full \<and> \<not> contains_str ''//'' ?full"
  proof (cases "tmpl = ''/''")
    case True
    then show ?thesis using vne q dd segs_v by (simp add: join_route_paths_def v path_of_def path_segments_alt)
  next
    case False
    then have full: "?full = np_value np @ tmpl" using vne by (simp add: join_route_paths_def)
    obtain r where r: "tmpl = CHR ''/'' # r" using t(1) by (auto simp: starts_with_iff)
    have "path_segments ?full = segs @ path_segments tmpl"
      using full r by (simp add: path_segments_append_slash segs_v)
    moreover have "\<not> contains_str ''//'' ?full"
      unfolding full using no_double_sep_join [OF dd _ t(4)] path_of_last [OF ne st] by (simp add: v)
    ultimately show ?thesis using q t full by (simp add: v path_of_def)
  qed
  from child have ps: "parse_segments (path_segments tmpl) 0 {} [] = Inr pat"
    by (auto simp: pattern_parse_def split: if_splits)
  have map_static: "map classify_segment segs = map Static segs" using cl by simp
  have names: "segment_names (map Static segs) = []" by (induction segs) auto
  define full where "full = \<lparr>pat_segments = map Static segs @ pat_segments pat,
    pat_static_segments = length (filter is_static (map Static segs @ pat_segments pat))\<rparr>"
  have "parse_segments (path_segments ?full) 0 {} [] = Inr full"
    using ps F by (simp add: parse_segments_Inr map_static names full_def Let_def)
  then have "pattern_parse ?full = Inr full"
    using F by (simp add: pattern_parse_def)
  then show ?thesis using v st by (intro exI [of _ segs] exI [of _ full]) (simp add: full_def)
qed

lemma nested_full_template_matches:
  assumes np: "nested_prefix_wf np" and child: "pattern_parse tmpl = Inr pat"
    and strip: "nested_prefix_strip np path = Some rest"
    and m: "pattern_matches pat rest = Some ps"
  shows "\<exists>full. pattern_parse (join_route_paths (np_value np) tmpl) = Inr full \<and>
    pattern_matches full path = Some ps"
proof -
  obtain segs full where v: "np_value np = path_of segs" and st: "\<forall>x\<in>set segs. segment_text x"
    and P: "pattern_parse (join_route_paths (np_value np) tmpl) = Inr full"
    and S: "pat_segments full = map Static segs @ pat_segments pat"
    using joined_template_parse [OF np child] by blast
  have segs_v: "path_segments (np_value np) = segs"
    unfolding v by (rule path_segments_path_of [OF st])
  from np have ne: "segs \<noteq> []" unfolding nested_prefix_wf_def
    using path_segments_path_of segs_v by metis
  have dd: "\<not> contains_str ''//'' (np_value np)"
    unfolding v by (rule no_double_sep_path_of [OF st])
  from m have m': "\<not> contains_str ''//'' rest"
    "list_all2 segment_accepts (pat_segments pat) (path_segments rest)"
    "ps = captured (pat_segments pat) (path_segments rest)"
    by (auto simp: pattern_matches_Some)
  have path: "path_segments path = segs @ path_segments rest \<and> \<not> contains_str ''//'' path"
    using strip unfolding nested_prefix_strip_Some
  proof
    assume "path = np_value np \<and> rest = ''/''"
    then show ?thesis using dd segs_v by (simp add: path_segments_alt)
  next
    assume "\<exists>r. rest = CHR ''/'' # r \<and> path = np_value np @ rest"
    then obtain r where r: "rest = CHR ''/'' # r" "path = np_value np @ rest" by blast
    have "\<not> contains_str ''//'' path"
      unfolding r(2) using no_double_sep_join [OF dd _ m'(1)] path_of_last [OF ne st] by (simp add: v)
    then show ?thesis using r by (simp add: path_segments_append_slash segs_v)
  qed
  have acc: "list_all2 segment_accepts (map Static segs) segs"
    by (simp add: list_all2_conv_all_nth)
  have cap: "captured (map Static segs @ s) (segs @ i) = captured s i" for s i
    by (induction segs) auto
  have "pattern_matches full path = Some ps"
    unfolding pattern_matches_Some S using path m' acc
    by (simp add: list_all2_appendI cap)
  with P show ?thesis by blast
qed

section \<open>Properties\<close>

subsection \<open>A concrete application for the witnesses\<close>

definition sample_rebuild :: "uri \<Rightarrow> string \<Rightarrow> uri option" where
  "sample_rebuild u text =
     (case split_once (CHR ''?'') text of
        None \<Rightarrow> Some (u\<lparr>uri_path := text, uri_query := None\<rparr>)
      | Some (path, query) \<Rightarrow> Some (u\<lparr>uri_path := path, uri_query := Some query\<rparr>))"

definition echo_params :: "nat endpoint" where
  "echo_params req params state = string_into_response (concat (map snd params))"

definition sample_app :: "nat app" where
  "sample_app =
     projr (app_try_route (projr (app_try_route app_new ''GET'' ''/users/:id'' echo_params))
              ''GET'' ''/users/me'' echo_params)"

lemmas pattern_eval =
  pattern_parse_def path_segments_def trim_matches_def strip_prefix_def starts_with_def
  char_class_defs is_equivalent_to_def pattern_matches_def

lemmas sample_app_eval = sample_app_def app_try_route_def app_new_def pattern_eval

lemma sample_routes:
  "app_try_route app_new ''GET'' ''/users/:id'' echo_params =
     Inr (projr (app_try_route app_new ''GET'' ''/users/:id'' echo_params))"
  "app_try_route (projr (app_try_route app_new ''GET'' ''/users/:id'' echo_params))
     ''GET'' ''/users/me'' echo_params = Inr sample_app"
  by (simp_all add: sample_app_eval)

lemma sample_app_built: "app_built sample_app"
  by (rule built_route [OF built_route [OF built_new sample_routes(1)] sample_routes(2)])

subsection \<open>Theorems\<close>

text \<open>C1. In every application that the builder can construct, a request is dispatched to a
  route exactly when that route has the request's method and matches its path, and every other
  such route has fewer static segments, or equally many and was registered later: the choice
  is the most specific route, unique, and carries the parameters of its own match.\<close>

theorem select_direct_route_most_specific:
  assumes "app_built app"
  shows "select_direct_route (app_routes app) path method = DirectMatched r ps \<longleftrightarrow>
    r \<in> set (app_routes app) \<and> route_method r = method \<and>
    pattern_matches (route_pat r) path = Some ps \<and>
    (\<forall>r'\<in>set (app_routes app). route_method r' = method \<and> pattern_matches (route_pat r') path \<noteq> None
       \<longrightarrow> r' = r \<or>
           pat_static_segments (route_pat r') < pat_static_segments (route_pat r) \<or>
           pat_static_segments (route_pat r') = pat_static_segments (route_pat r) \<and>
           route_order r < route_order r')"
proof -
  have "routes_wf (app_routes app)"
    using app_built_wf [OF assms] by (simp add: app_wf_def)
  from select_direct_route_iff [OF this, of path "method" r ps] show ?thesis
    by (fastforce simp: eligible_routes_iff compare_routes_Greater)
qed

theorem select_direct_route_most_specific_witness:
  "app_built sample_app \<and>
   (\<exists>r. select_direct_route (app_routes sample_app) ''/users/me'' ''GET'' = DirectMatched r [] \<and>
        template_str (route_tmpl r) = ''/users/me'')"
proof -
  let ?r = "app_routes sample_app ! 1"
  have "select_direct_route (app_routes sample_app) ''/users/me'' ''GET'' = DirectMatched ?r []"
    by (subst select_direct_route_most_specific [OF sample_app_built])
       (simp add: sample_app_eval)
  moreover have "template_str (route_tmpl ?r) = ''/users/me''"
    by (simp add: sample_app_eval)
  ultimately show ?thesis using sample_app_built by blast
qed

text \<open>C25. The duplicate test of the route table is exact: two parsed patterns are reported
  equivalent precisely when they match the same set of request paths.\<close>

theorem is_equivalent_to_same_paths:
  assumes "pattern_parse a = Inr p" "pattern_parse b = Inr q"
  shows "is_equivalent_to p q \<longleftrightarrow>
    (\<forall>path. pattern_matches p path \<noteq> None \<longleftrightarrow> pattern_matches q path \<noteq> None)"
  using equivalent_same_paths same_paths_equivalent [OF assms [THEN pattern_parse_wf]] by blast

theorem is_equivalent_to_same_paths_witness:
  "\<exists>p q. pattern_parse ''/:id'' = Inr p \<and> pattern_parse ''/:user_id/'' = Inr q \<and>
     is_equivalent_to p q \<and>
     (\<forall>path. pattern_matches p path \<noteq> None \<longleftrightarrow> pattern_matches q path \<noteq> None)"
proof -
  let ?p = "\<lparr>pat_segments = [Parameter ''id''], pat_static_segments = 0\<rparr>"
  let ?q = "\<lparr>pat_segments = [Parameter ''user_id''], pat_static_segments = 0\<rparr>"
  have p: "pattern_parse ''/:id'' = Inr ?p" and q: "pattern_parse ''/:user_id/'' = Inr ?q"
    by (simp_all add: pattern_eval)
  have "is_equivalent_to ?p ?q" by (simp add: is_equivalent_to_def)
  with is_equivalent_to_same_paths [OF p q] p q show ?thesis by blast
qed

text \<open>C16. Every sequence of builder calls keeps the route table well formed: registration
  numbers are the positions, each pattern is the parse of its template, no two routes for the
  same method match the same set of paths, and every mount prefix is a canonical non-root
  static path.\<close>

theorem app_built_table_invariant:
  assumes "app_built app"
  shows "map route_order (app_routes app) = [0..<length (app_routes app)] \<and>
    (\<forall>r\<in>set (app_routes app). pattern_parse (template_str (route_tmpl r)) = Inr (route_pat r)) \<and>
    (\<forall>r\<in>set (app_routes app). \<forall>r'\<in>set (app_routes app).
       route_method r = route_method r' \<and>
       (\<forall>path. pattern_matches (route_pat r) path \<noteq> None \<longleftrightarrow> pattern_matches (route_pat r') path \<noteq> None)
       \<longrightarrow> r = r') \<and>
    (\<forall>n\<in>set (app_nested_routes app). nested_prefix_wf (nr_prefix n))"
proof -
  note wf = app_built_wf [OF assms, unfolded app_wf_def routes_wf_def nested_routes_wf_def route_wf_def]
  have "r = r'"
    if r: "r \<in> set (app_routes app)" "r' \<in> set (app_routes app)" "route_method r = route_method r'"
      and same: "\<forall>path. pattern_matches (route_pat r) path \<noteq> None \<longleftrightarrow>
                        pattern_matches (route_pat r') path \<noteq> None" for r r'
  proof (rule ccontr)
    assume ne: "r \<noteq> r'"
    from wf r have P: "pattern_wf (route_pat r)" "pattern_wf (route_pat r')"
      by (auto intro: pattern_parse_wf)
    from same_paths_equivalent [OF P] same_paths_equivalent [OF P(2,1)] same
    have E: "is_equivalent_to (route_pat r) (route_pat r')" "is_equivalent_to (route_pat r') (route_pat r)"
      by blast+
    obtain i j where ij: "i < length (app_routes app)" "app_routes app ! i = r"
      "j < length (app_routes app)" "app_routes app ! j = r'"
      using r by (metis in_set_conv_nth)
    from ij ne have "i < j \<or> j < i" using nat_neq_iff by blast
    with wf ij E r(3) show False by (auto simp: sorted_wrt_iff_nth_less)
  qed
  with wf show ?thesis by blast
qed

theorem app_built_table_invariant_witness:
  "app_built sample_app \<and> map route_order (app_routes sample_app) = [0, 1] \<and>
   list_all (\<lambda>r. pattern_parse (template_str (route_tmpl r)) = Inr (route_pat r)) (app_routes sample_app)"
  using app_built_table_invariant [OF sample_app_built] sample_app_built
  by (simp add: sample_app_eval)

text \<open>C26. A successful match captures exactly the pattern's parameters, in order, with
  distinct names and non-empty values free of separators, and filling the pattern with them
  gives back the segments of the request path.\<close>

theorem pattern_matches_roundtrip:
  assumes "pattern_parse template = Inr pat" "pattern_matches pat path = Some ps"
  shows "map fst ps = segment_names (pat_segments pat) \<and> distinct (map fst ps) \<and>
    (\<forall>(name, v)\<in>set ps. v \<noteq> [] \<and> CHR ''/'' \<notin> set v \<and> route_params_get ps name = Some v) \<and>
    map (fill_segment ps) (pat_segments pat) = path_segments path"
proof -
  from assms(2) have acc: "list_all2 segment_accepts (pat_segments pat) (path_segments path)"
    and ps: "ps = captured (pat_segments pat) (path_segments path)"
    by (simp_all add: pattern_matches_Some)
  have names: "map fst ps = segment_names (pat_segments pat)"
    unfolding ps by (rule captured_names [OF acc])
  have dist: "distinct (segment_names (pat_segments pat))"
    using pattern_parse_wf [OF assms(1)] by (simp add: pattern_wf_def)
  have "snd kv \<in> set is" if "kv \<in> set (captured segs is)" for kv segs "is"
    using that by (induction segs "is" rule: captured.induct) auto
  then have vals: "segment_text v" if "(name, v) \<in> set ps" for name v
    using that path_segments_text unfolding ps by fastforce
  have get: "route_params_get qs name = Some v" if "(name, v) \<in> set qs" "distinct (map fst qs)" for qs name v
    using that by (induction qs) force+
  show ?thesis
    using names dist vals get fill_captured [OF acc dist] ps by (auto simp: segment_text_def)
qed

theorem pattern_matches_roundtrip_witness:
  "\<exists>pat. pattern_parse ''/users/:id'' = Inr pat \<and>
     pattern_matches pat ''/users/42/'' = Some [(''id'', ''42'')] \<and>
     map (fill_segment [(''id'', ''42'')]) (pat_segments pat) = path_segments ''/users/42/''"
proof -
  let ?p = "\<lparr>pat_segments = [Static ''users'', Parameter ''id''], pat_static_segments = 1\<rparr>"
  have p: "pattern_parse ''/users/:id'' = Inr ?p"
    and m: "pattern_matches ?p ''/users/42/'' = Some [(''id'', ''42'')]"
    by (simp_all add: pattern_eval)
  from pattern_matches_roundtrip [OF p m] p m show ?thesis by blast
qed

text \<open>C28. When some route matches the path but none of them has the request's method, the
  answer is a 405 whose \<open>Allow\<close> field lists, sorted and without repetition, exactly the
  methods of the routes that match the path, and the response is classified as a method
  mismatch; neither a nested service nor the fallback is consulted.\<close>

theorem dispatch_method_not_allowed:
  assumes "r \<in> set (app_routes app)" "pattern_matches (route_pat r) (uri_path (req_uri req)) \<noteq> None"
    and "\<And>r'. r' \<in> set (app_routes app) \<Longrightarrow> route_method r' = req_method req \<Longrightarrow>
             pattern_matches (route_pat r') (uri_path (req_uri req)) = None"
  shows "\<exists>methods. set methods = allowed_methods (app_routes app) (uri_path (req_uri req)) \<and>
    sorted methods \<and> distinct methods \<and>
    resp_status (dispatch d header_value_ok rebuild app req) = 405 \<and>
    (header_value_ok (join_with '', '' methods) \<longrightarrow>
       resp_headers (dispatch d header_value_ok rebuild app req) ''allow'' = [join_with '', '' methods]) \<and>
    resp_classification (dispatch d header_value_ok rebuild app req) = Some MethodNotAllowed"
proof -
  let ?path = "uri_path (req_uri req)" and ?routes = "app_routes app"
  define methods where "methods = fst (select_direct_loop ?routes ?path (req_method req) [] None)"
  have set: "set methods = allowed_methods ?routes ?path"
    unfolding methods_def by (simp add: select_direct_loop_allowed)
  have so: "sorted methods" "distinct methods"
    unfolding methods_def using select_direct_loop_sorted [of "[]"] by auto
  have "eligible_routes ?routes ?path (req_method req) = []"
  proof (rule ccontr)
    assume "eligible_routes ?routes ?path (req_method req) \<noteq> []"
    then obtain r' ps where "(r', ps) \<in> set (eligible_routes ?routes ?path (req_method req))"
      by (metis list.set_sel(1) surj_pair)
    with assms(3) [of r'] show False by (simp add: eligible_routes_iff)
  qed
  moreover have "methods \<noteq> []"
    using set assms(1,2) by (auto simp: allowed_methods_def)
  ultimately have "select_direct_route ?routes ?path (req_method req) = DirectMethodNotAllowed methods"
    by (simp add: select_direct_route_MethodNotAllowed methods_def)
  then show ?thesis using set so
    by (intro exI [of _ methods]) (simp add: dispatch_def Let_def)
qed

theorem dispatch_method_not_allowed_witness:
  "\<exists>methods. set methods = {''GET''} \<and> sorted methods \<and> distinct methods \<and>
     resp_status (dispatch sample_deps (\<lambda>_. True) sample_rebuild sample_app
       (sample_request ''POST'' ''/users/7'')) = 405"
proof -
  let ?req = "sample_request ''POST'' ''/users/7''"
  let ?r = "app_routes sample_app ! 0"
  have h: "?r \<in> set (app_routes sample_app)"
    "pattern_matches (route_pat ?r) (uri_path (req_uri ?req)) \<noteq> None"
    by (simp_all add: sample_app_eval sample_request_def)
  have n: "pattern_matches (route_pat r') (uri_path (req_uri ?req)) = None"
    if "r' \<in> set (app_routes sample_app)" "route_method r' = req_method ?req" for r'
    using that by (auto simp: sample_app_eval sample_request_def)
  have "allowed_methods (app_routes sample_app) (uri_path (req_uri ?req)) = {''GET''}"
    by (simp add: allowed_methods_Cons sample_app_eval sample_request_def)
  with dispatch_method_not_allowed [OF h n, where d = sample_deps and rebuild = sample_rebuild
      and header_value_ok = "\<lambda>_. True"]
  show ?thesis by auto
qed


definition child_app :: "nat app" where
  "child_app = projr (app_try_route app_new ''GET'' ''/:id'' echo_params)"

definition parent_app :: "nat app" where
  "parent_app = projr (app_try_nest app_new ''/api'' (dispatch sample_deps (\<lambda>_. True) sample_rebuild child_app))"

lemmas nested_eval =
  child_app_def parent_app_def app_try_nest_def nested_prefix_parse_def nested_prefix_strip_def
  nested_route_new_def app_try_route_def app_new_def pattern_eval sample_request_def


text \<open>C29. A route of a child application keeps its externally visible template: the response is
  classified by the mount prefix joined with the child's template, and that text is itself a
  valid route template which matches the original request path and captures the same
  parameters as the child's own pattern does on the remaining path.\<close>

theorem nested_route_full_template:
  assumes "nested_prefix_wf (nr_prefix nr)"
    and "nr_service nr = dispatch d header_value_ok rebuild child" "\<not> nr_poisoned nr"
    and "app_built child"
    and "nested_prefix_strip (nr_prefix nr) (uri_path (req_uri req)) = Some rest"
    and "ext_nested_prefix (req_extensions req) = None"
    and "rebuild (req_uri req)
           (case uri_query (req_uri req) of None \<Rightarrow> rest | Some q \<Rightarrow> rest @ ''?'' @ q) = Some u"
    and "uri_path u = rest"
    and "select_direct_route (app_routes child) rest (req_method req) = DirectMatched r ps"
  shows "\<exists>full. resp_classification (nested_route_call d rebuild nr req) =
      Some (Matched (RouteTemplate (join_route_paths (np_value (nr_prefix nr)) (template_str (route_tmpl r))))) \<and>
    pattern_parse (join_route_paths (np_value (nr_prefix nr)) (template_str (route_tmpl r))) = Inr full \<and>
    pattern_matches full (uri_path (req_uri req)) = Some ps"
proof -
  have "routes_wf (app_routes child)"
    using app_built_wf [OF assms(4)] by (simp add: app_wf_def)
  moreover have "(r, ps) \<in> set (eligible_routes (app_routes child) rest (req_method req))"
    using assms(9) select_direct_route_iff [OF calculation] by blast
  ultimately have r: "pattern_parse (template_str (route_tmpl r)) = Inr (route_pat r)"
    "pattern_matches (route_pat r) rest = Some ps"
    by (auto simp: eligible_routes_iff routes_wf_def route_wf_def)
  have "(case uri_query (req_uri req) of Some q \<Rightarrow> rest @ ''?'' @ q | None \<Rightarrow> rest) =
      (case uri_query (req_uri req) of None \<Rightarrow> rest | Some q \<Rightarrow> rest @ ''?'' @ q)"
    by (simp split: option.splits)
  then have "resp_classification (nested_route_call d rebuild nr req) =
      Some (Matched (RouteTemplate (join_route_paths (np_value (nr_prefix nr)) (template_str (route_tmpl r)))))"
    using assms(2,3,5-9)
    by (simp add: nested_route_call_def replace_request_path_def dispatch_def Let_def
        route_template_for_request_def)
  with nested_full_template_matches [OF assms(1) r(1) assms(5) r(2)] show ?thesis by blast
qed

theorem nested_route_full_template_witness:
  "\<exists>full. resp_classification (nested_route_call sample_deps sample_rebuild
        (app_nested_routes parent_app ! 0) (sample_request ''GET'' ''/api/7'')) =
      Some (Matched (RouteTemplate ''/api/:id'')) \<and>
    pattern_parse ''/api/:id'' = Inr full \<and> pattern_matches full ''/api/7'' = Some [(''id'', ''7'')]"
proof -
  let ?nr = "app_nested_routes parent_app ! 0"
  let ?req = "sample_request ''GET'' ''/api/7''"
  let ?r = "app_routes child_app ! 0"
  have np: "nested_prefix_parse ''/api'' = Inr (nr_prefix ?nr)" by (simp add: nested_eval)
  have route: "app_try_route app_new ''GET'' ''/:id'' echo_params = Inr child_app"
    by (simp add: nested_eval)
  have s: "nr_service ?nr = dispatch sample_deps (\<lambda>_. True) sample_rebuild child_app"
      "\<not> nr_poisoned ?nr" "np_value (nr_prefix ?nr) = ''/api''"
    by (simp_all add: parent_app_def app_try_nest_def nested_prefix_parse_def nested_route_new_def
        app_new_def pattern_eval)
  have b: "app_built child_app" by (rule built_route [OF built_new route])
  have h: "nested_prefix_strip (nr_prefix ?nr) (uri_path (req_uri ?req)) = Some ''/7''"
      "ext_nested_prefix (req_extensions ?req) = None"
      "sample_rebuild (req_uri ?req) (case uri_query (req_uri ?req) of None \<Rightarrow> ''/7'' | Some q \<Rightarrow> ''/7'' @ ''?'' @ q)
         = Some \<lparr>uri_path = ''/7'', uri_query = None\<rparr>"
      "uri_path \<lparr>uri_path = ''/7'', uri_query = None\<rparr> = ''/7''"
      "select_direct_route (app_routes child_app) ''/7'' (req_method ?req) = DirectMatched ?r [(''id'', ''7'')]"
    by (simp_all add: nested_eval no_extensions_def sample_rebuild_def select_direct_route_def Let_def)
  have t: "template_str (route_tmpl ?r) = ''/:id''" by (simp add: nested_eval)
  show ?thesis
    using nested_route_full_template [OF nested_prefix_parse_wf [OF np] s(1,2) b h]
    unfolding t s by (simp add: join_route_paths_def sample_request_def)
qed

end
