(* ===== verification/StaticConfig.thy ===== *)
theory StaticConfig
  imports Http
begin

text \<open>
  Configuration and request paths of the static file service,
  \<open>crates/rustee-static/src/config.rs\<close>: the builder with its validation, the mount path grammar,
  the percent decoding of path segments, and the local path a request names.

  A \<open>PathBuf\<close> is its string; the operations of \<open>std::path\<close> on Unix paths are written out.
  The operating system is the record \<open>file_system\<close>, an argument of every operation that calls it.
\<close>

section \<open>Unix paths\<close>

type_synonym path_buf = string

definition is_absolute :: "path_buf \<Rightarrow> bool" where
  "is_absolute p \<longleftrightarrow> starts_with ''/'' p"

text \<open>\<open>PathBuf::push\<close>: an absolute argument replaces the path.\<close>

definition path_push :: "path_buf \<Rightarrow> string \<Rightarrow> path_buf" where
  "path_push p s =
     (if is_absolute s then s
      else if p = [] \<or> last p = CHR ''/'' then p @ s
      else p @ ''/'' @ s)"

text \<open>\<open>Path::components\<close>: the root, then the names between separators; empty and \<open>.\<close> pieces
  are dropped, except a leading \<open>.\<close> of a relative path.\<close>

definition path_components :: "path_buf \<Rightarrow> string list" where
  "path_components p =
     (let pieces = split_on (CHR ''/'') p;
          names = filter (\<lambda>c. c \<noteq> [] \<and> c \<noteq> ''.'') pieces in
      if is_absolute p then ''/'' # names
      else if hd pieces = ''.'' then ''.'' # names
      else names)"

definition path_starts_with :: "path_buf \<Rightarrow> path_buf \<Rightarrow> bool" where
  "path_starts_with p base \<longleftrightarrow>
     take (length (path_components base)) (path_components p) = path_components base"

section \<open>The operating system\<close>

record file_meta =
  meta_is_file :: bool
  meta_is_dir :: bool
  meta_len :: nat
  meta_modified :: "system_time option"

text \<open>
  Each field is one call: canonicalization, metadata, reading a whole file, opening a file (its
  contents) and whether a seek to a position succeeds.  Nothing ties the fields to each other:
  the file may change between two calls.
\<close>

record file_system =
  fs_canonicalize :: "path_buf \<Rightarrow> path_buf option"
  fs_metadata :: "path_buf \<Rightarrow> file_meta option"
  fs_read :: "path_buf \<Rightarrow> bytes option"
  fs_open :: "path_buf \<Rightarrow> bytes option"
  fs_seek_ok :: "path_buf \<Rightarrow> nat \<Rightarrow> bool"

section \<open>Configuration\<close>

datatype static_files_error =
    RootCanonicalization
  | RootNotDirectory
  | InvalidMountPath
  | ZeroMaxFileBytes
  | ZeroStreamingThreshold

abbreviation DEFAULT_MAX_FILE_BYTES :: nat where
  "DEFAULT_MAX_FILE_BYTES \<equiv> 8 * 1024 * 1024"

record static_files =
  sf_root :: path_buf
  sf_mount_path :: string
  sf_max_file_bytes :: nat
  sf_streaming_threshold :: "nat option"
  sf_cache_control :: string
  sf_precompressed_variants :: bool

definition static_files_new :: "file_system \<Rightarrow> path_buf \<Rightarrow> (static_files_error, static_files) result" where
  "static_files_new fs root =
     (case fs_canonicalize fs root of
        None \<Rightarrow> Inl RootCanonicalization
      | Some canonical \<Rightarrow>
          if \<not> (case fs_metadata fs canonical of None \<Rightarrow> False | Some m \<Rightarrow> meta_is_dir m)
          then Inl RootNotDirectory
          else Inr \<lparr>sf_root = canonical, sf_mount_path = ''/static'',
                    sf_max_file_bytes = DEFAULT_MAX_FILE_BYTES, sf_streaming_threshold = None,
                    sf_cache_control = ''no-store'', sf_precompressed_variants = False\<rparr>)"

definition valid_mount_segment :: "string \<Rightarrow> bool" where
  "valid_mount_segment segment \<longleftrightarrow>
     segment \<noteq> [] \<and> segment \<noteq> ''.'' \<and> segment \<noteq> ''..'' \<and>
     CHR 0x5C \<notin> set segment \<and> CHR 0x00 \<notin> set segment"

definition valid_mount_path :: "string \<Rightarrow> bool" where
  "valid_mount_path path =
     (if \<not> starts_with ''/'' path
         \<or> list_ex (\<lambda>c. c = CHR ''?'' \<or> c = CHR ''#'' \<or> c = CHR ''%'') path
         \<or> contains_str ''//'' path
         \<or> (length path > 1 \<and> ends_with ''/'' path)
      then False
      else path = ''/'' \<or> list_all valid_mount_segment (drop 1 (split_on (CHR ''/'') path)))"

definition static_files_at :: "static_files \<Rightarrow> string \<Rightarrow> (static_files_error, static_files) result" where
  "static_files_at files mount_path =
     (if \<not> valid_mount_path mount_path then Inl InvalidMountPath
      else Inr (files\<lparr>sf_mount_path := mount_path\<rparr>))"

definition with_max_file_bytes ::
  "static_files \<Rightarrow> nat \<Rightarrow> (static_files_error, static_files) result" where
  "with_max_file_bytes files max_file_bytes =
     (if max_file_bytes = 0 then Inl ZeroMaxFileBytes
      else Inr (files\<lparr>sf_max_file_bytes := max_file_bytes\<rparr>))"

definition with_streaming_threshold ::
  "static_files \<Rightarrow> nat \<Rightarrow> (static_files_error, static_files) result" where
  "with_streaming_threshold files threshold =
     (if threshold = 0 then Inl ZeroStreamingThreshold
      else Inr (files\<lparr>sf_streaming_threshold := Some threshold\<rparr>))"

definition with_cache_control :: "static_files \<Rightarrow> string \<Rightarrow> static_files" where
  "with_cache_control files cache_control = files\<lparr>sf_cache_control := cache_control\<rparr>"

definition with_precompressed_variants :: "static_files \<Rightarrow> bool \<Rightarrow> static_files" where
  "with_precompressed_variants files enabled = files\<lparr>sf_precompressed_variants := enabled\<rparr>"

section \<open>Request paths\<close>

definition hex_value :: "char \<Rightarrow> (unit, nat) result" where
  "hex_value c =
     (if in_codes 48 57 c then Inr (code_of c - 48)
      else if in_codes 97 102 c then Inr (code_of c - 97 + 10)
      else if in_codes 65 70 c then Inr (code_of c - 65 + 10)
      else Inl ())"

fun percent_decode_bytes :: "bytes \<Rightarrow> (unit, bytes) result" where
  "percent_decode_bytes [] = Inr []"
| "percent_decode_bytes (b # rest) =
     (if b = CHR ''%'' then
        (case rest of
           high # low # rest' \<Rightarrow>
             bind_result (hex_value high) (\<lambda>h. bind_result (hex_value low) (\<lambda>l.
               bind_result (percent_decode_bytes rest') (\<lambda>decoded.
                 Inr (char_of (16 * h + l) # decoded))))
         | _ \<Rightarrow> Inl ())
      else bind_result (percent_decode_bytes rest) (\<lambda>decoded. Inr (b # decoded)))"

definition percent_decode_segment :: "string \<Rightarrow> (unit, string) result" where
  "percent_decode_segment segment =
     (if segment = [] then Inl ()
      else bind_result (percent_decode_bytes segment) (\<lambda>decoded.
        if \<not> utf8_valid decoded then Inl ()
        else if \<not> valid_mount_segment decoded \<or> CHR ''/'' \<in> set decoded then Inl ()
        else Inr decoded))"

fun push_segments :: "path_buf \<Rightarrow> string list \<Rightarrow> (unit, path_buf) result" where
  "push_segments local [] = Inr local"
| "push_segments local (segment # segments) =
     bind_result (percent_decode_segment segment)
       (\<lambda>decoded. push_segments (path_push local decoded) segments)"

text \<open>The part of the request path below the mount path, if the request is for this layer.\<close>

definition below_mount :: "static_files \<Rightarrow> string \<Rightarrow> (unit, string option) result" where
  "below_mount files path =
     (if sf_mount_path files = ''/'' then
        (case strip_prefix ''/'' path of None \<Rightarrow> Inl () | Some r \<Rightarrow> Inr (Some r))
      else if path = sf_mount_path files then Inr (Some [])
      else
        (case strip_prefix (sf_mount_path files) path of
           None \<Rightarrow> Inr None
         | Some suffix \<Rightarrow> Inr (strip_prefix ''/'' suffix)))"

definition relative_path :: "static_files \<Rightarrow> string \<Rightarrow> (unit, path_buf option) result" where
  "relative_path files path =
     bind_result (below_mount files path) (\<lambda>below.
       case below of
         None \<Rightarrow> Inr None
       | Some relative \<Rightarrow>
           if relative = [] then Inr (Some [])
           else bind_result (push_segments [] (split_on (CHR ''/'') relative)) (\<lambda>p. Inr (Some p)))"

section \<open>Lemmas\<close>

definition safe_name :: "string \<Rightarrow> bool" where
  "safe_name d \<longleftrightarrow> valid_mount_segment d \<and> CHR ''/'' \<notin> set d"

lemma safe_nameD:
  assumes "safe_name d"
  shows "d \<noteq> []" "d \<noteq> ''.''" "CHR ''/'' \<notin> set d" "\<not> is_absolute d"
  using assms by (cases d; auto simp: safe_name_def valid_mount_segment_def is_absolute_def)+

lemma percent_decode_segment_safe:
  "percent_decode_segment s = Inr d \<Longrightarrow> safe_name d \<and> utf8_valid d"
  by (auto simp: percent_decode_segment_def safe_name_def split: if_splits)

lemma last_join_safe:
  assumes "es \<noteq> []" "\<forall>e\<in>set es. safe_name e"
  shows "join_with ''/'' es \<noteq> [] \<and> last (join_with ''/'' es) \<noteq> CHR ''/''"
  using assms
proof (induction es rule: induct_list012)
  case (2 x)
  then show ?case using safe_nameD [of x] by (metis join_with.simps(2) last_in_set list.set_intros(1))
qed auto

lemma join_with_snoc:
  "join_with sep (es @ [d]) = (if es = [] then d else join_with sep es @ sep @ d)"
  by (induction es rule: induct_list012) auto

lemma path_push_join:
  assumes "\<forall>e\<in>set es. safe_name e" "safe_name d"
  shows "path_push (join_with ''/'' es) d = join_with ''/'' (es @ [d])"
  using assms last_join_safe [of es] safe_nameD(4) [of d]
  by (cases "es = []") (auto simp: path_push_def join_with_snoc)

lemma push_segments_join:
  assumes "push_segments (join_with ''/'' es) segs = Inr q" "\<forall>e\<in>set es. safe_name e"
  shows "\<exists>ds. q = join_with ''/'' (es @ ds) \<and> (\<forall>d\<in>set ds. safe_name d) \<and>
           list_all2 (\<lambda>s d. percent_decode_segment s = Inr d) segs ds"
  using assms
proof (induction segs arbitrary: es)
  case (Cons s segs)
  from Cons.prems obtain d where d: "percent_decode_segment s = Inr d"
    and q: "push_segments (path_push (join_with ''/'' es) d) segs = Inr q" by auto
  have safe: "safe_name d" using percent_decode_segment_safe [OF d] by simp
  then have "push_segments (join_with ''/'' (es @ [d])) segs = Inr q"
    using q path_push_join Cons.prems(2) by simp
  from Cons.IH [OF this] Cons.prems(2) safe obtain ds where
    ds: "q = join_with ''/'' ((es @ [d]) @ ds)" "\<forall>d\<in>set ds. safe_name d"
      "list_all2 (\<lambda>s d. percent_decode_segment s = Inr d) segs ds" by auto
  with d safe show ?case by (intro exI [of _ "d # ds"]) auto
qed auto

lemma filter_safe:
  "\<forall>e\<in>set es. safe_name e \<Longrightarrow> filter (\<lambda>c. c \<noteq> [] \<and> c \<noteq> ''.'') es = es"
  by (induction es) (auto dest: safe_nameD)

lemma split_join_safe:
  "es \<noteq> [] \<Longrightarrow> \<forall>e\<in>set es. safe_name e \<Longrightarrow> split_on (CHR ''/'') (join_with ''/'' es) = es"
  using split_on_join [of es "CHR ''/''"] by (auto dest: safe_nameD)

lemma join_safe_relative:
  assumes "es \<noteq> []" "\<forall>e\<in>set es. safe_name e"
  shows "\<not> is_absolute (join_with ''/'' es)"
proof -
  obtain e es' where es: "es = e # es'" using assms by (cases es) auto
  then have e: "e \<noteq> []" "CHR ''/'' \<notin> set e" using assms safe_nameD by auto
  obtain x xs where x: "e = x # xs" using e by (cases e) auto
  then have "join_with ''/'' es = x # xs @ (if es' = [] then [] else ''/'' @ join_with ''/'' es')"
    using es by (cases es') auto
  with e x show ?thesis by (auto simp: is_absolute_def)
qed

lemma path_components_join:
  assumes "es \<noteq> []" "\<forall>e\<in>set es. safe_name e"
  shows "path_components (join_with ''/'' es) = es"
  using assms join_safe_relative [OF assms] split_join_safe [OF assms] filter_safe [of es]
  by (cases es) (auto simp: path_components_def Let_def dest: safe_nameD)

lemma path_components_join_root:
  assumes "is_absolute root" "es \<noteq> []" "\<forall>e\<in>set es. safe_name e"
  shows "path_components (path_push root (join_with ''/'' es)) = path_components root @ es"
proof -
  let ?j = "join_with ''/'' es" and ?f = "filter (\<lambda>c. c \<noteq> [] \<and> c \<noteq> ''.'')"
  have j: "\<not> is_absolute ?j" "split_on (CHR ''/'') ?j = es" "?f es = es"
    using join_safe_relative split_join_safe filter_safe assms by auto
  have root: "root \<noteq> []" using assms(1) by (auto simp: is_absolute_def)
  have abs: "is_absolute (root @ x)" for x using assms(1) by (auto simp: is_absolute_def starts_with_iff)
  show ?thesis
  proof (cases "last root = CHR ''/''")
    case True
    then obtain r where r: "root = r @ ''/''" using root by (metis append_butlast_last_id)
    then have "split_on (CHR ''/'') (root @ ?j) = split_on (CHR ''/'') r @ es"
      "split_on (CHR ''/'') root = split_on (CHR ''/'') r @ [[]]"
      using split_on_append [of "CHR ''/''" r ?j] split_on_append [of "CHR ''/''" r "[]"] j by simp_all
    then show ?thesis using True j abs [of ?j] assms(1)
      by (simp add: path_push_def path_components_def Let_def)
  next
    case False
    have "split_on (CHR ''/'') (root @ ''/'' @ ?j) = split_on (CHR ''/'') root @ es"
      using split_on_append [of "CHR ''/''" root ?j] j by simp
    then show ?thesis using False root j abs [of "''/'' @ ?j"] assms(1)
      by (simp add: path_push_def path_components_def Let_def)
  qed
qed

lemma relative_path_components:
  assumes "relative_path files path = Inr (Some p)" "p \<noteq> []"
  shows "\<exists>ds. ds \<noteq> [] \<and> p = join_with ''/'' ds \<and> (\<forall>d\<in>set ds. safe_name d \<and> utf8_valid d)"
proof -
  from assms obtain r where "push_segments [] (split_on (CHR ''/'') r) = Inr p"
    by (auto simp: relative_path_def split: option.splits if_splits)
  then have "push_segments (join_with ''/'' []) (split_on (CHR ''/'') r) = Inr p" by simp
  from push_segments_join [OF this] obtain ds where
    ds: "p = join_with ''/'' ds" "\<forall>d\<in>set ds. safe_name d"
      "list_all2 (\<lambda>s d. percent_decode_segment s = Inr d) (split_on (CHR ''/'') r) ds" by auto
  moreover have "ds \<noteq> []" using ds(3) by (metis list_all2_Nil2 split_on_not_Nil)
  moreover have "\<forall>d\<in>set ds. utf8_valid d"
    using ds(3) by (auto simp: list_all2_conv_all_nth in_set_conv_nth dest!: percent_decode_segment_safe)
  ultimately show ?thesis by auto
qed

subsection \<open>Encoding a name\<close>

definition percent_encode :: "string \<Rightarrow> string" where
  "percent_encode s =
     concat (map (\<lambda>c. [CHR ''%'', digit_char (code_of c div 16), digit_char (code_of c mod 16)]) s)"

lemma hex_value_digit_char: "i < 16 \<Longrightarrow> hex_value (digit_char i) = Inr i"
  by (auto simp: hex_value_def digit_char_def in_codes_def)

lemma percent_decode_encode: "percent_decode_bytes (percent_encode s) = Inr s"
proof (induction s)
  case (Cons c s)
  have "code_of c < (256 :: nat)" by simp
  then have "code_of c div 16 < (16 :: nat)" "code_of c mod 16 < (16 :: nat)"
    by (simp_all only: less_mult_imp_div_less [of _ 16 16, simplified] mod_less_divisor)
  then show ?case using Cons by (simp add: percent_encode_def hex_value_digit_char)
qed (simp add: percent_encode_def)

lemma percent_encode_Nil [simp]: "percent_encode s = [] \<longleftrightarrow> s = []"
  by (simp add: percent_encode_def)

lemma percent_encode_no_slash: "CHR ''/'' \<notin> set (percent_encode s)"
proof -
  have "digit_char i \<noteq> CHR ''/''" if "i < 16" for i
    using hex_value_digit_char [OF that] by (auto simp: hex_value_def in_codes_def)
  moreover have "code_of c div 16 < (16 :: nat)" for c
    using less_mult_imp_div_less [of "code_of c" 16 16] by simp
  moreover have "code_of c mod 16 < (16 :: nat)" for c by simp
  ultimately have "CHR ''/'' \<noteq> digit_char (code_of c div 16)" "CHR ''/'' \<noteq> digit_char (code_of c mod 16)" for c
    by metis+
  then show ?thesis by (auto simp: percent_encode_def)
qed

lemma percent_decode_encode_segment:
  "safe_name d \<Longrightarrow> utf8_valid d \<Longrightarrow> percent_decode_segment (percent_encode d) = Inr d"
  using safe_nameD(1) [of d]
  by (simp add: percent_decode_segment_def percent_decode_encode safe_name_def)

subsection \<open>Properties\<close>

text \<open>C13. The local path of an accepted request has no traversal: each of its components is a
  non-empty UTF-8 name other than \<open>.\<close> and \<open>..\<close> without separators, backslashes or NUL, and joining it
  to an absolute root only appends those components to the root's.\<close>

theorem relative_path_no_traversal:
  assumes "relative_path files path = Inr (Some p)" "p \<noteq> []" "is_absolute (sf_root files)"
  shows "path_components p \<noteq> [] \<and>
    (\<forall>d\<in>set (path_components p). d \<notin> {[], ''.'', ''..''} \<and> utf8_valid d \<and>
       set d \<inter> {CHR ''/'', CHR 0x5C, CHR 0x00} = {}) \<and>
    path_components (path_push (sf_root files) p) = path_components (sf_root files) @ path_components p"
proof -
  from relative_path_components [OF assms(1,2)] obtain ds where
    ds: "ds \<noteq> []" "p = join_with ''/'' ds" "\<forall>d\<in>set ds. safe_name d \<and> utf8_valid d" by blast
  then have "path_components p = ds" using path_components_join by auto
  moreover have "path_components (path_push (sf_root files) p) = path_components (sf_root files) @ ds"
    using path_components_join_root assms(3) ds by auto
  ultimately show ?thesis using ds by (auto simp: safe_name_def valid_mount_segment_def)
qed

definition sample_files :: static_files where
  "sample_files = \<lparr>sf_root = ''/srv'', sf_mount_path = ''/static'', sf_max_file_bytes = 100,
     sf_streaming_threshold = None, sf_cache_control = ''no-store'', sf_precompressed_variants = False\<rparr>"

lemmas static_path_eval =
  relative_path_def below_mount_def percent_decode_segment_def hex_value_def path_push_def
  is_absolute_def valid_mount_segment_def strip_prefix_def in_codes_def char_of_def bit_Suc_0_iff

lemma sample_relative_path:
  "relative_path sample_files ''/static/css/a%2Eb'' = Inr (Some ''css/a.b'')"
  "relative_path sample_files ''/static/%2e%2e/x'' = Inl ()"
  by (simp_all add: sample_files_def static_path_eval)

lemma relative_path_no_traversal_witness:
  "path_components (path_push ''/srv'' ''css/a.b'') = [''/'', ''srv'', ''css'', ''a.b'']"
  using relative_path_no_traversal [OF sample_relative_path(1)]
  by (simp add: sample_files_def is_absolute_def path_components_def)

text \<open>Every legal file name can be requested: decoding its percent encoding gives the name back,
  so a request path of encoded names below the mount path names exactly that local path.\<close>

theorem relative_path_encoded:
  assumes "ds \<noteq> []" "\<forall>d\<in>set ds. safe_name d \<and> utf8_valid d"
    and "sf_mount_path files = ''/'' @ m" "m \<noteq> []"
  shows "relative_path files (sf_mount_path files @ ''/'' @ join_with ''/'' (map percent_encode ds)) =
    Inr (Some (join_with ''/'' ds))"
proof -
  have seg: "percent_decode_segment (percent_encode d) = Inr d" if "d \<in> set ds" for d
    using assms(2) that by (auto intro: percent_decode_encode_segment)
  have push: "push_segments (join_with ''/'' es) (map percent_encode fs) = Inr (join_with ''/'' (es @ fs))"
    if "set fs \<subseteq> set ds" "\<forall>e\<in>set es. safe_name e" for es fs
    using that
  proof (induction fs arbitrary: es)
    case (Cons f fs)
    then have f: "f \<in> set ds" "safe_name f" using assms(2) by auto
    with Cons have "push_segments (join_with ''/'' (es @ [f])) (map percent_encode fs) =
        Inr (join_with ''/'' ((es @ [f]) @ fs))" by (intro Cons.IH) auto
    with f seg [of f] path_push_join [of es f] Cons.prems show ?case by simp
  qed simp
  obtain d ds' where d: "ds = d # ds'" using assms(1) by (cases ds) auto
  then have "percent_encode d \<noteq> []" using assms(2) safe_nameD(1) by auto
  then have "join_with ''/'' (map percent_encode ds) \<noteq> []" using d by (cases ds') auto
  moreover have "split_on (CHR ''/'') (join_with ''/'' (map percent_encode ds)) = map percent_encode ds"
    using split_on_join [of "map percent_encode ds" "CHR ''/''"] percent_encode_no_slash assms(1) by auto
  moreover have "push_segments [] (map percent_encode ds) = Inr (join_with ''/'' ds)"
    using push [of ds "[]"] by simp
  ultimately show ?thesis using assms(3,4)
    by (simp add: relative_path_def below_mount_def strip_prefix_def starts_with_def)
qed

lemma relative_path_encoded_witness:
  "relative_path sample_files (''/static/'' @ percent_encode ''a b'') = Inr (Some ''a b'')"
  using relative_path_encoded [of "[''a b'']" sample_files "''static''"]
  by (simp add: sample_files_def safe_name_def valid_mount_segment_def)

end
