(* ===== verification/Range.thy ===== *)
theory Range
  imports Http "HOL-Library.Product_Lexorder"
begin

text \<open>
  Byte-range requests of the static file service, \<open>crates/rustee-static/src/range.rs\<close> with the
  validator arithmetic of \<open>response.rs\<close> it uses: parsing of one range member, of a range set,
  normalization of overlapping and adjacent ranges, and the \<open>If-Range\<close> condition.

  Lengths are \<open>u64\<close> values.  Parsing an HTTP date is a
  parameter.
\<close>

section \<open>Definitions\<close>

abbreviation MAX_MULTIPART_RANGES :: nat where "MAX_MULTIPART_RANGES \<equiv> 16"
abbreviation MAX_RANGE_MEMBERS :: nat where "MAX_RANGE_MEMBERS \<equiv> 64"

record byte_range =
  br_start :: nat
  br_end :: nat

definition byte_range_len :: "byte_range \<Rightarrow> nat" where
  "byte_range_len r = br_end r - br_start r + 1"

datatype requested_range =
    RangeFull
  | RangePartial byte_range
  | RangeMultipart "byte_range list"
  | RangeUnsatisfiable

record cache_validators =
  cv_etag :: string
  cv_last_modified :: string
  cv_modified :: system_time

definition truncate_to_seconds :: "system_time \<Rightarrow> system_time option" where
  "truncate_to_seconds t =
     (if t < 0 then None else Some (t div int nanos_per_sec * int nanos_per_sec))"

definition parse_range_member :: "string \<Rightarrow> nat \<Rightarrow> (unit, byte_range option) result" where
  "parse_range_member specifier len =
     (case split_once (CHR ''-'') specifier of
        None \<Rightarrow> Inl ()
      | Some (start, endd) \<Rightarrow>
          if start = [] then
            (case parse_uint u64_bound endd of
               None \<Rightarrow> Inl ()
             | Some suffix_length \<Rightarrow>
                 if suffix_length = 0 \<or> len = 0 then Inr None
                 else Inr (Some \<lparr>br_start = len - suffix_length, br_end = len - 1\<rparr>))
          else
            (case parse_uint u64_bound start of
               None \<Rightarrow> Inl ()
             | Some first \<Rightarrow>
                 if first \<ge> len then Inr None
                 else
                   (case (if endd = [] then Some (len - 1)
                          else map_option (\<lambda>e. min e (len - 1)) (parse_uint u64_bound endd)) of
                      None \<Rightarrow> Inl ()
                    | Some final \<Rightarrow>
                        if final < first then Inl ()
                        else Inr (Some \<lparr>br_start = first, br_end = final\<rparr>))))"

fun parse_range_members ::
  "nat \<Rightarrow> string list \<Rightarrow> nat \<Rightarrow> byte_range list \<Rightarrow> byte_range list option" where
  "parse_range_members index [] len ranges = Some ranges"
| "parse_range_members index (specifier # rest) len ranges =
     (if index \<ge> MAX_RANGE_MEMBERS then None
      else case parse_range_member (trim specifier) len of
        Inr (Some rng) \<Rightarrow> parse_range_members (index + 1) rest len (ranges @ [rng])
      | Inr None \<Rightarrow> parse_range_members (index + 1) rest len ranges
      | Inl _ \<Rightarrow> None)"

fun merge_ranges :: "byte_range list \<Rightarrow> byte_range list \<Rightarrow> byte_range list" where
  "merge_ranges normalized [] = normalized"
| "merge_ranges normalized (rng # ranges) =
     (if normalized \<noteq> [] \<and>
         br_start rng \<le> saturating_add u64_bound (br_end (last normalized)) 1
      then merge_ranges
             (butlast normalized @
              [(last normalized)\<lparr>br_end := max (br_end (last normalized)) (br_end rng)\<rparr>]) ranges
      else merge_ranges (normalized @ [rng]) ranges)"

definition parse_range_set :: "string \<Rightarrow> nat \<Rightarrow> requested_range" where
  "parse_range_set specifier len =
     (case parse_range_members 0 (split_on (CHR '','') specifier) len [] of
        None \<Rightarrow> RangeUnsatisfiable
      | Some ranges \<Rightarrow>
          if ranges = [] then RangeUnsatisfiable
          else
            let normalized = merge_ranges [] (sort_key (\<lambda>r. (br_start r, br_end r)) ranges) in
            if length normalized > MAX_MULTIPART_RANGES then RangeUnsatisfiable
            else case normalized of
              [rng] \<Rightarrow> RangePartial rng
            | _ \<Rightarrow> RangeMultipart normalized)"

definition if_range_matches ::
  "deps \<Rightarrow> (string \<Rightarrow> system_time option) \<Rightarrow> header_map \<Rightarrow> cache_validators option \<Rightarrow> bool" where
  "if_range_matches d parse_http_date headers validators =
     (case headers ''if-range'' of
        [] \<Rightarrow> True
      | value # others \<Rightarrow>
          if others \<noteq> [] then False
          else case validators of
            None \<Rightarrow> False
          | Some v \<Rightarrow>
              (case header_to_str d value of
                 None \<Rightarrow> False
               | Some text \<Rightarrow>
                   (case parse_http_date text of
                      None \<Rightarrow> False
                    | Some date \<Rightarrow>
                        (case truncate_to_seconds (cv_modified v) of
                           None \<Rightarrow> False
                         | Some modified \<Rightarrow> modified \<le> date))))"

definition requested_range ::
  "deps \<Rightarrow> (string \<Rightarrow> system_time option) \<Rightarrow> header_map \<Rightarrow> nat \<Rightarrow> cache_validators option \<Rightarrow>
   requested_range" where
  "requested_range d parse_http_date headers len validators =
     (case headers ''range'' of
        [] \<Rightarrow> RangeFull
      | value # others \<Rightarrow>
          if others \<noteq> [] then RangeUnsatisfiable
          else case header_to_str d value of
            None \<Rightarrow> RangeUnsatisfiable
          | Some text \<Rightarrow>
              (case split_once (CHR ''='') (trim text) of
                 None \<Rightarrow> RangeUnsatisfiable
               | Some (unit_name, specifier) \<Rightarrow>
                   if \<not> eq_ignore_ascii_case unit_name ''bytes'' then RangeFull
                   else if \<not> if_range_matches d parse_http_date headers validators then RangeFull
                   else parse_range_set (trim specifier) len))"

definition content_range_header :: "byte_range \<Rightarrow> nat \<Rightarrow> string" where
  "content_range_header rng len =
     ''bytes '' @ show_nat (br_start rng) @ ''-'' @ show_nat (br_end rng) @ ''/'' @ show_nat len"

definition unsatisfied_content_range_header :: "nat \<Rightarrow> string" where
  "unsatisfied_content_range_header len = ''bytes */'' @ show_nat len"

section \<open>Ranges as sets of positions\<close>

definition positions :: "byte_range \<Rightarrow> nat set" where
  "positions r = {br_start r .. br_end r}"

definition range_within :: "nat \<Rightarrow> byte_range \<Rightarrow> bool" where
  "range_within len r \<longleftrightarrow> br_start r \<le> br_end r \<and> br_end r < len"

text \<open>Ascending, disjoint and not even adjacent.\<close>

definition separated :: "byte_range list \<Rightarrow> bool" where
  "separated rs \<longleftrightarrow> sorted_wrt (\<lambda>a b. br_end a + 1 < br_start b) rs"

fun selected_ranges :: "requested_range \<Rightarrow> byte_range list" where
  "selected_ranges (RangePartial r) = [r]"
| "selected_ranges (RangeMultipart rs) = rs"
| "selected_ranges _ = []"

lemma parse_range_member_within:
  "parse_range_member s len = Inr (Some r) \<Longrightarrow> range_within len r"
  by (auto simp: parse_range_member_def range_within_def
      split: option.splits if_splits prod.splits)

lemma parse_range_members_Some:
  "parse_range_members i specs len acc = Some rs \<Longrightarrow>
   (length specs > 0 \<longrightarrow> i + length specs \<le> MAX_RANGE_MEMBERS) \<and>
   (\<forall>s\<in>set specs. \<exists>m. parse_range_member (trim s) len = Inr m) \<and>
   set rs = set acc \<union> {r. \<exists>s\<in>set specs. parse_range_member (trim s) len = Inr (Some r)} \<and>
   length rs \<le> length acc + length specs"
proof (induction i specs len acc rule: parse_range_members.induct)
  case (2 index specifier rest len ranges)
  show ?case
  proof (cases "parse_range_member (trim specifier) len")
    case (Inl e)
    with 2 show ?thesis by (simp split: if_splits)
  next
    case (Inr m)
    with 2 show ?thesis by (cases m) (auto split: if_splits)
  qed
qed auto

definition starts_after :: "byte_range list \<Rightarrow> byte_range list \<Rightarrow> bool" where
  "starts_after norm rs \<longleftrightarrow> (norm \<noteq> [] \<longrightarrow> (\<forall>r\<in>set rs. br_start (last norm) \<le> br_start r))"

lemma separated_snoc:
  "separated (xs @ [y]) \<longleftrightarrow> separated xs \<and> (\<forall>x\<in>set xs. br_end x + 1 < br_start y)"
  by (auto simp: separated_def sorted_wrt_append)

lemma separated_trans_last:
  assumes "separated norm" "\<forall>x\<in>set norm. br_start x \<le> br_end x" "norm \<noteq> []"
    "br_end (last norm) + 1 < n"
  shows "\<forall>x\<in>set norm. br_end x + 1 < n"
  using assms by (cases norm rule: rev_cases) (force simp: separated_snoc)+

lemma merge_ranges_invariant:
  assumes "sorted (map br_start rs)" "starts_after norm rs" "separated norm"
    "\<forall>r\<in>set norm. range_within len r" "\<forall>r\<in>set rs. range_within len r" "len < u64_bound"
  shows "separated (merge_ranges norm rs) \<and>
    (\<forall>r\<in>set (merge_ranges norm rs). range_within len r) \<and>
    \<Union> (positions ` set (merge_ranges norm rs)) =
      \<Union> (positions ` set norm) \<union> \<Union> (positions ` set rs) \<and>
    length (merge_ranges norm rs) \<le> length norm + length rs \<and>
    (merge_ranges norm rs = [] \<longleftrightarrow> norm = [] \<and> rs = [])"
  using assms
proof (induction rs arbitrary: norm)
  case Nil
  then show ?case by auto
next
  case (Cons r rs)
  have r: "range_within len r" using Cons.prems by simp
  show ?case
  proof (cases "norm \<noteq> [] \<and> br_start r \<le> saturating_add u64_bound (br_end (last norm)) 1")
    case True
    then obtain ns l where norm: "norm = ns @ [l]" by (cases norm rule: rev_cases) auto
    have l: "range_within len l" using Cons.prems norm by simp
    have adj: "br_start r \<le> br_end l + 1"
      using True norm l \<open>len < u64_bound\<close> by (simp add: saturating_add_def range_within_def)
    let ?l = "l\<lparr>br_end := max (br_end l) (br_end r)\<rparr>"
    have start: "br_start l \<le> br_start r" using Cons.prems(2) norm by (simp add: starts_after_def)
    have pos: "positions ?l = positions l \<union> positions r"
      using adj start l r by (auto simp: positions_def range_within_def)
    have "starts_after (ns @ [?l]) rs" "separated (ns @ [?l])"
      "\<forall>x\<in>set (ns @ [?l]). range_within len x"
      using Cons.prems norm l r by (auto simp: starts_after_def separated_snoc range_within_def)
    note IH = Cons.IH [OF _ this _ \<open>len < u64_bound\<close>]
    have step: "merge_ranges norm (r # rs) = merge_ranges (ns @ [?l]) rs"
      using True norm by simp
    show ?thesis unfolding step using IH Cons.prems norm pos by auto
  next
    case gap: False
    have sep: "separated (norm @ [r])"
    proof (cases "norm = []")
      case False
      with gap Cons.prems(6) have "br_end (last norm) + 1 < br_start r"
        using r by (auto simp: saturating_add_def range_within_def)
      then show ?thesis
        using separated_trans_last [of norm] Cons.prems False
        by (auto simp: separated_snoc range_within_def)
    qed (simp add: separated_def)
    have "starts_after (norm @ [r]) rs" "\<forall>x\<in>set (norm @ [r]). range_within len x"
      using Cons.prems by (auto simp: starts_after_def)
    note IH = Cons.IH [OF _ this(1) sep this(2) _ \<open>len < u64_bound\<close>]
    have step: "merge_ranges norm (r # rs) = merge_ranges (norm @ [r]) rs"
      using gap by auto
    show ?thesis unfolding step using IH Cons.prems by auto
  qed
qed

text \<open>Separated ranges inside a file never add up to more than the file.\<close>

lemma separated_total_length:
  assumes "separated rs" "\<forall>r\<in>set rs. range_within len r" "\<forall>r\<in>set rs. lo \<le> br_start r" "lo \<le> len"
  shows "sum_list (map byte_range_len rs) \<le> len - lo"
  using assms
proof (induction rs arbitrary: lo)
  case (Cons r rs)
  have r: "br_start r \<le> br_end r" "br_end r < len" "lo \<le> br_start r"
    using Cons.prems by (auto simp: range_within_def)
  have "sum_list (map byte_range_len rs) \<le> len - (br_end r + 1)"
    using Cons.prems r by (intro Cons.IH) (auto simp: separated_def)
  with r show ?case by (simp add: byte_range_len_def [of r])
qed simp

lemma parse_range_set_normalized:
  assumes "parse_range_set spec len = RangePartial r \<and> rs = [r] \<or>
           parse_range_set spec len = RangeMultipart rs"
  obtains raw where "parse_range_members 0 (split_on (CHR '','') spec) len [] = Some raw" "raw \<noteq> []"
    "rs = merge_ranges [] (sort_key (\<lambda>r. (br_start r, br_end r)) raw)"
    "length rs \<le> MAX_MULTIPART_RANGES"
proof -
  from assms obtain raw
    where raw: "parse_range_members 0 (split_on (CHR '','') spec) len [] = Some raw" "raw \<noteq> []"
    by (auto simp: parse_range_set_def split: option.splits if_splits)
  let ?n = "merge_ranges [] (sort_key (\<lambda>r. (br_start r, br_end r)) raw)"
  have "parse_range_set spec len =
      (if length ?n > MAX_MULTIPART_RANGES then RangeUnsatisfiable
       else case ?n of [rng] \<Rightarrow> RangePartial rng | _ \<Rightarrow> RangeMultipart ?n)"
    using raw by (simp add: parse_range_set_def Let_def)
  with assms have "rs = ?n" "length ?n \<le> MAX_MULTIPART_RANGES"
    by (auto split: if_splits list.splits)
  with raw that show thesis by simp
qed

lemma parse_range_set_selected:
  assumes "len < u64_bound"
    and "parse_range_set spec len = RangePartial r \<and> rs = [r] \<or>
         parse_range_set spec len = RangeMultipart rs"
  shows "rs \<noteq> [] \<and> length rs \<le> MAX_MULTIPART_RANGES \<and> separated rs \<and>
    (\<forall>r\<in>set rs. range_within len r) \<and>
    \<Union> (positions ` set rs) =
      \<Union> (positions ` {m. \<exists>s\<in>set (split_on (CHR '','') spec). parse_range_member (trim s) len = Inr (Some m)})"
proof -
  from assms(2) obtain raw
    where raw: "parse_range_members 0 (split_on (CHR '','') spec) len [] = Some raw" "raw \<noteq> []"
      and rs: "rs = merge_ranges [] (sort_key (\<lambda>r. (br_start r, br_end r)) raw)"
      and n: "length rs \<le> MAX_MULTIPART_RANGES"
    by (rule parse_range_set_normalized)
  let ?sorted = "sort_key (\<lambda>r. (br_start r, br_end r)) raw"
  have set_raw: "set raw = {m. \<exists>s\<in>set (split_on (CHR '','') spec).
      parse_range_member (trim s) len = Inr (Some m)}"
    using parse_range_members_Some [OF raw(1)] by auto
  have within: "\<forall>r\<in>set ?sorted. range_within len r"
    using set_raw parse_range_member_within by auto
  have "sorted_wrt (\<lambda>a b. (br_start a, br_end a) \<le> (br_start b, br_end b)) ?sorted"
    using sorted_sort_key [of "\<lambda>r. (br_start r, br_end r)" raw] by (simp only: sorted_map)
  then have "sorted_wrt (\<lambda>a b. br_start a \<le> br_start b) ?sorted"
    by (rule sorted_wrt_mono_rel [rotated]) auto
  then have "sorted (map br_start ?sorted)" by (simp only: sorted_map)
  from merge_ranges_invariant [OF this _ _ _ within assms(1), of "[]"]
  have "separated rs" "\<forall>r\<in>set rs. range_within len r" "rs \<noteq> []"
    "\<Union> (positions ` set rs) = \<Union> (positions ` set raw)"
    using raw(2) set_sort [of "\<lambda>r. (br_start r, br_end r)" raw]
    by (auto simp: rs starts_after_def separated_def simp del: set_sort dest: arg_cong [of _ _ set])
  then show ?thesis using n unfolding set_raw by blast
qed

section \<open>Properties\<close>

text \<open>C7. A range set that is answered with partial content selects at least one and at most
  sixteen ranges, ascending, pairwise disjoint and non-adjacent, inside the representation; the
  selected bytes are exactly the bytes that some satisfiable member asks for, and together they
  are never more than the representation holds.\<close>

theorem parse_range_set_normal_form:
  assumes "len < u64_bound"
    and "parse_range_set spec len = RangePartial r \<and> rs = [r] \<or>
         parse_range_set spec len = RangeMultipart rs"
  shows "rs \<noteq> [] \<and> length rs \<le> 16 \<and> separated rs \<and> (\<forall>r\<in>set rs. range_within len r) \<and>
    \<Union> (positions ` set rs) =
      \<Union> {positions m | m. \<exists>s\<in>set (split_on (CHR '','') spec). parse_range_member (trim s) len = Inr (Some m)} \<and>
    sum_list (map byte_range_len rs) \<le> len"
proof -
  note sel = parse_range_set_selected [OF assms]
  have "sum_list (map byte_range_len rs) \<le> len"
    using separated_total_length [of rs len 0] sel by simp
  moreover have "\<Union> {positions m | m. \<exists>s\<in>set (split_on (CHR '','') spec).
        parse_range_member (trim s) len = Inr (Some m)} = \<Union> (positions ` set rs)"
    using sel by (auto simp: image_def)
  ultimately show ?thesis using sel by simp
qed

theorem parse_range_set_normal_form_witness:
  "parse_range_set ''5-9, 0-2, 3-3, -1'' 100 =
     RangeMultipart [\<lparr>br_start = 0, br_end = 3\<rparr>, \<lparr>br_start = 5, br_end = 9\<rparr>, \<lparr>br_start = 99, br_end = 99\<rparr>] \<and>
   sum_list (map byte_range_len
     [\<lparr>br_start = 0, br_end = 3\<rparr>, \<lparr>br_start = 5, br_end = 9\<rparr>, \<lparr>br_start = 99, br_end = 99\<rparr>]) \<le> 100"
proof -
  let ?rs = "[\<lparr>br_start = 0, br_end = 3\<rparr>, \<lparr>br_start = 5, br_end = 9\<rparr>, \<lparr>br_start = 99, br_end = 99\<rparr>]"
  have p: "parse_range_set ''5-9, 0-2, 3-3, -1'' 100 = RangeMultipart ?rs"
    by (simp add: parse_range_set_def parse_range_member_def trim_eval parse_eval
        saturating_add_def Let_def)
  have b: "(100::nat) < u64_bound" by simp
  show ?thesis using parse_range_set_normal_form [OF b disjI2 [OF p]] p by blast
qed

end
