(* ===== verification/Negotiation.thy ===== *)
theory Negotiation
  imports Http
begin

text \<open>
  Content-coding negotiation: the \<open>Accept-Encoding\<close> quality rules that
  \<open>crates/rustee-static/src/encoding.rs\<close> uses to pick precompressed files and
  \<open>crates/rustee-middleware/src/compression/negotiation.rs\<close> to pick a response encoder, the
  compression layer of \<open>compression.rs\<close>, and the \<open>Vary\<close> bookkeeping that both crates and the
  CORS layer share.

  Qualities are \<open>u16\<close> values in thousandths.  The encoders are a parameter of the layer.
\<close>

section \<open>Quality values\<close>

definition parse_quality :: "string \<Rightarrow> nat option" where
  "parse_quality value =
     (if value = ''0'' \<or> value = ''0.'' then Some 0
      else if value = ''1'' \<or> value = ''1.'' then Some 1000
      else case split_once (CHR ''.'') value of
        None \<Rightarrow> None
      | Some (whole, fraction) \<Rightarrow>
          if length fraction > 3 \<or> \<not> list_all is_ascii_digit fraction then None
          else if whole = ''0'' then
            (case parse_uint u16_bound fraction of
               None \<Rightarrow> None
             | Some parsed \<Rightarrow>
                 if length fraction = 1 then Some (parsed * 100)
                 else if length fraction = 2 then Some (parsed * 10)
                 else if length fraction = 3 then Some (parsed * 1)
                 else None)
          else if whole = ''1'' \<and> list_all (\<lambda>b. b = CHR ''0'') fraction then Some 1000
          else None)"

text \<open>The first parameter named \<open>q\<close>, as \<open>find_map\<close> returns it.\<close>

fun find_quality :: "string list \<Rightarrow> string option" where
  "find_quality [] = None"
| "find_quality (parameter # parameters) =
     (case split_once (CHR ''='') (trim parameter) of
        None \<Rightarrow> find_quality parameters
      | Some (name, value) \<Rightarrow>
          if eq_ignore_ascii_case (trim name) ''q'' then Some (trim value)
          else find_quality parameters)"

definition item_quality :: "string list \<Rightarrow> nat" where
  "item_quality parameters =
     (case (case find_quality parameters of None \<Rightarrow> Some 1000 | Some v \<Rightarrow> parse_quality v) of
        None \<Rightarrow> 0
      | Some q \<Rightarrow> q)"

text \<open>One list item: the explicit and the wildcard maximum so far are updated.\<close>

definition add_item ::
  "string \<Rightarrow> string \<Rightarrow> nat option \<times> nat option \<Rightarrow> nat option \<times> nat option" where
  "add_item coding_token item acc =
     (let (explicit, wildcard) = acc;
          parts = split_on (CHR '';'') item;
          token = trim (hd parts);
          quality = item_quality (tl parts) in
      if eq_ignore_ascii_case token coding_token
      then (Some (max (case explicit of None \<Rightarrow> 0 | Some q \<Rightarrow> q) quality), wildcard)
      else if token = ''*''
      then (explicit, Some (max (case wildcard of None \<Rightarrow> 0 | Some q \<Rightarrow> q) quality))
      else (explicit, wildcard))"

fun scan_accept_encoding ::
  "deps \<Rightarrow> string \<Rightarrow> bytes list \<Rightarrow> bool \<times> nat option \<times> nat option \<Rightarrow>
   bool \<times> nat option \<times> nat option" where
  "scan_accept_encoding d coding_token [] acc = acc"
| "scan_accept_encoding d coding_token (value # values) (found, acc) =
     (case header_to_str d value of
        None \<Rightarrow> scan_accept_encoding d coding_token values (found, acc)
      | Some text \<Rightarrow>
          scan_accept_encoding d coding_token values
            (True, fold (add_item coding_token) (split_on (CHR '','') text) acc))"

definition or_else :: "'a option \<Rightarrow> 'a option \<Rightarrow> 'a option" where
  "or_else a b = (case a of None \<Rightarrow> b | Some x \<Rightarrow> Some x)"

definition positive_quality :: "nat option \<Rightarrow> nat option" where
  "positive_quality q = (case q of Some n \<Rightarrow> if n > 0 then Some n else None | None \<Rightarrow> None)"

section \<open>Precompressed variants of static files\<close>

datatype content_coding = Brotli | Gzip

fun coding_token :: "content_coding \<Rightarrow> string" where
  "coding_token Brotli = ''br''"
| "coding_token Gzip = ''gzip''"

fun coding_suffix :: "content_coding \<Rightarrow> string" where
  "coding_suffix Brotli = ''.br''"
| "coding_suffix Gzip = ''.gz''"

definition encoding_quality :: "deps \<Rightarrow> header_map \<Rightarrow> content_coding \<Rightarrow> nat option" where
  "encoding_quality d headers encoding =
     (case scan_accept_encoding d (coding_token encoding) (headers ''accept-encoding'')
             (False, None, None) of
        (found, explicit, wildcard) \<Rightarrow>
          if found then positive_quality (or_else explicit wildcard) else None)"

definition preferred_precompressed_encodings :: "deps \<Rightarrow> header_map \<Rightarrow> content_coding list" where
  "preferred_precompressed_encodings d headers =
     (case (encoding_quality d headers Brotli, encoding_quality d headers Gzip) of
        (Some brotli, Some gzip) \<Rightarrow> if brotli \<ge> gzip then [Brotli, Gzip] else [Gzip, Brotli]
      | (Some _, None) \<Rightarrow> [Brotli]
      | (None, Some _) \<Rightarrow> [Gzip]
      | (None, None) \<Rightarrow> [])"

section \<open>The compression layer\<close>

definition quality_for :: "deps \<Rightarrow> header_map \<Rightarrow> content_coding \<Rightarrow> nat option" where
  "quality_for d headers coding =
     (case scan_accept_encoding d (coding_token coding) (headers ''accept-encoding'')
             (False, None, None) of
        (found, explicit, wildcard) \<Rightarrow>
          if \<not> found then None else positive_quality (or_else explicit wildcard))"

definition select_coding :: "deps \<Rightarrow> bool \<Rightarrow> bool \<Rightarrow> header_map \<Rightarrow> content_coding option" where
  "select_coding d brotli_enabled gzip_enabled headers =
     (let brotli = (if brotli_enabled then quality_for d headers Brotli else None);
          gzip = (if gzip_enabled then quality_for d headers Gzip else None) in
      case (brotli, gzip) of
        (Some b, Some g) \<Rightarrow> if b \<ge> g then Some Brotli else Some Gzip
      | (None, Some _) \<Rightarrow> Some Gzip
      | (Some _, None) \<Rightarrow> Some Brotli
      | (None, None) \<Rightarrow> None)"

text \<open>Whether some value of a list-valued field contains an item accepted by the predicate.\<close>

definition list_field_has :: "deps \<Rightarrow> bytes list \<Rightarrow> (string \<Rightarrow> bool) \<Rightarrow> bool" where
  "list_field_has d values accepts \<longleftrightarrow>
     list_ex (\<lambda>value. case header_to_str d value of
                None \<Rightarrow> False
              | Some text \<Rightarrow> list_ex (\<lambda>item. accepts (trim item)) (split_on (CHR '','') text)) values"

definition cache_control_no_transform :: "deps \<Rightarrow> header_map \<Rightarrow> bool" where
  "cache_control_no_transform d headers \<longleftrightarrow>
     list_field_has d (headers ''cache-control'')
       (\<lambda>directive. eq_ignore_ascii_case directive ''no-transform'')"

definition is_compressible_content_type :: "string \<Rightarrow> bool" where
  "is_compressible_content_type value =
     (let media_type = to_ascii_lowercase (trim (hd (split_on (CHR '';'') value))) in
      starts_with ''text/'' media_type
      \<or> media_type \<in> {''application/javascript'', ''application/json'', ''application/ld+json'',
          ''application/manifest+json'', ''application/xhtml+xml'', ''application/xml'',
          ''application/rss+xml'', ''application/atom+xml'', ''image/svg+xml''}
      \<or> ends_with ''+json'' media_type
      \<or> ends_with ''+xml'' media_type)"

text \<open>\<open>HeaderMap::get\<close> reads the first value of a field.\<close>

definition first_header_str :: "deps \<Rightarrow> header_map \<Rightarrow> string \<Rightarrow> string option" where
  "first_header_str d headers name =
     (case headers name of [] \<Rightarrow> None | value # _ \<Rightarrow> header_to_str d value)"

definition is_compressible_response :: "deps \<Rightarrow> response \<Rightarrow> bool" where
  "is_compressible_response d resp =
     (let status = resp_status resp; headers = resp_headers resp in
      if (100 \<le> status \<and> status < 200) \<or> status = 204 \<or> status = 304
         \<or> contains_header headers ''content-encoding''
         \<or> contains_header headers ''content-range''
         \<or> cache_control_no_transform d headers
      then False
      else if (case first_header_str d headers ''content-length'' of
                 None \<Rightarrow> False | Some value \<Rightarrow> trim value = ''0'')
      then False
      else case first_header_str d headers ''content-type'' of
        None \<Rightarrow> False
      | Some value \<Rightarrow> is_compressible_content_type value)"

definition add_vary :: "deps \<Rightarrow> string \<Rightarrow> string \<Rightarrow> header_map \<Rightarrow> header_map" where
  "add_vary d field_name display headers =
     (if list_field_has d (headers ''vary'')
           (\<lambda>field. field = ''*'' \<or> eq_ignore_ascii_case field field_name)
      then headers
      else header_append ''vary'' display headers)"

definition add_vary_accept_encoding :: "deps \<Rightarrow> header_map \<Rightarrow> header_map" where
  "add_vary_accept_encoding d headers = add_vary d ''accept-encoding'' ''Accept-Encoding'' headers"

record compression_layer =
  cl_brotli :: bool
  cl_gzip :: bool

definition compression_layer_new :: compression_layer where
  "compression_layer_new = \<lparr>cl_brotli = True, cl_gzip = True\<rparr>"

definition with_brotli :: "bool \<Rightarrow> compression_layer \<Rightarrow> compression_layer" where
  "with_brotli enabled layer = layer\<lparr>cl_brotli := enabled\<rparr>"

definition with_gzip :: "bool \<Rightarrow> compression_layer \<Rightarrow> compression_layer" where
  "with_gzip enabled layer = layer\<lparr>cl_gzip := enabled\<rparr>"

definition compress_response ::
  "deps \<Rightarrow> (content_coding \<Rightarrow> body \<Rightarrow> body) \<Rightarrow> response \<Rightarrow> content_coding \<Rightarrow> response" where
  "compress_response d encoder resp coding =
     resp\<lparr>resp_headers :=
            add_vary_accept_encoding d
              (header_insert ''content-encoding'' (coding_token coding)
                (header_remove ''content-length'' (resp_headers resp))),
          resp_body := encoder coding (resp_body resp)\<rparr>"

definition vary_identity_response :: "deps \<Rightarrow> response \<Rightarrow> response" where
  "vary_identity_response d resp =
     resp\<lparr>resp_headers := add_vary_accept_encoding d (resp_headers resp)\<rparr>"

definition compression_call ::
  "deps \<Rightarrow> (content_coding \<Rightarrow> body \<Rightarrow> body) \<Rightarrow> compression_layer \<Rightarrow> (request \<Rightarrow> response) \<Rightarrow>
   request \<Rightarrow> response" where
  "compression_call d encoder layer inner req =
     (let may_transform = (req_method req \<noteq> ''HEAD'' \<and> \<not> contains_header (req_headers req) ''range'');
          coding = (if may_transform
                    then select_coding d (cl_brotli layer) (cl_gzip layer) (req_headers req)
                    else None);
          resp = inner req in
      if may_transform \<and> is_compressible_response d resp
      then (case coding of
              Some c \<Rightarrow> compress_response d encoder resp c
            | None \<Rightarrow> vary_identity_response d resp)
      else resp)"

section \<open>Lemmas\<close>

lemma parse_digits_bound: "parse_digits bound acc s = Some n \<Longrightarrow> n < (acc + 1) * 10 ^ length s"
proof (induction bound acc s rule: parse_digits.induct)
  case (2 bound acc c cs)
  then have n: "n < (acc * 10 + digit_value c + 1) * 10 ^ length cs" by (auto split: if_splits)
  have "digit_value c \<le> 9"
    using 2 by (auto simp: digit_value_def char_class_defs split: if_splits)
  then have "(acc * 10 + digit_value c + 1) * 10 ^ length cs \<le> (acc * 10 + 10) * 10 ^ length cs"
    by (intro mult_right_mono) auto
  with n have "n < (acc * 10 + 10) * 10 ^ length cs" by (rule less_le_trans)
  also have "(acc * 10 + 10) * 10 ^ length cs = (acc + 1) * 10 ^ length (c # cs)"
    by (simp add: algebra_simps)
  finally show ?case .
qed auto

lemma parse_quality_le: "parse_quality v = Some q \<Longrightarrow> q \<le> 1000"
proof (cases "v = ''0'' \<or> v = ''0.'' \<or> v = ''1'' \<or> v = ''1.''")
  case False
  assume "parse_quality v = Some q"
  with False obtain whole fraction where
    v: "split_once (CHR ''.'') v = Some (whole, fraction)" "length fraction \<le> 3"
       "list_all is_ascii_digit fraction" and
    q: "q = 1000 \<or> (\<exists>n. parse_uint u16_bound fraction = Some n \<and>
          (length fraction = 1 \<and> q = n * 100 \<or> length fraction = 2 \<and> q = n * 10 \<or>
           length fraction = 3 \<and> q = n))"
    by (auto simp: parse_quality_def split: option.splits if_splits)
  have "n < 10 ^ length fraction" if "parse_uint u16_bound fraction = Some n" for n
  proof (cases fraction)
    case (Cons c cs)
    with v(3) have "c \<noteq> CHR ''+''" by (auto simp: char_class_defs)
    with that Cons have "parse_digits u16_bound 0 fraction = Some n" by (simp add: parse_uint_def)
    then show ?thesis using parse_digits_bound by fastforce
  qed (use that in \<open>simp add: parse_uint_def\<close>)
  note bound = this
  from q show ?thesis
  proof
    assume "\<exists>n. parse_uint u16_bound fraction = Some n \<and>
          (length fraction = 1 \<and> q = n * 100 \<or> length fraction = 2 \<and> q = n * 10 \<or>
           length fraction = 3 \<and> q = n)"
    then obtain n where n: "parse_uint u16_bound fraction = Some n" and
      "length fraction = 1 \<and> q = n * 100 \<or> length fraction = 2 \<and> q = n * 10 \<or>
       length fraction = 3 \<and> q = n" by blast
    then show ?thesis using bound [OF n] by (elim disjE conjE) simp_all
  qed simp
qed (auto simp: parse_quality_def)

lemma item_quality_le: "item_quality ps \<le> 1000"
  by (auto simp: item_quality_def dest: parse_quality_le split: option.splits)

definition quality_ok :: "nat option \<times> nat option \<Rightarrow> bool" where
  "quality_ok acc \<longleftrightarrow> (\<forall>q. fst acc = Some q \<longrightarrow> q \<le> 1000) \<and> (\<forall>q. snd acc = Some q \<longrightarrow> q \<le> 1000)"

lemma add_item_ok: "quality_ok acc \<Longrightarrow> quality_ok (add_item t item acc)"
  using item_quality_le
  by (auto simp: quality_ok_def add_item_def Let_def split: prod.splits option.splits if_splits)

lemma fold_add_item_ok: "quality_ok acc \<Longrightarrow> quality_ok (fold (add_item t) items acc)"
  by (induction items arbitrary: acc) (auto simp: add_item_ok)

lemma scan_accept_encoding_ok:
  "quality_ok (snd acc) \<Longrightarrow> quality_ok (snd (scan_accept_encoding d t values acc))"
proof (induction d t "values" acc rule: scan_accept_encoding.induct)
  case (2 d t v vs found acc)
  then show ?case by (auto simp: fold_add_item_ok split: option.splits)
qed auto

lemma quality_for_bounds: "quality_for d h c = Some q \<Longrightarrow> 0 < q \<and> q \<le> 1000"
proof -
  assume q: "quality_for d h c = Some q"
  obtain found e w where s: "scan_accept_encoding d (coding_token c) (h ''accept-encoding'')
      (False, None, None) = (found, e, w)" by (metis prod_cases3)
  have "quality_ok (e, w)"
    using scan_accept_encoding_ok [of "(False, None, None)" d "coding_token c" "h ''accept-encoding''"] s
    by (simp add: quality_ok_def)
  with q s show ?thesis
    by (auto simp: quality_for_def quality_ok_def or_else_def positive_quality_def
        split: option.splits if_splits)
qed

lemma encoding_quality_eq: "encoding_quality d h c = quality_for d h c"
  by (simp add: encoding_quality_def quality_for_def split: prod.splits)

text \<open>The quality a coding has for a layer that may have the coding switched off.\<close>

definition offered_quality :: "deps \<Rightarrow> bool \<Rightarrow> bool \<Rightarrow> header_map \<Rightarrow> content_coding \<Rightarrow> nat option" where
  "offered_quality d brotli_enabled gzip_enabled headers c =
     (if (case c of Brotli \<Rightarrow> brotli_enabled | Gzip \<Rightarrow> gzip_enabled)
      then quality_for d headers c else None)"

lemma select_coding_cases:
  "select_coding d b g h =
     (case (offered_quality d b g h Brotli, offered_quality d b g h Gzip) of
        (Some p, Some q) \<Rightarrow> Some (if p \<ge> q then Brotli else Gzip)
      | (None, Some _) \<Rightarrow> Some Gzip
      | (Some _, None) \<Rightarrow> Some Brotli
      | (None, None) \<Rightarrow> None)"
  by (auto simp: select_coding_def offered_quality_def Let_def split: option.splits)

subsection \<open>Vary\<close>

definition varies_on :: "deps \<Rightarrow> string \<Rightarrow> header_map \<Rightarrow> bool" where
  "varies_on d field_name headers \<longleftrightarrow>
     list_field_has d (headers ''vary'')
       (\<lambda>field. field = ''*'' \<or> eq_ignore_ascii_case field field_name)"

lemma list_field_has_append:
  "list_field_has d (xs @ ys) P \<longleftrightarrow> list_field_has d xs P \<or> list_field_has d ys P"
  by (simp add: list_field_has_def)

lemma add_vary_other [simp]: "name \<noteq> ''vary'' \<Longrightarrow> add_vary d f v h name = h name"
  by (simp add: add_vary_def)

lemma add_vary_varies:
  assumes "header_to_str d v = Some v" "eq_ignore_ascii_case (trim v) f" "CHR '','' \<notin> set v"
  shows "varies_on d f (add_vary d f v h)"
  using assms
  by (auto simp: varies_on_def add_vary_def list_field_has_append)
     (simp add: list_field_has_def split_on_no_occ)

lemma add_vary_idem:
  assumes "header_to_str d v = Some v" "eq_ignore_ascii_case (trim v) f" "CHR '','' \<notin> set v"
  shows "add_vary d f v (add_vary d f v h) = add_vary d f v h"
  using add_vary_varies [OF assms, of h] by (simp add: varies_on_def add_vary_def)

lemma add_vary_keeps: "varies_on d f h \<Longrightarrow> varies_on d f (add_vary d f' v h)"
  by (simp add: varies_on_def add_vary_def list_field_has_append)



subsection \<open>Properties\<close>

text \<open>
  C30. The coding the compression layer selects is enabled and acceptable, its quality is
  between 1 and 1000 thousandths and at least that of the other offered coding, and Brotli wins
  a tie; nothing is selected exactly when no enabled coding is acceptable.
\<close>

theorem select_coding_best:
  "case select_coding d b g h of
     None \<Rightarrow> (\<forall>c. offered_quality d b g h c = None)
   | Some c \<Rightarrow> (\<exists>q. offered_quality d b g h c = Some q \<and> 0 < q \<and> q \<le> 1000 \<and>
       (\<forall>c' q'. offered_quality d b g h c' = Some q' \<longrightarrow> q' \<le> q \<and> (q' = q \<longrightarrow> c = Brotli \<or> c' = Gzip)))"
proof -
  have bounds: "offered_quality d b g h c = Some q \<Longrightarrow> 0 < q \<and> q \<le> 1000" for c q
    by (auto simp: offered_quality_def dest: quality_for_bounds split: if_splits)
  have codings: "(\<forall>c'. P c') \<longleftrightarrow> P Brotli \<and> P Gzip" for P
    by (metis content_coding.exhaust)
  show ?thesis
    using bounds [of Brotli] bounds [of Gzip]
    by (auto simp: select_coding_cases codings split: option.splits)
qed

lemma positive_max: "positive_quality (Some n) = (if 0 < n then Some n else None)"
  by (simp add: positive_quality_def)

lemmas negotiation_eval =
  select_coding_def quality_for_def or_else_def positive_max add_item_def
  item_quality_def parse_quality_def Let_def sample_deps_def trim_eval case_eval parse_eval

definition accepting :: "string \<Rightarrow> header_map" where
  "accepting v = no_headers(''accept-encoding'' := [v])"

lemma accepting_quality:
  "quality_for sample_deps (accepting ''gzip, br;q=0.5'') Gzip = Some 1000"
  "quality_for sample_deps (accepting ''gzip, br;q=0.5'') Brotli = Some 500"
  by (simp_all add: accepting_def negotiation_eval)

lemma select_coding_best_witness:
  "select_coding sample_deps True True (accepting ''gzip, br;q=0.5'') = Some Gzip \<and>
   offered_quality sample_deps True True (accepting ''gzip, br;q=0.5'') Gzip = Some 1000 \<and>
   offered_quality sample_deps True True (accepting ''gzip, br;q=0.5'') Brotli = Some 500"
  using select_coding_best [of sample_deps True True "accepting ''gzip, br;q=0.5''"]
  by (auto simp: select_coding_cases offered_quality_def accepting_quality)


definition gzip_request :: request where
  "gzip_request = (sample_request ''GET'' ''/'')\<lparr>req_headers := accepting ''gzip, br;q=0.5''\<rparr>"

lemmas compressible_eval =
  is_compressible_response_def with_status_into_response_def string_into_response_def
  text_response_def response_def no_headers_def cache_control_no_transform_def list_field_has_def
  first_header_str_def sample_deps_def is_compressible_content_type_def status_disallows_body_def
  trim_eval case_eval Let_def


text \<open>C32. A 205 response is not among the statuses the eligibility check excludes: whenever a coding
  is negotiated, the handler result \<open>(StatusCode::RESET_CONTENT, text)\<close>, whose payload the conversion
  has removed, leaves the layer as a 205 response whose body is the encoder's output for the
  empty body.\<close>

theorem compression_reset_content:
  assumes "header_to_str d ''text/plain; charset=utf-8'' = Some ''text/plain; charset=utf-8''"
    and "req_method req \<noteq> ''HEAD''" "req_headers req ''range'' = []"
    and "select_coding d (cl_brotli layer) (cl_gzip layer) (req_headers req) = Some c"
    and "inner req = with_status_into_response 205 (string_into_response msg)"
  shows "resp_status (compression_call d encoder layer inner req) = 205 \<and>
    status_disallows_body 205 \<and> resp_body (inner req) = empty_body \<and>
    resp_body (compression_call d encoder layer inner req) = encoder c empty_body"
proof -
  have "is_compressible_response d (with_status_into_response 205 (string_into_response msg))"
    using assms(1) by (simp add: compressible_eval)
  moreover have "resp_body (with_status_into_response 205 (string_into_response msg)) = empty_body"
    "resp_status (with_status_into_response 205 (string_into_response msg)) = 205"
    by (simp_all add: compressible_eval)
  ultimately show ?thesis using assms(2-)
    by (simp add: compression_call_def Let_def compress_response_def status_disallows_body_def)
qed

lemma compression_reset_content_witness:
  "body_bytes (resp_body (compression_call sample_deps (\<lambda>c b. FullBody (''Z'' @ body_bytes b))
     compression_layer_new (\<lambda>_. with_status_into_response 205 (string_into_response ''done'')) gzip_request))
   = ''Z''"
proof -
  have "accepting ''gzip, br;q=0.5'' ''range'' = []" by (simp add: accepting_def no_headers_def)
  then show ?thesis
    using compression_reset_content [of sample_deps gzip_request compression_layer_new Gzip
        "\<lambda>_. with_status_into_response 205 (string_into_response ''done'')" "''done''"
        "\<lambda>c b. FullBody (''Z'' @ body_bytes b)"]
    by (simp add: sample_deps_def [THEN arg_cong, where f = header_to_str] gzip_request_def sample_request_def
        compression_layer_new_def select_coding_def accepting_quality)
qed

end
