(* ===== verification/StaticDelivery.thy ===== *)
theory StaticDelivery
  imports StaticConfig Range Negotiation
begin

text \<open>
  Delivery of static files, \<open>crates/rustee-static/src\<close>: response headers and validators
  (\<open>response.rs\<close>), multipart framing (\<open>response/multipart.rs\<close>), selection of a precompressed
  sibling (\<open>encoding.rs\<close>), resolution and reading of the file (\<open>delivery.rs\<close>) and the layer
  (\<open>layer.rs\<close>).

  The record \<open>static_env\<close> holds what other packages and the clock provide: HTTP date parsing and
  printing, header value validation, the chunks \<open>ReaderStream\<close> produces for given contents, and
  the current time.  The boundary counter, a process-wide atomic, is passed and returned.
\<close>

section \<open>Parameters\<close>

record static_env =
  env_parse_http_date :: "string \<Rightarrow> system_time option"
  env_fmt_http_date :: "system_time \<Rightarrow> string"
  env_header_value_ok :: "string \<Rightarrow> bool"
  env_reader_stream :: "nat \<Rightarrow> bytes \<Rightarrow> bytes list \<times> body_error option"
  env_now :: system_time

abbreviation STREAMING_CHUNK_BYTES :: nat where
  "STREAMING_CHUNK_BYTES \<equiv> 16 * 1024"

record static_representation =
  rep_target :: path_buf
  rep_meta :: file_meta
  rep_encoding :: "content_coding option"

section \<open>Validators and conditional requests\<close>

definition etag_text :: "nat \<Rightarrow> duration \<Rightarrow> string" where
  "etag_text len since_epoch =
     ''W/'' @ [CHR 0x22] @ show_hex len @ ''-'' @ show_hex (as_secs since_epoch) @ ''-''
       @ show_hex (subsec_nanos since_epoch) @ [CHR 0x22]"

definition cache_validators :: "static_env \<Rightarrow> file_meta \<Rightarrow> cache_validators option" where
  "cache_validators env metadata =
     (case meta_modified metadata of
        None \<Rightarrow> None
      | Some modified \<Rightarrow>
          if modified < 0 then None
          else
            let etag = etag_text (meta_len metadata) (nat modified);
                last_modified = env_fmt_http_date env modified in
            if \<not> env_header_value_ok env etag then None
            else if \<not> env_header_value_ok env last_modified then None
            else Some \<lparr>cv_etag = etag, cv_last_modified = last_modified, cv_modified = modified\<rparr>)"

definition strip_weak_prefix :: "string \<Rightarrow> string" where
  "strip_weak_prefix v = (case strip_prefix ''W/'' (trim v) of Some r \<Rightarrow> r | None \<Rightarrow> trim v)"

definition weak_etag_matches :: "string \<Rightarrow> string \<Rightarrow> bool" where
  "weak_etag_matches candidate current \<longleftrightarrow> strip_weak_prefix candidate = strip_weak_prefix current"

definition is_ascii_whitespace :: "char \<Rightarrow> bool" where
  "is_ascii_whitespace c \<longleftrightarrow> code_of c \<in> {9, 10, 12, 13, 32}"

definition trim_ascii :: "bytes \<Rightarrow> bytes" where
  "trim_ascii b = rev (dropWhile is_ascii_whitespace (rev (dropWhile is_ascii_whitespace b)))"

definition if_none_match :: "deps \<Rightarrow> header_map \<Rightarrow> cache_validators option \<Rightarrow> bool option" where
  "if_none_match d headers validators =
     (let values = headers ''if-none-match'' in
      if values = [] then None
      else case validators of
        None \<Rightarrow> Some (list_ex (\<lambda>value. trim_ascii value = ''*'') values)
      | Some v \<Rightarrow>
          (case header_to_str d (cv_etag v) of
             None \<Rightarrow> Some False
           | Some current \<Rightarrow>
               Some (list_field_has d values
                 (\<lambda>candidate. candidate = ''*'' \<or> weak_etag_matches candidate current))))"

definition if_modified_since :: "deps \<Rightarrow> static_env \<Rightarrow> header_map \<Rightarrow> system_time \<Rightarrow> bool" where
  "if_modified_since d env headers modified =
     (case headers ''if-modified-since'' of
        [] \<Rightarrow> False
      | value # others \<Rightarrow>
          if others \<noteq> [] then False
          else case header_to_str d value of
            None \<Rightarrow> False
          | Some text \<Rightarrow>
              (case env_parse_http_date env text of
                 None \<Rightarrow> False
               | Some since \<Rightarrow>
                   (case truncate_to_seconds modified of
                      None \<Rightarrow> False
                    | Some m \<Rightarrow> m \<le> since)))"

definition is_not_modified ::
  "deps \<Rightarrow> static_env \<Rightarrow> header_map \<Rightarrow> cache_validators option \<Rightarrow> bool" where
  "is_not_modified d env headers validators =
     (case if_none_match d headers validators of
        Some matches \<Rightarrow> matches
      | None \<Rightarrow>
          (case validators of
             None \<Rightarrow> False
           | Some v \<Rightarrow> if_modified_since d env headers (cv_modified v)))"

section \<open>Media types\<close>

definition path_file_name :: "path_buf \<Rightarrow> string option" where
  "path_file_name p =
     (let cs = path_components p in
      if cs = [] \<or> last cs \<in> {''/'', ''..'', ''.''} then None else Some (last cs))"

definition path_extension :: "path_buf \<Rightarrow> string option" where
  "path_extension p =
     (case path_file_name p of
        None \<Rightarrow> None
      | Some f \<Rightarrow>
          if CHR ''.'' \<notin> set f then None
          else if tl (dropWhile ((\<noteq>) (CHR ''.'')) (rev f)) = [] then None
          else Some (rev (takeWhile ((\<noteq>) (CHR ''.'')) (rev f))))"

definition content_type :: "path_buf \<Rightarrow> string" where
  "content_type p =
     (let extension = (case path_extension p of
            None \<Rightarrow> None
          | Some e \<Rightarrow> if utf8_valid e then Some (to_ascii_lowercase e) else None) in
      if extension = Some ''css'' then ''text/css; charset=utf-8''
      else if extension = Some ''gif'' then ''image/gif''
      else if extension = Some ''htm'' \<or> extension = Some ''html'' then ''text/html; charset=utf-8''
      else if extension = Some ''ico'' then ''image/x-icon''
      else if extension = Some ''jpeg'' \<or> extension = Some ''jpg'' then ''image/jpeg''
      else if extension = Some ''js'' \<or> extension = Some ''mjs'' then ''text/javascript; charset=utf-8''
      else if extension = Some ''json'' \<or> extension = Some ''map'' then ''application/json; charset=utf-8''
      else if extension = Some ''png'' then ''image/png''
      else if extension = Some ''svg'' then ''image/svg+xml''
      else if extension = Some ''txt'' then ''text/plain; charset=utf-8''
      else if extension = Some ''wasm'' then ''application/wasm''
      else if extension = Some ''webp'' then ''image/webp''
      else ''application/octet-stream'')"

section \<open>Response construction\<close>

record static_response_context =
  ctx_files :: static_files
  ctx_representation :: static_representation
  ctx_validators :: "cache_validators option"
  ctx_content_type_target :: path_buf
  ctx_varies_by_encoding :: bool

definition insert_validators :: "cache_validators option \<Rightarrow> header_map \<Rightarrow> header_map" where
  "insert_validators validators headers =
     (case validators of
        None \<Rightarrow> headers
      | Some v \<Rightarrow> header_insert ''last-modified'' (cv_last_modified v)
                   (header_insert ''etag'' (cv_etag v) headers))"

definition apply_representation_headers ::
  "deps \<Rightarrow> content_coding option \<Rightarrow> bool \<Rightarrow> header_map \<Rightarrow> header_map" where
  "apply_representation_headers d content_encoding varies_by_encoding headers =
     (let h = (case content_encoding of
                 None \<Rightarrow> headers
               | Some e \<Rightarrow> header_insert ''content-encoding'' (coding_token e) headers) in
      if varies_by_encoding then add_vary_accept_encoding d h else h)"

definition static_success_response ::
  "deps \<Rightarrow> static_response_context \<Rightarrow> nat \<Rightarrow> body \<Rightarrow> nat \<Rightarrow> byte_range option \<Rightarrow> response" where
  "static_success_response d ctx status b len rng =
     (let r = response status b;
          h = header_insert ''content-type'' (content_type (ctx_content_type_target ctx)) (resp_headers r);
          h = header_insert ''content-length'' (show_nat len) h;
          h = header_insert ''cache-control'' (sf_cache_control (ctx_files ctx)) h;
          h = header_insert ''x-content-type-options'' ''nosniff'' h;
          h = header_insert ''accept-ranges'' ''bytes'' h;
          h = (case rng of
                 None \<Rightarrow> h
               | Some g \<Rightarrow> header_insert ''content-range''
                   (content_range_header g (meta_len (rep_meta (ctx_representation ctx)))) h);
          h = insert_validators (ctx_validators ctx) h;
          h = apply_representation_headers d (rep_encoding (ctx_representation ctx))
                (ctx_varies_by_encoding ctx) h in
      r\<lparr>resp_headers := h\<rparr>)"

definition static_multipart_response ::
  "static_response_context \<Rightarrow> body \<Rightarrow> nat \<Rightarrow> string \<Rightarrow> response" where
  "static_multipart_response ctx b len boundary =
     (let r = response 206 b;
          h = header_insert ''content-type'' (''multipart/byteranges; boundary='' @ boundary) (resp_headers r);
          h = header_insert ''content-length'' (show_nat len) h;
          h = header_insert ''cache-control'' (sf_cache_control (ctx_files ctx)) h;
          h = header_insert ''x-content-type-options'' ''nosniff'' h;
          h = header_insert ''accept-ranges'' ''bytes'' h;
          h = insert_validators (ctx_validators ctx) h in
      r\<lparr>resp_headers := h\<rparr>)"

definition static_not_modified ::
  "deps \<Rightarrow> static_files \<Rightarrow> cache_validators option \<Rightarrow> content_coding option \<Rightarrow> bool \<Rightarrow> response" where
  "static_not_modified d files validators content_encoding varies_by_encoding =
     (let r = response 304 empty_body;
          h = header_insert ''cache-control'' (sf_cache_control files) (resp_headers r);
          h = header_insert ''accept-ranges'' ''bytes'' h;
          h = insert_validators validators h;
          h = apply_representation_headers d content_encoding varies_by_encoding h in
      r\<lparr>resp_headers := h\<rparr>)"

definition static_range_not_satisfiable ::
  "static_files \<Rightarrow> cache_validators option \<Rightarrow> nat \<Rightarrow> response" where
  "static_range_not_satisfiable files validators len =
     (let r = response 416 empty_body;
          h = header_insert ''cache-control'' (sf_cache_control files) (resp_headers r);
          h = header_insert ''accept-ranges'' ''bytes'' h;
          h = header_insert ''content-range'' (unsatisfied_content_range_header len) h;
          h = insert_validators validators h in
      r\<lparr>resp_headers := h\<rparr>)"

definition static_not_found :: "deps \<Rightarrow> response" where
  "static_not_found d =
     error_into_response d (error_not_found ''the requested static resource was not found'')"

section \<open>Multipart byte ranges\<close>

text \<open>The boundary and the next value of the \<open>u64\<close> counter.\<close>

definition multipart_boundary :: "static_env \<Rightarrow> nat \<Rightarrow> string \<times> nat" where
  "multipart_boundary env counter =
     (let timestamp = (if env_now env < 0 then 0 else nat (env_now env)) in
      (''rustee-'' @ show_hex timestamp @ ''-'' @ show_hex counter, (counter + 1) mod u64_bound))"

abbreviation CRLF :: string where
  "CRLF \<equiv> [CHR 0x0D, CHR 0x0A]"

definition multipart_part_header :: "string \<Rightarrow> bytes \<Rightarrow> byte_range \<Rightarrow> nat \<Rightarrow> bytes" where
  "multipart_part_header boundary ct rng full_length =
     ''--'' @ boundary @ CRLF @ ''Content-Type: '' @ ct @ CRLF @
     ''Content-Range: bytes '' @ show_nat (br_start rng) @ ''-'' @ show_nat (br_end rng) @ ''/''
       @ show_nat full_length @ CRLF @ CRLF"

definition multipart_closing_boundary :: "string \<Rightarrow> string" where
  "multipart_closing_boundary boundary = ''--'' @ boundary @ ''--'' @ CRLF"

definition option_bind :: "'a option \<Rightarrow> ('a \<Rightarrow> 'b option) \<Rightarrow> 'b option" where
  "option_bind x f = (case x of None \<Rightarrow> None | Some y \<Rightarrow> f y)"

fun multipart_parts_length :: "string \<Rightarrow> bytes \<Rightarrow> byte_range list \<Rightarrow> nat \<Rightarrow> nat \<Rightarrow> nat option" where
  "multipart_parts_length boundary ct [] full_length len = Some len"
| "multipart_parts_length boundary ct (rng # ranges) full_length len =
     option_bind (checked_add u64_bound len (length (multipart_part_header boundary ct rng full_length)))
       (\<lambda>len. option_bind (checked_add u64_bound len (byte_range_len rng))
         (\<lambda>len. option_bind (checked_add u64_bound len 2)
           (\<lambda>len. multipart_parts_length boundary ct ranges full_length len)))"

definition multipart_content_length :: "string \<Rightarrow> bytes \<Rightarrow> byte_range list \<Rightarrow> nat \<Rightarrow> nat option" where
  "multipart_content_length boundary ct ranges full_length =
     option_bind (multipart_parts_length boundary ct ranges full_length 0)
       (\<lambda>len. checked_add u64_bound len (length (multipart_closing_boundary boundary)))"

fun multipart_chunks ::
  "static_env \<Rightarrow> file_system \<Rightarrow> path_buf \<Rightarrow> bytes \<Rightarrow> string \<Rightarrow> byte_range list \<Rightarrow> nat \<Rightarrow>
   bytes list \<times> body_error option" where
  "multipart_chunks env fs target ct boundary [] full_length =
     ([multipart_closing_boundary boundary], None)"
| "multipart_chunks env fs target ct boundary (rng # ranges) full_length =
     (let header = multipart_part_header boundary ct rng full_length in
      case fs_open fs target of
        None \<Rightarrow> ([header], Some OtherBodyError)
      | Some contents \<Rightarrow>
          if \<not> fs_seek_ok fs target (br_start rng) then ([header], Some OtherBodyError)
          else case env_reader_stream env STREAMING_CHUNK_BYTES
                      (take (byte_range_len rng) (drop (br_start rng) contents)) of
            (chunks, Some e) \<Rightarrow> (header # chunks, Some e)
          | (chunks, None) \<Rightarrow>
              (case multipart_chunks env fs target ct boundary ranges full_length of
                 (rest, failure) \<Rightarrow> (header # chunks @ CRLF # rest, failure)))"

definition multipart_file_body ::
  "static_env \<Rightarrow> file_system \<Rightarrow> path_buf \<Rightarrow> bytes \<Rightarrow> string \<Rightarrow> byte_range list \<Rightarrow> nat \<Rightarrow> body" where
  "multipart_file_body env fs target ct boundary ranges full_length =
     (case multipart_chunks env fs target ct boundary ranges full_length of
        (chunks, failure) \<Rightarrow> stream_body chunks failure)"

section \<open>Representation selection\<close>

definition variant_path :: "path_buf \<Rightarrow> content_coding \<Rightarrow> path_buf" where
  "variant_path target encoding = target @ coding_suffix encoding"

fun first_variant ::
  "file_system \<Rightarrow> static_files \<Rightarrow> path_buf \<Rightarrow> content_coding list \<Rightarrow> static_representation option" where
  "first_variant fs files target [] = None"
| "first_variant fs files target (encoding # encodings) =
     (case fs_canonicalize fs (variant_path target encoding) of
        None \<Rightarrow> first_variant fs files target encodings
      | Some t \<Rightarrow>
          if \<not> path_starts_with t (sf_root files) then first_variant fs files target encodings
          else case fs_metadata fs t of
            None \<Rightarrow> first_variant fs files target encodings
          | Some metadata \<Rightarrow>
              if meta_is_file metadata \<and> meta_len metadata \<le> sf_max_file_bytes files
              then Some \<lparr>rep_target = t, rep_meta = metadata, rep_encoding = Some encoding\<rparr>
              else first_variant fs files target encodings)"

definition select_precompressed_variant ::
  "deps \<Rightarrow> file_system \<Rightarrow> static_files \<Rightarrow> path_buf \<Rightarrow> header_map \<Rightarrow> static_representation option" where
  "select_precompressed_variant d fs files target headers =
     first_variant fs files target (preferred_precompressed_encodings d headers)"

section \<open>Reading the file\<close>

definition streaming_file_body ::
  "static_env \<Rightarrow> file_system \<Rightarrow> path_buf \<Rightarrow> nat \<Rightarrow> nat \<Rightarrow> body option" where
  "streaming_file_body env fs target offset len =
     (case fs_open fs target of
        None \<Rightarrow> None
      | Some contents \<Rightarrow>
          if \<not> fs_seek_ok fs target offset then None
          else case env_reader_stream env STREAMING_CHUNK_BYTES (take len (drop offset contents)) of
            (chunks, failure) \<Rightarrow> Some (stream_body chunks failure))"

definition read_file_range :: "file_system \<Rightarrow> path_buf \<Rightarrow> nat \<Rightarrow> nat \<Rightarrow> bytes option" where
  "read_file_range fs target offset len =
     (case fs_open fs target of
        None \<Rightarrow> None
      | Some contents \<Rightarrow>
          if \<not> fs_seek_ok fs target offset then None
          else if len \<ge> usize_bound then None
          else if length (drop offset contents) < len then None
          else Some (take len (drop offset contents)))"

definition static_file_body ::
  "static_env \<Rightarrow> file_system \<Rightarrow> path_buf \<Rightarrow> nat \<Rightarrow> nat \<Rightarrow> nat option \<Rightarrow> bool \<Rightarrow> body option" where
  "static_file_body env fs target offset len streaming_threshold full_representation =
     (if (case streaming_threshold of None \<Rightarrow> False | Some threshold \<Rightarrow> len \<ge> threshold)
      then streaming_file_body env fs target offset len
      else if full_representation then
        (case fs_read fs target of
           None \<Rightarrow> None
         | Some bytes \<Rightarrow> if length bytes = len then Some (full_body bytes) else None)
      else map_option full_body (read_file_range fs target offset len))"

definition read_static_body ::
  "static_env \<Rightarrow> file_system \<Rightarrow> static_representation \<Rightarrow> requested_range \<Rightarrow> bool \<Rightarrow> nat option \<Rightarrow>
   (nat \<times> byte_range option \<times> body) option" where
  "read_static_body env fs rep requested head streaming_threshold =
     (case requested of
        RangeFull \<Rightarrow>
          option_bind
            (if head then Some empty_body
             else static_file_body env fs (rep_target rep) 0 (meta_len (rep_meta rep))
                    streaming_threshold True)
            (\<lambda>b. Some (200, None, b))
      | RangePartial rng \<Rightarrow>
          option_bind
            (if head then Some empty_body
             else static_file_body env fs (rep_target rep) (br_start rng) (byte_range_len rng)
                    streaming_threshold False)
            (\<lambda>b. Some (206, Some rng, b))
      | _ \<Rightarrow> None)"

text \<open>\<open>serve_file\<close> is split at its early returns: resolution of the path, choice of the
  representation, and the response for it.\<close>

definition resolve_file ::
  "file_system \<Rightarrow> static_files \<Rightarrow> path_buf \<Rightarrow> (path_buf \<times> file_meta) option" where
  "resolve_file fs files relative =
     (if relative = [] then None
      else case fs_canonicalize fs (path_push (sf_root files) relative) of
        None \<Rightarrow> None
      | Some target \<Rightarrow>
          if \<not> path_starts_with target (sf_root files) then None
          else case fs_metadata fs target of
            None \<Rightarrow> None
          | Some metadata \<Rightarrow>
              if meta_is_file metadata \<and> meta_len metadata \<le> sf_max_file_bytes files
              then Some (target, metadata) else None)"

definition choose_representation ::
  "deps \<Rightarrow> file_system \<Rightarrow> static_files \<Rightarrow> header_map \<Rightarrow> bool \<Rightarrow> path_buf \<Rightarrow> file_meta \<Rightarrow>
   static_representation" where
  "choose_representation d fs files headers varies_by_encoding target metadata =
     (let identity = \<lparr>rep_target = target, rep_meta = metadata, rep_encoding = None\<rparr> in
      if varies_by_encoding then
        (case select_precompressed_variant d fs files target headers of
           Some variant \<Rightarrow> variant
         | None \<Rightarrow> identity)
      else identity)"

definition serve_representation ::
  "deps \<Rightarrow> static_env \<Rightarrow> file_system \<Rightarrow> static_response_context \<Rightarrow> bool \<Rightarrow> header_map \<Rightarrow> nat \<Rightarrow>
   response \<times> nat" where
  "serve_representation d env fs ctx head headers counter =
     (let files = ctx_files ctx; rep = ctx_representation ctx; validators = ctx_validators ctx;
          len = meta_len (rep_meta rep) in
      if is_not_modified d env headers validators
      then (static_not_modified d files validators (rep_encoding rep) (ctx_varies_by_encoding ctx), counter)
      else case requested_range d (env_parse_http_date env) headers len validators of
        RangeUnsatisfiable \<Rightarrow> (static_range_not_satisfiable files validators len, counter)
      | RangeMultipart ranges \<Rightarrow>
          (let (boundary, counter') = multipart_boundary env counter;
               ct = content_type (ctx_content_type_target ctx) in
           case multipart_content_length boundary ct ranges len of
             None \<Rightarrow> (static_range_not_satisfiable files validators len, counter')
           | Some n \<Rightarrow>
               (static_multipart_response ctx
                  (if head then empty_body
                   else multipart_file_body env fs (rep_target rep) ct boundary ranges len) n boundary,
                counter'))
      | requested \<Rightarrow>
          (case read_static_body env fs rep requested head (sf_streaming_threshold files) of
             None \<Rightarrow> (static_not_found d, counter)
           | Some (status, rng, b) \<Rightarrow>
               (static_success_response d ctx status b
                  (case rng of None \<Rightarrow> len | Some r \<Rightarrow> byte_range_len r) rng, counter)))"

definition serve_file ::
  "deps \<Rightarrow> static_env \<Rightarrow> file_system \<Rightarrow> static_files \<Rightarrow> path_buf \<Rightarrow> bool \<Rightarrow> header_map \<Rightarrow> nat \<Rightarrow>
   response \<times> nat" where
  "serve_file d env fs files relative head headers counter =
     (case resolve_file fs files relative of
        None \<Rightarrow> (static_not_found d, counter)
      | Some (target, metadata) \<Rightarrow>
          let varies = sf_precompressed_variants files \<and> \<not> contains_header headers ''range'';
              rep = choose_representation d fs files headers varies target metadata in
          serve_representation d env fs
            \<lparr>ctx_files = files, ctx_representation = rep,
             ctx_validators = cache_validators env (rep_meta rep),
             ctx_content_type_target = target, ctx_varies_by_encoding = varies\<rparr>
            head headers counter)"

section \<open>The layer\<close>

definition static_call ::
  "deps \<Rightarrow> static_env \<Rightarrow> file_system \<Rightarrow> static_files \<Rightarrow> (request \<Rightarrow> response) \<Rightarrow> request \<Rightarrow> nat \<Rightarrow>
   response \<times> nat" where
  "static_call d env fs files inner req counter =
     (if req_method req \<noteq> ''GET'' \<and> req_method req \<noteq> ''HEAD'' then (inner req, counter)
      else case relative_path files (uri_path (req_uri req)) of
        Inr None \<Rightarrow> (inner req, counter)
      | Inl _ \<Rightarrow> (static_not_found d, counter)
      | Inr (Some relative) \<Rightarrow>
          serve_file d env fs files relative (req_method req = ''HEAD'') (req_headers req) counter)"

section \<open>Lemmas\<close>

lemma option_bind_simps [simp]: "option_bind None f = None" "option_bind (Some x) f = f x"
  by (simp_all add: option_bind_def)

lemma option_bind_Some [simp]: "option_bind m f = Some y \<longleftrightarrow> (\<exists>x. m = Some x \<and> f x = Some y)"
  by (cases m) auto

subsection \<open>Entity tags\<close>

lemma etag_text_inj: "etag_text n t = etag_text m u \<Longrightarrow> n = m \<and> t = u"
proof -
  assume eq: "etag_text n t = etag_text m u"
  have dash: "CHR ''-'' \<notin> set (show_hex k)" for k
    using show_hex_chars by (fastforce simp: in_codes_def)
  have parts: "split_on (CHR ''-'') (show_hex k @ ''-'' @ show_hex s @ ''-'' @ show_hex f @ [CHR 0x22]) =
      [show_hex k, show_hex s, show_hex f @ [CHR 0x22]]" for k s f
    using split_on_append_sep [OF dash, of k] split_on_append_sep [OF dash, of s]
      split_on_no_occ [of "CHR ''-''" "show_hex f @ [CHR 0x22]"] dash by simp
  from eq have "split_on (CHR ''-'') (drop 3 (etag_text n t)) = split_on (CHR ''-'') (drop 3 (etag_text m u))"
    by simp
  then have "show_hex n = show_hex m" "show_hex (as_secs t) = show_hex (as_secs u)"
    "show_hex (subsec_nanos t) = show_hex (subsec_nanos u)"
    using parts by (simp_all add: etag_text_def)
  then have "n = m" "as_secs t = as_secs u" "subsec_nanos t = subsec_nanos u"
    using show_base_inj [of 16] by auto
  moreover have "t = u" if "as_secs t = as_secs u" "subsec_nanos t = subsec_nanos u"
    using that unfolding as_secs_def subsec_nanos_def by (metis div_mult_mod_eq)
  ultimately show ?thesis by simp
qed

lemma etag_text_chars: "c \<in> set (etag_text n t) \<Longrightarrow> plain_char c \<and> c \<noteq> CHR '',''"
  by (auto simp: etag_text_def plain_char_def ws1_def in_codes_def dest!: show_hex_chars)

lemma etag_text_trim: "trim (etag_text n t) = etag_text n t"
  by (rule trim_plain) (simp add: list_all_iff etag_text_chars)

lemma strip_weak_etag: "strip_weak_prefix (etag_text n t) = drop 2 (etag_text n t)"
  by (simp add: strip_weak_prefix_def etag_text_trim) (simp add: etag_text_def strip_prefix_def)

lemma weak_etag_text: "weak_etag_matches (etag_text n t) (etag_text m u) \<longleftrightarrow> n = m \<and> t = u"
proof
  assume "weak_etag_matches (etag_text n t) (etag_text m u)"
  then have "''W/'' @ drop 2 (etag_text n t) = ''W/'' @ drop 2 (etag_text m u)"
    by (simp add: weak_etag_matches_def strip_weak_etag)
  moreover have "''W/'' @ drop 2 (etag_text k s) = etag_text k s" for k s
    by (simp add: etag_text_def)
  ultimately have "etag_text n t = etag_text m u" by (simp only:)
  then show "n = m \<and> t = u" by (rule etag_text_inj)
qed (simp add: weak_etag_matches_def)

lemma if_none_match_etag:
  assumes "header_to_str d (etag_text n t) = Some (etag_text n t)"
    "header_to_str d (cv_etag v) = Some (etag_text m u)"
    "headers ''if-none-match'' = [etag_text n t]"
  shows "if_none_match d headers (Some v) = Some (n = m \<and> t = u)"
proof -
  have "CHR '','' \<notin> set (etag_text n t)" using etag_text_chars by blast
  moreover have "etag_text n t \<noteq> ''*''" by (simp add: etag_text_def)
  ultimately show ?thesis using assms
    by (auto simp: if_none_match_def list_field_has_def split_on_no_occ etag_text_trim weak_etag_text)
qed

lemma cache_validators_Some:
  "cache_validators env m = Some v \<Longrightarrow>
   \<exists>t\<ge>0. meta_modified m = Some t \<and> cv_etag v = etag_text (meta_len m) (nat t) \<and> cv_modified v = t"
  by (auto simp: cache_validators_def Let_def split: option.splits if_splits)

subsection \<open>Confinement\<close>

definition admissible :: "file_system \<Rightarrow> static_files \<Rightarrow> static_representation \<Rightarrow> bool" where
  "admissible fs files rep \<longleftrightarrow>
     path_starts_with (rep_target rep) (sf_root files) \<and>
     fs_metadata fs (rep_target rep) = Some (rep_meta rep) \<and>
     meta_is_file (rep_meta rep) \<and> meta_len (rep_meta rep) \<le> sf_max_file_bytes files"

lemma resolve_file_Some:
  "resolve_file fs files relative = Some (t, m) \<Longrightarrow>
   admissible fs files \<lparr>rep_target = t, rep_meta = m, rep_encoding = e\<rparr>"
  by (auto simp: resolve_file_def admissible_def split: if_splits option.splits)

lemma first_variant_Some:
  "first_variant fs files t es = Some rep \<Longrightarrow> admissible fs files rep \<and> rep_encoding rep \<noteq> None"
  by (induction fs files t es rule: first_variant.induct)
     (auto simp: admissible_def split: if_splits option.splits)

lemma choose_representation_admissible:
  "resolve_file fs files relative = Some (t, m) \<Longrightarrow>
   admissible fs files (choose_representation d fs files h varies t m)"
  by (auto simp: choose_representation_def select_precompressed_variant_def Let_def
      dest: resolve_file_Some first_variant_Some split: option.splits)

text \<open>Two states of the operating system that a client of the root cannot tell apart.\<close>

definition same_below :: "path_buf \<Rightarrow> file_system \<Rightarrow> file_system \<Rightarrow> bool" where
  "same_below root fs fs' \<longleftrightarrow>
     fs_canonicalize fs' = fs_canonicalize fs \<and>
     (\<forall>p. path_starts_with p root \<longrightarrow>
        fs_metadata fs' p = fs_metadata fs p \<and> fs_read fs' p = fs_read fs p \<and>
        fs_open fs' p = fs_open fs p \<and> fs_seek_ok fs' p = fs_seek_ok fs p)"

lemma resolve_file_same:
  "same_below (sf_root files) fs fs' \<Longrightarrow> resolve_file fs' files relative = resolve_file fs files relative"
  by (auto simp: resolve_file_def same_below_def split: option.splits)

lemma first_variant_same:
  "same_below (sf_root files) fs fs' \<Longrightarrow> first_variant fs' files t es = first_variant fs files t es"
  by (induction es) (auto simp: same_below_def split: option.splits)

lemma multipart_chunks_same:
  assumes "fs_open fs' t = fs_open fs t" "fs_seek_ok fs' t = fs_seek_ok fs t"
  shows "multipart_chunks env fs' t ct b rs n = multipart_chunks env fs t ct b rs n"
  by (induction rs) (auto simp: assms Let_def split: option.splits prod.splits)

lemma serve_representation_same:
  assumes "same_below (sf_root files) fs fs'"
    and "path_starts_with (rep_target (ctx_representation ctx)) (sf_root files)"
  shows "serve_representation d env fs' ctx head h n = serve_representation d env fs ctx head h n"
proof -
  let ?t = "rep_target (ctx_representation ctx)"
  have same: "fs_read fs' ?t = fs_read fs ?t" "fs_open fs' ?t = fs_open fs ?t"
    "fs_seek_ok fs' ?t = fs_seek_ok fs ?t" using assms by (auto simp: same_below_def)
  then have body: "static_file_body env fs' ?t off len thr full = static_file_body env fs ?t off len thr full"
    for off len thr full
    by (simp add: static_file_body_def streaming_file_body_def read_file_range_def cong: option.case_cong)
  have "read_static_body env fs' (ctx_representation ctx) req head thr =
      read_static_body env fs (ctx_representation ctx) req head thr" for req thr
    by (simp add: read_static_body_def body split: requested_range.splits)
  moreover have "multipart_file_body env fs' ?t ct b rs len = multipart_file_body env fs ?t ct b rs len"
    for ct b rs len by (simp add: multipart_file_body_def multipart_chunks_same [OF same(2,3)])
  ultimately show ?thesis
    by (cases "requested_range d (env_parse_http_date env) h
          (meta_len (rep_meta (ctx_representation ctx))) (ctx_validators ctx)")
       (simp_all add: serve_representation_def Let_def split_def cong: option.case_cong)
qed

lemma serve_file_same:
  assumes "same_below (sf_root files) fs fs'"
  shows "serve_file d env fs' files relative head h n = serve_file d env fs files relative head h n"
proof (cases "resolve_file fs files relative")
  case None
  show ?thesis unfolding serve_file_def resolve_file_same [OF assms] None option.case ..
next
  case (Some tm)
  obtain t m where tm: "tm = (t, m)" by force
  have choose: "choose_representation d fs' files h varies t m = choose_representation d fs files h varies t m"
    for varies by (simp add: choose_representation_def select_precompressed_variant_def
        first_variant_same [OF assms] Let_def)
  have under: "path_starts_with (rep_target (choose_representation d fs files h varies t m)) (sf_root files)"
    for varies using choose_representation_admissible [of fs files relative t m] Some tm by (simp add: admissible_def)
  show ?thesis
    unfolding serve_file_def resolve_file_same [OF assms] Some tm option.case prod.case Let_def choose
    by (rule serve_representation_same [OF assms]) (simp add: under)
qed

subsection \<open>Delivered bytes\<close>

text \<open>Documented behaviour of the environment while a request is served: an existing file has the
  length its metadata says and can be opened, read and positioned; a reader stream yields all of
  its input.\<close>

definition fs_stable :: "file_system \<Rightarrow> bool" where
  "fs_stable fs \<longleftrightarrow>
     (\<forall>t m. fs_metadata fs t = Some m \<and> meta_is_file m \<longrightarrow>
        meta_len m < u64_bound \<and> (\<forall>n. fs_seek_ok fs t n) \<and>
        (\<exists>contents. fs_read fs t = Some contents \<and> fs_open fs t = Some contents \<and>
           length contents = meta_len m))"

definition reader_complete :: "static_env \<Rightarrow> bool" where
  "reader_complete env \<longleftrightarrow>
     (\<forall>capacity input. \<exists>chunks. env_reader_stream env capacity input = (chunks, None) \<and> concat chunks = input)"

definition range_slice :: "byte_range \<Rightarrow> bytes \<Rightarrow> bytes" where
  "range_slice rng contents = take (byte_range_len rng) (drop (br_start rng) contents)"

definition multipart_framing :: "string \<Rightarrow> bytes \<Rightarrow> byte_range list \<Rightarrow> bytes \<Rightarrow> bytes" where
  "multipart_framing boundary ct ranges contents =
     concat (map (\<lambda>r. multipart_part_header boundary ct r (length contents) @ range_slice r contents @ CRLF) ranges)
       @ multipart_closing_boundary boundary"

lemma length_slice: "range_within (length contents) r \<Longrightarrow> length (range_slice r contents) = byte_range_len r"
  by (auto simp: range_slice_def range_within_def byte_range_len_def)

lemma reader_completeE:
  assumes "reader_complete env"
  obtains chunks where "env_reader_stream env capacity input = (chunks, None)" "concat chunks = input"
  using assms unfolding reader_complete_def by blast

lemma multipart_chunks_framing:
  assumes "fs_open fs t = Some contents" "\<forall>n. fs_seek_ok fs t n" "reader_complete env"
  shows "\<exists>chunks. multipart_chunks env fs t ct boundary ranges (length contents) = (chunks, None) \<and>
    concat chunks = multipart_framing boundary ct ranges contents"
proof (induction ranges)
  case (Cons r ranges)
  then obtain rest where rest: "multipart_chunks env fs t ct boundary ranges (length contents) = (rest, None)"
    "concat rest = multipart_framing boundary ct ranges contents" by blast
  obtain chunks where "env_reader_stream env STREAMING_CHUNK_BYTES (range_slice r contents) = (chunks, None)"
    "concat chunks = range_slice r contents" using reader_completeE [OF assms(3)] .
  with rest show ?case using assms
    by (simp add: Let_def range_slice_def multipart_framing_def)
qed (simp add: multipart_framing_def)

lemma multipart_parts_length_eq:
  assumes "\<forall>r\<in>set ranges. range_within (length contents) r"
    and "multipart_parts_length boundary ct ranges (length contents) len = Some n"
  shows "n + length (multipart_closing_boundary boundary) =
    len + length (multipart_framing boundary ct ranges contents)"
  using assms
proof (induction ranges arbitrary: len)
  case (Cons r ranges)
  let ?h = "length (multipart_part_header boundary ct r (length contents))"
  from Cons.prems(2) have "multipart_parts_length boundary ct ranges (length contents)
      (len + ?h + byte_range_len r + 2) = Some n"
    by (auto simp: checked_add_Some)
  from Cons.IH [OF _ this] Cons.prems(1) length_slice [of contents r] show ?case
    by (simp add: multipart_framing_def)
qed (simp add: multipart_framing_def)

lemma multipart_content_length_eq:
  assumes "\<forall>r\<in>set ranges. range_within (length contents) r"
    and "multipart_content_length boundary ct ranges (length contents) = Some n"
  shows "n = length (multipart_framing boundary ct ranges contents)"
  using assms multipart_parts_length_eq [OF assms(1), of boundary ct 0]
  by (auto simp: multipart_content_length_def checked_add_Some)

lemma streaming_file_body_bytes:
  assumes "fs_open fs t = Some contents" "\<forall>n. fs_seek_ok fs t n" "reader_complete env"
  shows "\<exists>b. streaming_file_body env fs t off len = Some b \<and> body_bytes b = take len (drop off contents)"
proof -
  obtain chunks where "env_reader_stream env STREAMING_CHUNK_BYTES (take len (drop off contents)) = (chunks, None)"
    "concat chunks = take len (drop off contents)" using reader_completeE [OF assms(3)] .
  with assms show ?thesis by (simp add: streaming_file_body_def stream_body_def)
qed

lemma static_file_body_full:
  assumes "fs_read fs t = Some contents" "fs_open fs t = Some contents" "\<forall>n. fs_seek_ok fs t n"
    "reader_complete env"
  shows "\<exists>b. static_file_body env fs t 0 (length contents) thr True = Some b \<and> body_bytes b = contents"
  using streaming_file_body_bytes [OF assms(2-4), of 0 "length contents"] assms(1)
  by (auto simp: static_file_body_def full_body_def)

lemma static_file_body_slice:
  assumes "fs_open fs t = Some contents" "\<forall>n. fs_seek_ok fs t n" "reader_complete env"
    and "range_within (length contents) r" "length contents < u64_bound"
  shows "\<exists>b. static_file_body env fs t (br_start r) (byte_range_len r) thr False = Some b \<and>
    body_bytes b = range_slice r contents"
proof -
  have "byte_range_len r < usize_bound" "\<not> length contents - br_start r < byte_range_len r"
    using assms(4,5) by (auto simp: range_within_def byte_range_len_def)
  then show ?thesis
    using streaming_file_body_bytes [OF assms(1-3), of "br_start r" "byte_range_len r"] assms(1,2)
    by (auto simp: static_file_body_def read_file_range_def range_slice_def full_body_def)
qed

lemma requested_range_selected:
  assumes "len < u64_bound" "requested_range d p h len v = RangePartial r \<and> rs = [r] \<or>
    requested_range d p h len v = RangeMultipart rs"
  shows "rs \<noteq> [] \<and> length rs \<le> MAX_MULTIPART_RANGES \<and> separated rs \<and> (\<forall>r\<in>set rs. range_within len r)"
proof -
  have "\<exists>spec. requested_range d p h len v \<in> {RangeFull, RangeUnsatisfiable, parse_range_set spec len}"
    by (auto simp: requested_range_def split: list.splits option.splits if_splits)
  with assms(2) obtain spec where
    "parse_range_set spec len = RangePartial r \<and> rs = [r] \<or> parse_range_set spec len = RangeMultipart rs"
    by fastforce
  from parse_range_set_selected [OF assms(1) this] show ?thesis by blast
qed

lemma response_ok_body [simp]: "resp_body (response 200 b) = b" "resp_body (response 206 b) = b"
  by (simp_all add: response_def status_disallows_body_def)

lemma add_vary_accept_encoding_other [simp]:
  "name \<noteq> ''vary'' \<Longrightarrow> add_vary_accept_encoding d h name = h name"
  by (simp add: add_vary_accept_encoding_def)

lemma static_success_response_fields:
  "resp_status (static_success_response d ctx status b len rng) = status"
  "resp_body (static_success_response d ctx status b len rng) = resp_body (response status b)"
  "resp_headers (static_success_response d ctx status b len rng) ''content-length'' = [show_nat len]"
  "resp_headers (static_success_response d ctx status b len (Some r)) ''content-range'' =
     [content_range_header r (meta_len (rep_meta (ctx_representation ctx)))]"
  by (simp_all add: static_success_response_def Let_def apply_representation_headers_def
      insert_validators_def split: option.splits)

lemma static_multipart_response_fields:
  "resp_status (static_multipart_response ctx b len boundary) = 206"
  "resp_body (static_multipart_response ctx b len boundary) = b"
  "resp_headers (static_multipart_response ctx b len boundary) ''content-length'' = [show_nat len]"
  "resp_headers (static_multipart_response ctx b len boundary) ''content-type'' =
     [''multipart/byteranges; boundary='' @ boundary]"
  by (simp_all add: static_multipart_response_def Let_def insert_validators_def split: option.splits)

lemma static_other_status [simp]:
  "resp_status (static_not_found d) = 404"
  "resp_status (static_not_modified d files v e varies) = 304"
  "resp_status (static_range_not_satisfiable files v len) = 416"
  by (simp_all add: static_not_found_def error_not_found_def static_not_modified_def
      static_range_not_satisfiable_def Let_def)

text \<open>What a successful answer for a representation with given contents may be.\<close>

definition delivers :: "path_buf \<Rightarrow> bytes \<Rightarrow> response \<Rightarrow> bool" where
  "delivers name contents r \<longleftrightarrow>
     resp_headers r ''content-length'' = [show_nat (length (body_bytes (resp_body r)))] \<and>
     (resp_status r = 200 \<and> body_bytes (resp_body r) = contents
      \<or> resp_status r = 206 \<and>
        (\<exists>rng. range_within (length contents) rng \<and> body_bytes (resp_body r) = range_slice rng contents \<and>
           resp_headers r ''content-range'' = [content_range_header rng (length contents)])
      \<or> resp_status r = 206 \<and>
        (\<exists>ranges boundary. separated ranges \<and> (\<forall>g\<in>set ranges. range_within (length contents) g) \<and>
           body_bytes (resp_body r) = multipart_framing boundary (content_type name) ranges contents \<and>
           resp_headers r ''content-type'' = [''multipart/byteranges; boundary='' @ boundary]))"

lemma serve_representation_delivers:
  assumes "fs_read fs t = Some contents" "fs_open fs t = Some contents" "\<forall>n. fs_seek_ok fs t n"
    and "reader_complete env" "length contents < u64_bound"
    and "rep_target (ctx_representation ctx) = t" "meta_len (rep_meta (ctx_representation ctx)) = length contents"
    and "serve_representation d env fs ctx False h n = (r, n')" "resp_status r \<in> {200, 206}"
  shows "delivers (ctx_content_type_target ctx) contents r"
proof -
  let ?rr = "requested_range d (env_parse_http_date env) h (length contents) (ctx_validators ctx)"
  have nm: "\<not> is_not_modified d env h (ctx_validators ctx)"
    using assms(8,9) by (auto simp: serve_representation_def Let_def)
  show ?thesis
  proof (cases ?rr)
    case RangeFull
    obtain b where "static_file_body env fs t 0 (length contents)
        (sf_streaming_threshold (ctx_files ctx)) True = Some b" "body_bytes b = contents"
      using static_file_body_full [OF assms(1-4)] by blast
    with RangeFull nm assms(6-8)
    have "r = static_success_response d ctx 200 b (length contents) None" "body_bytes b = contents"
      by (auto simp: serve_representation_def Let_def read_static_body_def)
    then show ?thesis by (simp add: delivers_def static_success_response_fields)
  next
    case (RangePartial g)
    with requested_range_selected [OF assms(5) disjI1 [OF conjI], of d _ h _ g]
    have g: "range_within (length contents) g" by simp
    obtain b where "static_file_body env fs t (br_start g) (byte_range_len g)
        (sf_streaming_threshold (ctx_files ctx)) False = Some b" "body_bytes b = range_slice g contents"
      using static_file_body_slice [OF assms(2-4) g assms(5)] by blast
    with RangePartial nm assms(6-8)
    have "r = static_success_response d ctx 206 b (byte_range_len g) (Some g)" "body_bytes b = range_slice g contents"
      by (auto simp: serve_representation_def Let_def read_static_body_def)
    then show ?thesis using g assms(7)
      by (auto simp: delivers_def static_success_response_fields length_slice)
  next
    case (RangeMultipart ranges)
    from requested_range_selected [OF assms(5) disjI2 [OF this]]
    have g: "separated ranges" "\<forall>g\<in>set ranges. range_within (length contents) g" by simp_all
    obtain boundary c where bd: "multipart_boundary env n = (boundary, c)" by force
    let ?ct = "content_type (ctx_content_type_target ctx)"
    let ?b = "multipart_file_body env fs t ?ct boundary ranges (length contents)"
    from RangeMultipart nm assms(6-9) bd obtain len
      where len: "multipart_content_length boundary ?ct ranges (length contents) = Some len"
        and r: "r = static_multipart_response ctx ?b len boundary"
      by (auto simp: serve_representation_def Let_def split: option.splits)
    have "body_bytes ?b = multipart_framing boundary ?ct ranges contents"
      using multipart_chunks_framing [OF assms(2-4), of ?ct boundary ranges]
      by (auto simp: multipart_file_body_def stream_body_def)
    moreover have "len = length (multipart_framing boundary ?ct ranges contents)"
      using multipart_content_length_eq [OF g(2) len] .
    ultimately show ?thesis using g r by (auto simp: delivers_def static_multipart_response_fields)
  next
    case RangeUnsatisfiable
    with nm assms(7-9) show ?thesis by (auto simp: serve_representation_def Let_def)
  qed
qed


lemma serve_file_resolved:
  assumes "resolve_file fs files relative = Some (t, m)"
  obtains ctx where
    "\<forall>head n. serve_file d env fs files relative head h n = serve_representation d env fs ctx head h n"
    "admissible fs files (ctx_representation ctx)" "ctx_content_type_target ctx = t"
proof -
  let ?varies = "sf_precompressed_variants files \<and> h ''range'' = []"
  let ?rep = "choose_representation d fs files h ?varies t m"
  let ?ctx = "\<lparr>ctx_files = files, ctx_representation = ?rep,
    ctx_validators = cache_validators env (rep_meta ?rep), ctx_content_type_target = t,
    ctx_varies_by_encoding = ?varies\<rparr>"
  show thesis
    by (rule that [of ?ctx])
       (simp_all add: serve_file_def Let_def assms choose_representation_admissible [OF assms])
qed

lemma admissible_stable:
  assumes "fs_stable fs" "admissible fs files rep"
  obtains contents where "fs_read fs (rep_target rep) = Some contents"
    "fs_open fs (rep_target rep) = Some contents" "\<forall>n. fs_seek_ok fs (rep_target rep) n"
    "length contents = meta_len (rep_meta rep)" "length contents < u64_bound"
    "length contents \<le> sf_max_file_bytes files"
  using assms unfolding fs_stable_def admissible_def by metis

subsection \<open>Properties\<close>

text \<open>C3. Files outside the configured root never influence an answer of the layer: if two states
  of the operating system resolve paths alike and agree on everything below the root, the layer
  answers every request identically.\<close>

theorem static_call_confined:
  assumes "same_below (sf_root files) fs fs'"
  shows "static_call d env fs' files inner req n = static_call d env fs files inner req n"
  by (simp add: static_call_def serve_file_same [OF assms] cong: sum.case_cong option.case_cong)

definition sample_fs :: file_system where
  "sample_fs = \<lparr>fs_canonicalize = Some,
     fs_metadata = [''/srv/a.txt'' \<mapsto> \<lparr>meta_is_file = True, meta_is_dir = False, meta_len = 5,
       meta_modified = Some 0\<rparr>],
     fs_read = [''/srv/a.txt'' \<mapsto> ''hello'', ''/etc/passwd'' \<mapsto> ''root''],
     fs_open = [''/srv/a.txt'' \<mapsto> ''hello''], fs_seek_ok = (\<lambda>_ _. True)\<rparr>"

definition sample_env :: static_env where
  "sample_env = \<lparr>env_parse_http_date = (\<lambda>_. None), env_fmt_http_date = (\<lambda>_. ''date''),
     env_header_value_ok = (\<lambda>_. True), env_reader_stream = (\<lambda>_ input. ([input], None)), env_now = 0\<rparr>"

lemma static_call_confined_witness:
  "\<forall>inner req n. static_call sample_deps sample_env
     (sample_fs\<lparr>fs_read := (fs_read sample_fs)(''/etc/passwd'' := None)\<rparr>) sample_files inner req n =
   static_call sample_deps sample_env sample_fs sample_files inner req n"
proof (intro allI)
  have "\<not> path_starts_with ''/etc/passwd'' ''/srv''"
    by (simp add: path_starts_with_def path_components_def is_absolute_def)
  then have "same_below (sf_root sample_files) sample_fs
      (sample_fs\<lparr>fs_read := (fs_read sample_fs)(''/etc/passwd'' := None)\<rparr>)"
    by (auto simp: same_below_def sample_files_def)
  then show "static_call sample_deps sample_env
     (sample_fs\<lparr>fs_read := (fs_read sample_fs)(''/etc/passwd'' := None)\<rparr>) sample_files inner req n =
   static_call sample_deps sample_env sample_fs sample_files inner req n" for inner req n
    by (rule static_call_confined)
qed

text \<open>C18. While files do not change during a request, a successful GET delivers the bytes of one
  regular file below the root and within the size limit: all of them with status 200, the
  requested range with its \<open>Content-Range\<close>, or the requested ranges in multipart framing; in each
  case \<open>Content-Length\<close> is exactly the length of the body.\<close>

theorem serve_file_delivers:
  assumes "fs_stable fs" "reader_complete env"
    and "serve_file d env fs files relative False h n = (r, n')" "resp_status r \<in> {200, 206}"
  shows "\<exists>t m rep contents. resolve_file fs files relative = Some (t, m) \<and>
    admissible fs files rep \<and> fs_read fs (rep_target rep) = Some contents \<and>
    length contents \<le> sf_max_file_bytes files \<and> delivers t contents r"
proof -
  from assms(3,4) obtain t m where tm: "resolve_file fs files relative = Some (t, m)"
    by (auto simp: serve_file_def split: option.splits)
  then obtain ctx where
    ctx: "\<forall>head n. serve_file d env fs files relative head h n = serve_representation d env fs ctx head h n"
      "admissible fs files (ctx_representation ctx)" "ctx_content_type_target ctx = t"
    by (rule serve_file_resolved [where d = d and env = env and h = h])
  from admissible_stable [OF assms(1) ctx(2)] obtain contents where
    c: "fs_read fs (rep_target (ctx_representation ctx)) = Some contents"
      "fs_open fs (rep_target (ctx_representation ctx)) = Some contents"
      "\<forall>n. fs_seek_ok fs (rep_target (ctx_representation ctx)) n"
      "length contents = meta_len (rep_meta (ctx_representation ctx))" "length contents < u64_bound"
      "length contents \<le> sf_max_file_bytes files" .
  from ctx(1) assms(3) have "serve_representation d env fs ctx False h n = (r, n')" by simp
  then have "delivers (ctx_content_type_target ctx) contents r"
    by (rule serve_representation_delivers [OF c(1-3) assms(2) c(5) refl c(4) [symmetric] _ assms(4)])
  with tm ctx(2,3) c show ?thesis by blast
qed

lemma sample_stable: "fs_stable sample_fs" "reader_complete sample_env"
  by (auto simp: fs_stable_def reader_complete_def sample_fs_def sample_env_def split: if_splits)

definition range_headers :: header_map where
  "range_headers = no_headers(''range'' := [''bytes=1-3''])"

lemma sample_requested_range:
  "requested_range sample_deps p range_headers 5 v = RangePartial \<lparr>br_start = 1, br_end = 3\<rparr>"
  by (simp add: requested_range_def range_headers_def no_headers_def sample_deps_def if_range_matches_def
      parse_range_set_def parse_range_member_def trim_eval parse_eval case_eval Let_def)

lemma sample_resolve:
  "resolve_file sample_fs sample_files ''a.txt'' =
     Some (''/srv/a.txt'', \<lparr>meta_is_file = True, meta_is_dir = False, meta_len = 5, meta_modified = Some 0\<rparr>)"
  by (simp add: resolve_file_def sample_fs_def sample_files_def path_push_def is_absolute_def
      path_starts_with_def path_components_def)

lemma sample_unconditional: "\<not> is_not_modified sample_deps sample_env range_headers v"
  by (simp add: is_not_modified_def if_none_match_def if_modified_since_def range_headers_def
      no_headers_def split: option.splits)

lemma sample_partial:
  "\<exists>r. serve_file sample_deps sample_env sample_fs sample_files ''a.txt'' False range_headers 0 = (r, 0) \<and>
     resp_status r = 206 \<and> body_bytes (resp_body r) = ''ell''"
proof -
  have s: "static_file_body sample_env sample_fs ''/srv/a.txt'' (Suc 0) 3 None False = Some (FullBody ''ell'')"
    by (simp add: static_file_body_def read_file_range_def sample_fs_def full_body_def)
  have f: "sf_precompressed_variants sample_files = False" "sf_streaming_threshold sample_files = None"
    by (simp_all add: sample_files_def)
  show ?thesis
    by (simp add: serve_file_def sample_resolve Let_def serve_representation_def sample_requested_range
        sample_unconditional choose_representation_def read_static_body_def byte_range_len_def s
        static_success_response_fields f)
qed

lemma serve_file_delivers_witness:
  "\<exists>r rep contents t. serve_file sample_deps sample_env sample_fs sample_files ''a.txt'' False range_headers 0 = (r, 0) \<and>
     body_bytes (resp_body r) = ''ell'' \<and> admissible sample_fs sample_files rep \<and> delivers t contents r"
proof -
  obtain r where r: "serve_file sample_deps sample_env sample_fs sample_files ''a.txt'' False range_headers 0 = (r, 0)"
    "resp_status r = 206" "body_bytes (resp_body r) = ''ell''" using sample_partial by blast
  have "resp_status r \<in> {200, 206}" using r by simp
  from serve_file_delivers [OF sample_stable r(1) this] r show ?thesis by blast
qed



text \<open>Revalidation is exact: a client that repeats a request with the \<open>ETag\<close> of an earlier
  answer is told that the file is unmodified precisely when neither its length nor its
  modification time has changed, whatever \<open>If-Modified-Since\<close> says.\<close>

theorem is_not_modified_etag:
  assumes "cache_validators env before = Some v" "cache_validators env now = Some w"
    and "header_to_str d (cv_etag v) = Some (cv_etag v)" "header_to_str d (cv_etag w) = Some (cv_etag w)"
    and "h ''if-none-match'' = [cv_etag v]"
  shows "is_not_modified d env h (Some w) \<longleftrightarrow>
    meta_len before = meta_len now \<and> meta_modified before = meta_modified now"
proof -
  from cache_validators_Some [OF assms(1)] obtain t where
    t: "0 \<le> t" "meta_modified before = Some t" "cv_etag v = etag_text (meta_len before) (nat t)" by blast
  from cache_validators_Some [OF assms(2)] obtain u where
    u: "0 \<le> u" "meta_modified now = Some u" "cv_etag w = etag_text (meta_len now) (nat u)" by blast
  have "if_none_match d h (Some w) = Some (meta_len before = meta_len now \<and> nat t = nat u)"
    using if_none_match_etag [of d "meta_len before" "nat t" w "meta_len now" "nat u" h] assms(3-5) t u by simp
  then show ?thesis using t u by (auto simp: is_not_modified_def)
qed

lemma is_not_modified_etag_witness:
  "\<exists>v. cache_validators sample_env \<lparr>meta_is_file = True, meta_is_dir = False, meta_len = 5, meta_modified = Some 0\<rparr> = Some v \<and>
     is_not_modified sample_deps sample_env (no_headers(''if-none-match'' := [cv_etag v])) (Some v)"
proof -
  let ?m = "\<lparr>meta_is_file = True, meta_is_dir = False, meta_len = 5, meta_modified = Some 0\<rparr>"
  obtain v where v: "cache_validators sample_env ?m = Some v"
    by (simp add: cache_validators_def sample_env_def Let_def)
  have h: "header_to_str sample_deps x = Some x" for x by (simp add: sample_deps_def)
  show ?thesis
    using is_not_modified_etag [OF v v h h, of "no_headers(''if-none-match'' := [cv_etag v])"] v by auto
qed

end
