(* ===== verification/IpParse.thy ===== *)
theory IpParse
  imports Http
begin

text \<open>
  \<open>IpAddr::from_str\<close> of the standard library, which the trusted-proxy layer applies to
  client-supplied text: the recursive-descent reader of \<open>core::net\<close> for dotted-quad IPv4 and
  for IPv6 with \<open>::\<close> and a trailing embedded IPv4 part.

  A reader takes the remaining text and returns a value with the text after it, or fails without
  consuming anything.
\<close>

section \<open>Readers\<close>

type_synonym 'a reader = "string \<Rightarrow> ('a \<times> string) option"

definition digit_of :: "nat \<Rightarrow> char \<Rightarrow> nat option" where
  "digit_of radix c =
     (let d = (if in_codes 48 57 c then Some (code_of c - 48)
               else if in_codes 97 122 c then Some (code_of c - 97 + 10)
               else if in_codes 65 90 c then Some (code_of c - 65 + 10)
               else None) in
      case d of None \<Rightarrow> None | Some n \<Rightarrow> if n < radix then Some n else None)"

text \<open>Greedy digits: value, number of digits and rest; too many digits fail.\<close>

fun read_digits :: "nat \<Rightarrow> nat \<Rightarrow> nat \<Rightarrow> nat \<Rightarrow> string \<Rightarrow> (nat \<times> nat \<times> string) option" where
  "read_digits radix max_digits acc count [] = Some (acc, count, [])"
| "read_digits radix max_digits acc count (c # cs) =
     (case digit_of radix c of
        None \<Rightarrow> Some (acc, count, c # cs)
      | Some n \<Rightarrow>
          if count + 1 > max_digits then None
          else read_digits radix max_digits (acc * radix + n) (count + 1) cs)"

definition read_number :: "nat \<Rightarrow> nat \<Rightarrow> bool \<Rightarrow> nat \<Rightarrow> nat reader" where
  "read_number radix max_digits allow_zero_prefix bound s =
     (case read_digits radix max_digits 0 0 s of
        None \<Rightarrow> None
      | Some (n, count, rest) \<Rightarrow>
          if n \<ge> bound \<or> count = 0 then None
          else if \<not> allow_zero_prefix \<and> starts_with ''0'' s \<and> count > 1 then None
          else Some (n, rest))"

definition read_given_char :: "char \<Rightarrow> unit reader" where
  "read_given_char c s = (case s of [] \<Rightarrow> None | x # xs \<Rightarrow> if x = c then Some ((), xs) else None)"

definition read_separator :: "char \<Rightarrow> nat \<Rightarrow> 'a reader \<Rightarrow> 'a reader" where
  "read_separator sep index inner s =
     (if index > 0 then
        (case read_given_char sep s of None \<Rightarrow> None | Some (_, rest) \<Rightarrow> inner rest)
      else inner s)"

fun read_octets :: "nat \<Rightarrow> nat \<Rightarrow> nat list reader" where
  "read_octets index 0 s = Some ([], s)"
| "read_octets index (Suc n) s =
     (case read_separator (CHR ''.'') index (read_number 10 3 False 256) s of
        None \<Rightarrow> None
      | Some (octet, rest) \<Rightarrow>
          (case read_octets (index + 1) n rest of
             None \<Rightarrow> None
           | Some (octets, rest') \<Rightarrow> Some (octet # octets, rest')))"

definition read_ipv4_addr :: "nat list reader" where
  "read_ipv4_addr s = read_octets 0 4 s"

text \<open>Up to \<open>limit\<close> groups from position \<open>index\<close>: the groups, whether they end in an embedded IPv4
  address, and the rest.\<close>

function read_groups :: "nat \<Rightarrow> nat \<Rightarrow> string \<Rightarrow> nat list \<times> bool \<times> string" where
  "read_groups limit index s =
     (if index \<ge> limit then ([], False, s)
      else
        case (if index + 1 < limit then read_separator (CHR '':'') index read_ipv4_addr s else None) of
          Some (octets, rest) \<Rightarrow>
            ([octets ! 0 * 256 + octets ! 1, octets ! 2 * 256 + octets ! 3], True, rest)
        | None \<Rightarrow>
            (case read_separator (CHR '':'') index (read_number 16 4 True 65536) s of
               None \<Rightarrow> ([], False, s)
             | Some (g, rest) \<Rightarrow>
                 (case read_groups limit (index + 1) rest of
                    (groups, v4, rest') \<Rightarrow> (g # groups, v4, rest'))))"
  by pat_completeness auto
termination
  by (relation "measure (\<lambda>(limit, index, _). limit - index)") auto

declare read_groups.simps [simp del]

definition read_ipv6_addr :: "nat list reader" where
  "read_ipv6_addr s =
     (case read_groups 8 0 s of
        (head, head_ipv4, rest) \<Rightarrow>
          if length head = 8 then Some (head, rest)
          else if head_ipv4 then None
          else case read_given_char (CHR '':'') rest of
            None \<Rightarrow> None
          | Some (_, rest1) \<Rightarrow>
              (case read_given_char (CHR '':'') rest1 of
                 None \<Rightarrow> None
               | Some (_, rest2) \<Rightarrow>
                   (case read_groups (8 - (length head + 1)) 0 rest2 of
                      (tail, _, rest3) \<Rightarrow>
                        Some (head @ replicate (8 - length head - length tail) 0 @ tail, rest3))))"

definition be_value :: "nat \<Rightarrow> nat list \<Rightarrow> nat" where
  "be_value base digits = foldl (\<lambda>acc n. acc * base + n) 0 digits"

definition ip_from_str :: "string \<Rightarrow> (unit, ip_addr) result" where
  "ip_from_str s =
     (case (case read_ipv4_addr s of
              Some (octets, rest) \<Rightarrow> Some (V4 (of_nat (be_value 256 octets)), rest)
            | None \<Rightarrow>
                (case read_ipv6_addr s of
                   Some (groups, rest) \<Rightarrow> Some (V6 (of_nat (be_value 65536 groups)), rest)
                 | None \<Rightarrow> None)) of
        Some (address, []) \<Rightarrow> Inr address
      | _ \<Rightarrow> Inl ())"

section \<open>Reading printed addresses\<close>

text \<open>\<open>Display\<close> of an IPv4 address, and the uncompressed text form of an IPv6 address.\<close>

fun base_digits :: "nat \<Rightarrow> nat \<Rightarrow> nat \<Rightarrow> nat list" where
  "base_digits base 0 n = []"
| "base_digits base (Suc k) n = base_digits base k (n div base) @ [n mod base]"

definition show_ip :: "ip_addr \<Rightarrow> string" where
  "show_ip a =
     (case a of
        V4 w \<Rightarrow> join_with ''.'' (map show_nat (base_digits 256 4 (unat w)))
      | V6 w \<Rightarrow> join_with '':'' (map show_hex (base_digits 65536 8 (unat w))))"

lemma length_base_digits [simp]: "length (base_digits base k n) = k"
  by (induction k arbitrary: n) auto

lemma base_digits_less: "0 < base \<Longrightarrow> x \<in> set (base_digits base k n) \<Longrightarrow> x < base"
  by (induction k arbitrary: n) auto

lemma be_value_snoc: "be_value base (xs @ [x]) = be_value base xs * base + x"
  by (simp add: be_value_def)

lemma be_value_base_digits: "n < base ^ k \<Longrightarrow> be_value base (base_digits base k n) = n"
proof (induction k arbitrary: n)
  case 0
  then show ?case by (simp add: be_value_def)
next
  case (Suc k)
  then have "n div base < base ^ k" by (simp add: less_mult_imp_div_less mult.commute)
  with Suc.IH show ?case by (simp add: be_value_snoc)
qed

lemma digit_of_digit_char: "n < radix \<Longrightarrow> radix \<le> 16 \<Longrightarrow> digit_of radix (digit_char n) = Some n"
  by (auto simp: digit_of_def digit_char_def in_codes_def)

lemma read_digits_show:
  assumes "2 \<le> radix" "radix \<le> 16" "length (show_base radix n) \<le> limit"
  shows "read_digits radix limit 0 0 (show_base radix n @ s) =
      read_digits radix limit n (length (show_base radix n)) s"
  using assms(3)
proof (induction n arbitrary: s rule: less_induct)
  case (less n)
  show ?case
  proof (cases "n < radix")
    case True
    with less.prems assms show ?thesis by (simp add: show_base.simps [of radix n] digit_of_digit_char)
  next
    case False
    then have "n div radix < n" using assms by (simp add: not_less)
    have sb: "show_base radix n = show_base radix (n div radix) @ [digit_char (n mod radix)]"
      using False assms by (simp add: show_base.simps [of radix n])
    have m: "n mod radix < radix" using assms by simp
    from less.IH [OF \<open>n div radix < n\<close>, of "digit_char (n mod radix) # s"] less.prems sb m assms show ?thesis
      by (simp add: digit_of_digit_char)
  qed
qed

lemma length_show_base_le:
  assumes "2 \<le> radix" "0 < k"
  shows "n < radix ^ k \<Longrightarrow> length (show_base radix n) \<le> k"
  using assms(2)
proof (induction k arbitrary: n rule: nat_induct_non_zero)
  case 1
  then show ?case by (simp add: show_base.simps [of radix n])
next
  case (Suc k)
  show ?case
  proof (cases "n < radix")
    case True
    then show ?thesis by (simp add: show_base.simps [of radix n])
  next
    case False
    have "n div radix < radix ^ k" using Suc.prems by (simp add: less_mult_imp_div_less mult.commute)
    with Suc.IH False assms(1) show ?thesis by (simp add: show_base.simps [of radix n])
  qed
qed

text \<open>The text after a number does not go on with a digit.\<close>

definition ends_number :: "nat \<Rightarrow> string \<Rightarrow> bool" where
  "ends_number radix rest \<longleftrightarrow> (case rest of [] \<Rightarrow> True | c # _ \<Rightarrow> digit_of radix c = None)"

lemma read_digits_end: "ends_number radix rest \<Longrightarrow> read_digits radix limit n k rest = Some (n, k, rest)"
  by (cases rest) (auto simp: ends_number_def)

lemma show_base_leading_zero:
  assumes "2 \<le> radix" "radix \<le> 16" "length (show_base radix n) > 1"
  shows "\<not> starts_with ''0'' (show_base radix n @ rest)"
  using assms(3)
proof (induction n arbitrary: rest rule: less_induct)
  case (less n)
  have big: "\<not> n < radix" using less.prems by (auto simp: show_base.simps [of radix n])
  then have sb: "show_base radix n = show_base radix (n div radix) @ [digit_char (n mod radix)]"
    using assms(1) by (simp add: show_base.simps [of radix n])
  have "n div radix < n" "0 < n div radix" using big assms(1) by (simp_all add: not_less div_greater_zero_iff)
  show ?case
  proof (cases "n div radix < radix")
    case True
    then have "digit_char (n div radix) \<noteq> CHR ''0''"
      using \<open>0 < n div radix\<close> assms(2) digit_of_digit_char [of "n div radix" radix]
      by (auto simp: digit_of_def in_codes_def)
    with True sb show ?thesis by (simp add: show_base.simps [of radix "n div radix"])
  next
    case False
    then have "length (show_base radix (n div radix)) > 1"
      using assms(1) by (simp add: show_base.simps [of radix "n div radix"])
    from less.IH [OF \<open>n div radix < n\<close> this] sb show ?thesis by simp
  qed
qed

lemma read_number_show:
  assumes "2 \<le> radix" "radix \<le> 16" "0 < k" "n < radix ^ k" "n < bound" "ends_number radix rest"
  shows "read_number radix k zero_ok bound (show_base radix n @ rest) = Some (n, rest)"
proof -
  have "length (show_base radix n) \<le> k" using length_show_base_le assms by blast
  then have "read_digits radix k 0 0 (show_base radix n @ rest) = Some (n, length (show_base radix n), rest)"
    using read_digits_show read_digits_end assms by simp
  moreover have "length (show_base radix n) \<noteq> 0" by simp
  ultimately show ?thesis using assms(5) show_base_leading_zero [OF assms(1,2), of n rest]
    by (auto simp: read_number_def)
qed

lemma read_separator_cons [simp]:
  "read_separator sep (Suc i) inner (sep # s) = inner s" "read_separator sep 0 inner s = inner s"
  by (simp_all add: read_separator_def read_given_char_def)

text \<open>A list of numbers continued from position \<open>index\<close> of a separated list.\<close>

definition separated_text :: "char \<Rightarrow> nat \<Rightarrow> nat \<Rightarrow> nat list \<Rightarrow> string" where
  "separated_text sep radix index xs =
     (if index > 0 \<and> xs \<noteq> [] then [sep] else []) @ join_with [sep] (map (show_base radix) xs)"

lemma separated_text_Cons:
  "separated_text sep radix index (x # xs) =
     (if index > 0 then [sep] else []) @ show_base radix x @ separated_text sep radix (Suc index) xs"
  by (cases xs) (simp_all add: separated_text_def)

lemma separated_text_ends:
  "digit_of radix sep = None \<Longrightarrow> ends_number radix rest \<Longrightarrow>
   ends_number radix (separated_text sep radix (Suc index) xs @ rest)"
  by (cases xs) (simp_all add: separated_text_def ends_number_def)

lemma read_separator_text:
  "read_separator sep index inner ((if index > 0 then [sep] else []) @ s) = inner s"
  by (cases index) simp_all

lemma read_octets_show:
  assumes "ends_number 10 rest"
  shows "\<forall>x\<in>set xs. x < 256 \<Longrightarrow>
    read_octets index (length xs) (separated_text (CHR ''.'') 10 index xs @ rest) = Some (xs, rest)"
proof (induction xs arbitrary: index)
  case (Cons x xs)
  let ?tail = "separated_text (CHR ''.'') 10 (Suc index) xs @ rest"
  have "ends_number 10 ?tail"
    using assms by (intro separated_text_ends) (simp_all add: digit_of_def in_codes_def)
  then have "read_number 10 3 False 256 (show_nat x @ ?tail) = Some (x, ?tail)"
    using Cons.prems by (intro read_number_show) auto
  with Cons show ?case by (cases index) (simp_all add: separated_text_Cons)
qed (simp add: separated_text_def)

lemma read_digits_rest: "read_digits radix limit n k s = Some (m, j, rest) \<Longrightarrow> set rest \<subseteq> set s"
  by (induction radix limit n k s rule: read_digits.induct) (auto split: option.splits if_splits)

lemma read_ipv4_needs_dot: "CHR ''.'' \<notin> set s \<Longrightarrow> read_ipv4_addr s = None"
proof (cases "read_number 10 3 False 256 s")
  case (Some r)
  obtain n rest where r: "r = (n, rest)" by force
  assume "CHR ''.'' \<notin> set s"
  moreover from Some r have "set rest \<subseteq> set s"
    by (auto simp: read_number_def dest: subsetD [OF read_digits_rest] split: option.splits if_splits)
  ultimately have "CHR ''.'' \<notin> set rest" by blast
  then have "read_separator (CHR ''.'') (Suc 0) inner rest = None" for inner :: "nat reader"
    by (cases rest) (auto simp: read_separator_def read_given_char_def)
  then show ?thesis using Some r by (simp add: read_ipv4_addr_def numeral_eq_Suc)
qed (simp add: read_ipv4_addr_def numeral_eq_Suc)

lemma no_embedded_ipv4:
  "CHR ''.'' \<notin> set s \<Longrightarrow> read_separator sep index read_ipv4_addr s = None"
  by (cases s) (auto simp: read_separator_def read_given_char_def read_ipv4_needs_dot)

lemma show_hex_no_dot: "CHR ''.'' \<notin> set (show_hex n)"
  using show_hex_chars by (fastforce simp: in_codes_def)

lemma separated_text_no_dot: "CHR ''.'' \<notin> set (separated_text (CHR '':'') 16 index xs)"
proof (induction xs arbitrary: index)
  case (Cons x xs)
  then show ?case by (simp add: separated_text_Cons show_hex_no_dot)
qed (simp add: separated_text_def)

lemma read_groups_show:
  "\<forall>x\<in>set xs. x < 65536 \<Longrightarrow> index + length xs = limit \<Longrightarrow>
   read_groups limit index (separated_text (CHR '':'') 16 index xs) = (xs, False, [])"
proof (induction xs arbitrary: index)
  case (Cons x xs)
  let ?tail = "separated_text (CHR '':'') 16 (Suc index) xs"
  have "ends_number 16 (?tail @ [])"
    by (intro separated_text_ends) (simp_all add: digit_of_def in_codes_def ends_number_def)
  then have "read_number 16 4 True 65536 (show_hex x @ ?tail) = Some (x, ?tail)"
    using Cons.prems by (intro read_number_show) auto
  moreover have "read_separator (CHR '':'') index read_ipv4_addr (separated_text (CHR '':'') 16 index (x # xs)) = None"
    by (intro no_embedded_ipv4 separated_text_no_dot)
  moreover have "read_groups limit (Suc index) ?tail = (xs, False, [])"
    using Cons by simp
  ultimately show ?case using Cons.prems
    by (simp add: read_groups.simps [of limit index] separated_text_Cons read_separator_text)
qed (simp add: separated_text_def read_groups.simps)

section \<open>Properties\<close>

text \<open>The address parser inverts printing: every IPv4 address in dotted-quad form and every
  IPv6 address in its full form is read back as itself.\<close>

theorem ip_from_str_show: "ip_from_str (show_ip a) = Inr a"
proof (cases a)
  case (V4 w)
  let ?n = "base_digits 256 4 (unat w)"
  have "unat w < 2 ^ LENGTH(32)" by (rule unsigned_less)
  then have "unat w < 256 ^ 4" by simp
  then have v: "be_value 256 ?n = unat w" by (rule be_value_base_digits)
  have "read_octets 0 4 (separated_text (CHR ''.'') 10 0 ?n @ []) = Some (?n, [])"
    using read_octets_show [of "[]" ?n 0] base_digits_less [of 256 _ 4] by (simp add: ends_number_def)
  then have "read_ipv4_addr (show_ip a) = Some (?n, [])"
    by (simp add: V4 show_ip_def read_ipv4_addr_def separated_text_def)
  with v V4 show ?thesis by (simp add: ip_from_str_def)
next
  case (V6 w)
  let ?n = "base_digits 65536 8 (unat w)"
  have "unat w < 2 ^ LENGTH(128)" by (rule unsigned_less)
  then have "unat w < 65536 ^ 8" by simp
  then have v: "be_value 65536 ?n = unat w" by (rule be_value_base_digits)
  have s: "show_ip a = separated_text (CHR '':'') 16 0 ?n" by (simp add: V6 show_ip_def separated_text_def)
  have "read_groups 8 0 (show_ip a) = (?n, False, [])"
    unfolding s using base_digits_less [of 65536 _ 8] by (intro read_groups_show) auto
  moreover have "read_ipv4_addr (show_ip a) = None"
    unfolding s by (intro read_ipv4_needs_dot separated_text_no_dot)
  ultimately show ?thesis using v V6 by (simp add: ip_from_str_def read_ipv6_addr_def)
qed

end
