(* ===== verification/TrustedProxy.thy ===== *)
theory TrustedProxy
  imports IpParse Extract
begin

text \<open>
  The trusted reverse-proxy layer, \<open>crates/rustee-middleware/src/trusted_proxy\<close>: networks and
  policy (\<open>policy.rs\<close>), bounded decoding of \<open>Forwarded\<close> and \<open>X-Forwarded-*\<close>
  (\<open>forwarded.rs\<close>), and the layer (\<open>layer.rs\<close>).

  Addresses are 32 and 128 bit words.  Whether a text is a URI authority is a parameter.
\<close>

unbundle bit_operations_syntax

section \<open>Policy\<close>

abbreviation MAX_FORWARDED_CHAIN_HOPS :: nat where "MAX_FORWARDED_CHAIN_HOPS \<equiv> 16"
abbreviation MAX_TRUSTED_PROXY_NETWORKS :: nat where "MAX_TRUSTED_PROXY_NETWORKS \<equiv> 64"
abbreviation MAX_FORWARDED_HEADER_BYTES :: nat where "MAX_FORWARDED_HEADER_BYTES \<equiv> 2048"

datatype trusted_proxy_error =
    InvalidPrefixLength
  | EmptyNetworkAllowlist
  | NetworkAllowlistLimit
  | InvalidForwardedChainHops

record trusted_proxy_network =
  net_address :: ip_addr
  net_prefix :: nat

definition normalize_ip :: "ip_addr \<Rightarrow> nat \<Rightarrow> ip_addr" where
  "normalize_ip address prefix =
     (case address of
        V4 a \<Rightarrow> (let shift = 32 - prefix in V4 (push_bit shift (drop_bit shift a)))
      | V6 a \<Rightarrow> (let shift = 128 - prefix in V6 (push_bit shift (drop_bit shift a))))"

definition network_new :: "ip_addr \<Rightarrow> nat \<Rightarrow> (trusted_proxy_error, trusted_proxy_network) result" where
  "network_new network prefix_length =
     (let width = (case network of V4 _ \<Rightarrow> 32 | V6 _ \<Rightarrow> 128) in
      if prefix_length = 0 \<or> prefix_length > width then Inl InvalidPrefixLength
      else Inr \<lparr>net_address = normalize_ip network prefix_length, net_prefix = prefix_length\<rparr>)"

definition network_contains :: "trusted_proxy_network \<Rightarrow> ip_addr \<Rightarrow> bool" where
  "network_contains net address =
     (case (net_address net, address) of
        (V4 n, V4 a) \<Rightarrow> (let shift = 32 - net_prefix net in drop_bit shift n = drop_bit shift a)
      | (V6 n, V6 a) \<Rightarrow> (let shift = 128 - net_prefix net in drop_bit shift n = drop_bit shift a)
      | _ \<Rightarrow> False)"

record trusted_proxy_policy =
  tp_networks :: "trusted_proxy_network list"
  tp_forwarded_chain_hops :: nat

fun collect_networks ::
  "trusted_proxy_network list \<Rightarrow> trusted_proxy_network list \<Rightarrow>
   (trusted_proxy_error, trusted_proxy_network list) result" where
  "collect_networks collected [] = Inr collected"
| "collect_networks collected (network # networks) =
     (if network \<in> set collected then collect_networks collected networks
      else if length collected = MAX_TRUSTED_PROXY_NETWORKS then Inl NetworkAllowlistLimit
      else collect_networks (collected @ [network]) networks)"

definition policy_new ::
  "trusted_proxy_network list \<Rightarrow> (trusted_proxy_error, trusted_proxy_policy) result" where
  "policy_new networks =
     bind_result (collect_networks [] networks) (\<lambda>collected.
       if collected = [] then Inl EmptyNetworkAllowlist
       else Inr \<lparr>tp_networks = collected, tp_forwarded_chain_hops = 0\<rparr>)"

definition with_forwarded_chain_hops ::
  "trusted_proxy_policy \<Rightarrow> nat \<Rightarrow> (trusted_proxy_error, trusted_proxy_policy) result" where
  "with_forwarded_chain_hops policy hops =
     (if hops = 0 \<or> hops > MAX_FORWARDED_CHAIN_HOPS then Inl InvalidForwardedChainHops
      else Inr (policy\<lparr>tp_forwarded_chain_hops := hops\<rparr>))"

definition trusts :: "trusted_proxy_policy \<Rightarrow> ip_addr \<Rightarrow> bool" where
  "trusts policy address \<longleftrightarrow> list_ex (\<lambda>network. network_contains network address) (tp_networks policy)"

section \<open>Forwarded headers\<close>

record forwarded_element =
  fe_client_ip :: ip_addr
  fe_scheme :: "string option"
  fe_host :: "string option"

definition single_header :: "header_map \<Rightarrow> string \<Rightarrow> (unit, bytes option) result" where
  "single_header headers name =
     (case headers name of
        [] \<Rightarrow> Inr None
      | [value] \<Rightarrow> Inr (Some value)
      | _ \<Rightarrow> Inl ())"

definition bounded_header_text :: "deps \<Rightarrow> bytes \<Rightarrow> (unit, string) result" where
  "bounded_header_text d value =
     (case header_to_str d value of
        None \<Rightarrow> Inl ()
      | Some text \<Rightarrow> if length text \<le> MAX_FORWARDED_HEADER_BYTES then Inr text else Inl ())"

fun parse_element_items ::
  "(string \<Rightarrow> bool) \<Rightarrow> string list \<Rightarrow> ip_addr option \<Rightarrow> string option \<Rightarrow> string option \<Rightarrow>
   (unit, forwarded_element) result" where
  "parse_element_items authority_ok [] client_ip scheme host =
     (case client_ip of
        None \<Rightarrow> Inl ()
      | Some ip \<Rightarrow> Inr \<lparr>fe_client_ip = ip, fe_scheme = scheme, fe_host = host\<rparr>)"
| "parse_element_items authority_ok (item # items) client_ip scheme host =
     (case split_once (CHR ''='') (trim item) of
        None \<Rightarrow> Inl ()
      | Some (name, value) \<Rightarrow>
          if value = [] \<or> CHR '' '' \<in> set value \<or> CHR 0x22 \<in> set value then Inl ()
          else if to_ascii_lowercase name = ''for'' \<and> client_ip = None then
            bind_result (ip_from_str value)
              (\<lambda>ip. parse_element_items authority_ok items (Some ip) scheme host)
          else if to_ascii_lowercase name = ''proto'' \<and> scheme = None \<and> (value = ''http'' \<or> value = ''https'') then
            parse_element_items authority_ok items client_ip (Some value) host
          else if to_ascii_lowercase name = ''host'' \<and> host = None \<and> CHR ''@'' \<notin> set value \<and> authority_ok value then
            parse_element_items authority_ok items client_ip scheme (Some value)
          else Inl ())"

definition parse_forwarded_element :: "(string \<Rightarrow> bool) \<Rightarrow> string \<Rightarrow> (unit, forwarded_element) result" where
  "parse_forwarded_element authority_ok value =
     parse_element_items authority_ok (split_on (CHR '';'') value) None None None"

text \<open>The loops of \<open>select_client_ip\<close> and \<open>parse_forwarded\<close> run over the reversed chain.\<close>

fun select_from :: "trusted_proxy_policy \<Rightarrow> nat \<Rightarrow> ip_addr list \<Rightarrow> (unit, ip_addr) result" where
  "select_from policy trusted_hops [] = Inl ()"
| "select_from policy trusted_hops (client # clients) =
     (if trusted_hops < tp_forwarded_chain_hops policy \<and> trusts policy client
      then select_from policy (trusted_hops + 1) clients
      else Inr client)"

definition select_client_ip :: "ip_addr list \<Rightarrow> trusted_proxy_policy \<Rightarrow> (unit, ip_addr) result" where
  "select_client_ip clients policy = select_from policy 0 (rev clients)"

definition parse_forwarded ::
  "deps \<Rightarrow> (string \<Rightarrow> bool) \<Rightarrow> bytes \<Rightarrow> trusted_proxy_policy \<Rightarrow> (unit, forwarded_context) result" where
  "parse_forwarded d authority_ok value policy =
     bind_result (bounded_header_text d value) (\<lambda>text.
     bind_result (collect_results
         (map (\<lambda>element. parse_forwarded_element authority_ok (trim element)) (split_on (CHR '','') text)))
       (\<lambda>elements.
         if elements = [] \<or> length elements > tp_forwarded_chain_hops policy + 1 then Inl ()
         else if list_ex (\<lambda>e. fe_scheme e \<noteq> None \<or> fe_host e \<noteq> None) (butlast elements) then Inl ()
         else
           let edge = last elements in
           bind_result (select_from policy 0 (rev (map fe_client_ip elements))) (\<lambda>ip.
             Inr \<lparr>fwd_client_ip = ip, fwd_scheme = fe_scheme edge, fwd_host = fe_host edge\<rparr>)))"

definition parse_forwarded_headers ::
  "deps \<Rightarrow> (string \<Rightarrow> bool) \<Rightarrow> header_map \<Rightarrow> trusted_proxy_policy \<Rightarrow> (unit, forwarded_context option) result" where
  "parse_forwarded_headers d authority_ok headers policy =
     bind_result (single_header headers ''forwarded'') (\<lambda>value.
       case value of
         None \<Rightarrow> Inr None
       | Some v \<Rightarrow> bind_result (parse_forwarded d authority_ok v policy) (\<lambda>c. Inr (Some c)))"

definition parse_x_forwarded_scheme :: "deps \<Rightarrow> bytes \<Rightarrow> (unit, string) result" where
  "parse_x_forwarded_scheme d value =
     bind_result (bounded_header_text d value) (\<lambda>text.
       if text = ''http'' \<or> text = ''https'' then Inr text else Inl ())"

definition parse_x_forwarded_host :: "deps \<Rightarrow> (string \<Rightarrow> bool) \<Rightarrow> bytes \<Rightarrow> (unit, string) result" where
  "parse_x_forwarded_host d authority_ok value =
     bind_result (bounded_header_text d value) (\<lambda>text.
       if \<not> list_ex (\<lambda>c. c = CHR '','' \<or> c = CHR '' '' \<or> c = CHR 0x22 \<or> c = CHR ''@'') text \<and> authority_ok text
       then Inr text else Inl ())"

definition optional :: "('a \<Rightarrow> ('e, 'b) result) \<Rightarrow> 'a option \<Rightarrow> ('e, 'b option) result" where
  "optional f x = (case x of None \<Rightarrow> Inr None | Some v \<Rightarrow> bind_result (f v) (\<lambda>y. Inr (Some y)))"

definition parse_x_forwarded_headers ::
  "deps \<Rightarrow> (string \<Rightarrow> bool) \<Rightarrow> header_map \<Rightarrow> trusted_proxy_policy \<Rightarrow> (unit, forwarded_context option) result" where
  "parse_x_forwarded_headers d authority_ok headers policy =
     bind_result (single_header headers ''x-forwarded-for'') (\<lambda>client.
     bind_result (single_header headers ''x-forwarded-proto'') (\<lambda>scheme.
     bind_result (single_header headers ''x-forwarded-host'') (\<lambda>host.
       case client of
         None \<Rightarrow> if scheme = None \<and> host = None then Inr None else Inl ()
       | Some c \<Rightarrow>
           bind_result (bounded_header_text d c) (\<lambda>text.
           bind_result (collect_results
               (map (\<lambda>value. ip_from_str (trim value)) (split_on (CHR '','') text))) (\<lambda>clients.
             if clients = [] \<or> length clients > tp_forwarded_chain_hops policy + 1 then Inl ()
             else
               bind_result (select_client_ip clients policy) (\<lambda>client_ip.
               bind_result (optional (parse_x_forwarded_scheme d) scheme) (\<lambda>scheme.
               bind_result (optional (parse_x_forwarded_host d authority_ok) host) (\<lambda>host.
                 Inr (Some \<lparr>fwd_client_ip = client_ip, fwd_scheme = scheme, fwd_host = host\<rparr>)))))))))"

section \<open>The layer\<close>

datatype header_family = ForwardedFamily | XForwardedFamily

record trusted_proxy_layer =
  tpl_policy :: trusted_proxy_policy
  tpl_family :: header_family

definition trusted_proxy_layer_new :: "trusted_proxy_policy \<Rightarrow> trusted_proxy_layer" where
  "trusted_proxy_layer_new policy = \<lparr>tpl_policy = policy, tpl_family = ForwardedFamily\<rparr>"

definition with_x_forwarded :: "trusted_proxy_layer \<Rightarrow> trusted_proxy_layer" where
  "with_x_forwarded layer = layer\<lparr>tpl_family := XForwardedFamily\<rparr>"

definition parse_family_headers ::
  "deps \<Rightarrow> (string \<Rightarrow> bool) \<Rightarrow> trusted_proxy_layer \<Rightarrow> header_map \<Rightarrow> (unit, forwarded_context option) result" where
  "parse_family_headers d authority_ok layer headers =
     (case tpl_family layer of
        ForwardedFamily \<Rightarrow> parse_forwarded_headers d authority_ok headers (tpl_policy layer)
      | XForwardedFamily \<Rightarrow> parse_x_forwarded_headers d authority_ok headers (tpl_policy layer))"

definition trusted_proxy_call ::
  "deps \<Rightarrow> (string \<Rightarrow> bool) \<Rightarrow> trusted_proxy_layer \<Rightarrow> (request \<Rightarrow> response) \<Rightarrow> request \<Rightarrow> response" where
  "trusted_proxy_call d authority_ok layer inner req =
     (case ext_connection (req_extensions req) of
        None \<Rightarrow> error_into_response d
          (error_new 500 ''connection_info_missing'' ''transport connection metadata is required'')
      | Some peer \<Rightarrow>
          if trusts (tpl_policy layer) (peer_ip peer) then
            (case parse_family_headers d authority_ok layer (req_headers req) of
               Inr (Some context) \<Rightarrow>
                 inner (req\<lparr>req_extensions := (req_extensions req)\<lparr>ext_forwarded := Some context\<rparr>\<rparr>)
             | Inr None \<Rightarrow> inner req
             | Inl _ \<Rightarrow> error_into_response d
                 (error_new 400 ''invalid_forwarded_header'' ''the trusted proxy forwarded header is invalid''))
          else inner req)"

section \<open>Lemmas\<close>

subsection \<open>Networks and policies\<close>

lemma drop_bit_eq_iff_bits:
  fixes x y :: "'a :: len word"
  shows "drop_bit k x = drop_bit k y \<longleftrightarrow> (\<forall>i<LENGTH('a). k \<le> i \<longrightarrow> bit x i = bit y i)"
proof -
  have "drop_bit k x = drop_bit k y \<longleftrightarrow> (\<forall>i. bit x (k + i) = bit y (k + i))"
  proof
    assume "drop_bit k x = drop_bit k y"
    then show "\<forall>i. bit x (k + i) = bit y (k + i)" by (metis bit_drop_bit_eq comp_apply)
  qed (auto intro: bit_eqI simp: bit_drop_bit_eq)
  also have "\<dots> \<longleftrightarrow> (\<forall>i. k \<le> i \<longrightarrow> bit x i = bit y i)" by (metis le_add1 le_Suc_ex)
  also have "\<dots> \<longleftrightarrow> (\<forall>i<LENGTH('a). k \<le> i \<longrightarrow> bit x i = bit y i)" by (metis bit_imp_le_length)
  finally show ?thesis .
qed

lemma drop_push_drop:
  fixes x :: "'a :: len word"
  shows "drop_bit k (push_bit k (drop_bit k x)) = drop_bit k x"
  by (rule bit_eqI) (auto simp: bit_simps dest: bit_imp_le_length)

text \<open>Two addresses agree on their leading bits.\<close>

fun same_prefix :: "nat \<Rightarrow> ip_addr \<Rightarrow> ip_addr \<Rightarrow> bool" where
  "same_prefix p (V4 x) (V4 y) = (\<forall>i<32. 32 - p \<le> i \<longrightarrow> bit x i = bit y i)"
| "same_prefix p (V6 x) (V6 y) = (\<forall>i<128. 128 - p \<le> i \<longrightarrow> bit x i = bit y i)"
| "same_prefix p _ _ = False"

lemma collect_networks_Inr:
  "collect_networks acc ns = Inr r \<Longrightarrow> distinct acc \<Longrightarrow> length acc \<le> MAX_TRUSTED_PROXY_NETWORKS \<Longrightarrow>
   distinct r \<and> length r \<le> MAX_TRUSTED_PROXY_NETWORKS \<and> set r = set acc \<union> set ns"
  by (induction acc ns rule: collect_networks.induct) (auto split: if_splits)

lemma collect_networks_Inl:
  "collect_networks acc ns = Inl e \<Longrightarrow> distinct acc \<Longrightarrow>
   e = NetworkAllowlistLimit \<and> card (set acc \<union> set ns) > MAX_TRUSTED_PROXY_NETWORKS"
proof (induction acc ns rule: collect_networks.induct)
  case (2 acc n ns)
  show ?case
  proof (cases "n \<in> set acc")
    case True
    with 2 show ?thesis by (auto simp: insert_absorb)
  next
    case new: False
    show ?thesis
    proof (cases "length acc = MAX_TRUSTED_PROXY_NETWORKS")
      case True
      with new "2.prems" have "card (insert n (set acc)) = 65" by (simp add: distinct_card)
      moreover have "card (insert n (set acc)) \<le> card (set acc \<union> set (n # ns))" by (intro card_mono) auto
      ultimately show ?thesis using new True "2.prems" by auto
    next
      case False
      with 2 new show ?thesis by auto
    qed
  qed
qed simp

subsection \<open>Client selection\<close>

text \<open>The client of a chain, seen from the trusted peer: everything to its right is a trusted
  proxy, and either the hop bound is reached or the client itself is not a trusted proxy.\<close>

definition client_of_chain :: "trusted_proxy_policy \<Rightarrow> ip_addr list \<Rightarrow> ip_addr \<Rightarrow> bool" where
  "client_of_chain policy chain c \<longleftrightarrow>
     (\<exists>left proxies. chain = left @ c # proxies \<and> (\<forall>p\<in>set proxies. trusts policy p) \<and>
        length proxies \<le> tp_forwarded_chain_hops policy \<and>
        (length proxies = tp_forwarded_chain_hops policy \<or> \<not> trusts policy c))"

lemma select_from_iff:
  "k \<le> tp_forwarded_chain_hops policy \<Longrightarrow>
   select_from policy k cs = Inr c \<longleftrightarrow>
     (\<exists>post rest. cs = post @ c # rest \<and> (\<forall>x\<in>set post. trusts policy x) \<and>
        k + length post \<le> tp_forwarded_chain_hops policy \<and>
        (k + length post = tp_forwarded_chain_hops policy \<or> \<not> trusts policy c))"
proof (induction cs arbitrary: k)
  case (Cons x xs)
  show ?case
  proof (cases "k < tp_forwarded_chain_hops policy \<and> trusts policy x")
    case True
    then have "select_from policy k (x # xs) = Inr c \<longleftrightarrow>
      (\<exists>post rest. xs = post @ c # rest \<and> (\<forall>x\<in>set post. trusts policy x) \<and>
        (k + 1) + length post \<le> tp_forwarded_chain_hops policy \<and>
        ((k + 1) + length post = tp_forwarded_chain_hops policy \<or> \<not> trusts policy c))"
      using Cons.IH [of "k + 1"] by simp
    also have "\<dots> \<longleftrightarrow> (\<exists>post rest. x # xs = post @ c # rest \<and> (\<forall>x\<in>set post. trusts policy x) \<and>
        k + length post \<le> tp_forwarded_chain_hops policy \<and>
        (k + length post = tp_forwarded_chain_hops policy \<or> \<not> trusts policy c))" (is "?L \<longleftrightarrow> ?R")
    proof
      assume ?L
      then obtain post rest where "xs = post @ c # rest" "\<forall>x\<in>set post. trusts policy x"
        "(k + 1) + length post \<le> tp_forwarded_chain_hops policy"
        "(k + 1) + length post = tp_forwarded_chain_hops policy \<or> \<not> trusts policy c" by blast
      then show ?R using True by (intro exI [of _ "x # post"] exI [of _ rest]) auto
    next
      assume ?R
      then obtain post rest where pr: "x # xs = post @ c # rest" "\<forall>x\<in>set post. trusts policy x"
        "k + length post \<le> tp_forwarded_chain_hops policy"
        "k + length post = tp_forwarded_chain_hops policy \<or> \<not> trusts policy c" by blast
      then obtain post' where "post = x # post'" using True by (cases post) auto
      with pr show ?L by (intro exI [of _ post'] exI [of _ rest]) auto
    qed
    finally show ?thesis .
  next
    case False
    then have "select_from policy k (x # xs) = Inr c \<longleftrightarrow> x = c" by auto
    moreover have "x = c" if "x # xs = post @ c # rest" "\<forall>x\<in>set post. trusts policy x"
      "k + length post \<le> tp_forwarded_chain_hops policy" for post rest
      using that False by (cases post) auto
    moreover have "k + length ([] :: ip_addr list) \<le> tp_forwarded_chain_hops policy" using Cons.prems by simp
    moreover have "k = tp_forwarded_chain_hops policy \<or> \<not> trusts policy x" using False Cons.prems by auto
    ultimately show ?thesis by (metis add_0_right append_Nil empty_iff list.set(1) list.size(3))
  qed
qed simp

lemma select_from_rev:
  "select_from policy 0 (rev chain) = Inr c \<longleftrightarrow> client_of_chain policy chain c"
proof -
  have "(\<exists>post rest. rev chain = post @ c # rest \<and> P post) \<longleftrightarrow> (\<exists>left proxies. chain = left @ c # proxies \<and> P (rev proxies))"
    for P :: "ip_addr list \<Rightarrow> bool"
  proof safe
    fix post rest assume "rev chain = post @ c # rest" "P post"
    then have "chain = rev rest @ c # rev post" by (metis append.assoc append_Cons append_Nil rev.simps(2) rev_append rev_rev_ident)
    with \<open>P post\<close> show "\<exists>left proxies. chain = left @ c # proxies \<and> P (rev proxies)"
      by (intro exI [of _ "rev rest"] exI [of _ "rev post"]) simp
  next
    fix left proxies assume "P (rev proxies)"
    then show "\<exists>post rest. rev (left @ c # proxies) = post @ c # rest \<and> P post" by auto
  qed
  then show ?thesis by (simp add: select_from_iff client_of_chain_def)
qed

lemma client_of_chain_prepend:
  "client_of_chain policy chain c \<Longrightarrow> client_of_chain policy (spoofed @ chain) c"
  unfolding client_of_chain_def by (metis append.assoc)

text \<open>The chain of addresses the selected header family carries.\<close>

definition family_chain ::
  "deps \<Rightarrow> (string \<Rightarrow> bool) \<Rightarrow> trusted_proxy_layer \<Rightarrow> header_map \<Rightarrow> ip_addr list \<Rightarrow> bool" where
  "family_chain d authority_ok layer headers chain \<longleftrightarrow>
     (case tpl_family layer of
        ForwardedFamily \<Rightarrow>
          (\<exists>v text elements. headers ''forwarded'' = [v] \<and> header_to_str d v = Some text \<and>
             map (\<lambda>e. parse_forwarded_element authority_ok (trim e)) (split_on (CHR '','') text) = map Inr elements \<and>
             chain = map fe_client_ip elements)
      | XForwardedFamily \<Rightarrow>
          (\<exists>v text. headers ''x-forwarded-for'' = [v] \<and> header_to_str d v = Some text \<and>
             map (\<lambda>e. ip_from_str (trim e)) (split_on (CHR '','') text) = map Inr chain))"

lemma bounded_header_text_Inr:
  "bounded_header_text d v = Inr t \<longleftrightarrow> header_to_str d v = Some t \<and> length t \<le> MAX_FORWARDED_HEADER_BYTES"
  by (auto simp: bounded_header_text_def split: option.splits)

lemma single_header_Inr_Some: "single_header headers name = Inr (Some v) \<longleftrightarrow> headers name = [v]"
  by (auto simp: single_header_def split: list.splits)

lemma parse_forwarded_chain:
  assumes "parse_forwarded d authority_ok v policy = Inr c"
  shows "\<exists>text elements. header_to_str d v = Some text \<and>
    map (\<lambda>e. parse_forwarded_element authority_ok (trim e)) (split_on (CHR '','') text) = map Inr elements \<and>
    length elements \<le> tp_forwarded_chain_hops policy + 1 \<and>
    client_of_chain policy (map fe_client_ip elements) (fwd_client_ip c) \<and>
    fwd_scheme c = fe_scheme (last elements) \<and> fwd_host c = fe_host (last elements)"
  using assms
  by (auto simp: parse_forwarded_def bounded_header_text_Inr collect_results_Inr select_from_rev Let_def
      split: if_splits)

lemma parse_x_forwarded_chain:
  assumes "parse_x_forwarded_headers d authority_ok headers policy = Inr (Some c)"
  shows "\<exists>v text chain. headers ''x-forwarded-for'' = [v] \<and> header_to_str d v = Some text \<and>
    map (\<lambda>e. ip_from_str (trim e)) (split_on (CHR '','') text) = map Inr chain \<and>
    length chain \<le> tp_forwarded_chain_hops policy + 1 \<and>
    client_of_chain policy chain (fwd_client_ip c)"
  using assms
  by (auto simp: parse_x_forwarded_headers_def bounded_header_text_Inr collect_results_Inr
      select_client_ip_def select_from_rev single_header_Inr_Some split: if_splits option.splits)

lemma parse_family_chain:
  assumes "parse_family_headers d authority_ok layer headers = Inr (Some c)"
  shows "\<exists>chain. family_chain d authority_ok layer headers chain \<and>
    length chain \<le> tp_forwarded_chain_hops (tpl_policy layer) + 1 \<and>
    client_of_chain (tpl_policy layer) chain (fwd_client_ip c)"
proof (cases "tpl_family layer")
  case ForwardedFamily
  with assms obtain v where "headers ''forwarded'' = [v]" "parse_forwarded d authority_ok v (tpl_policy layer) = Inr c"
    by (auto simp: parse_family_headers_def parse_forwarded_headers_def single_header_Inr_Some split: option.splits)
  with parse_forwarded_chain [OF this(2)] ForwardedFamily show ?thesis
    by (auto simp: family_chain_def)
next
  case XForwardedFamily
  with assms parse_x_forwarded_chain [of d authority_ok headers "tpl_policy layer" c] show ?thesis
    by (auto simp: family_chain_def parse_family_headers_def)
qed

subsection \<open>Properties\<close>

text \<open>A configured network contains exactly the addresses of its own family that share its
  leading prefix bits, whatever host bits it was configured with, and a prefix of zero or beyond
  the width of the family is refused.\<close>

theorem network_contains_prefix:
  "case network_new ip p of
     Inl e \<Rightarrow> e = InvalidPrefixLength \<and> p \<notin> {1..(case ip of V4 _ \<Rightarrow> 32 | V6 _ \<Rightarrow> 128)}
   | Inr net \<Rightarrow> p \<in> {1..(case ip of V4 _ \<Rightarrow> 32 | V6 _ \<Rightarrow> 128)} \<and>
       (\<forall>a. network_contains net a \<longleftrightarrow> same_prefix p ip a)"
proof -
  have v4: "drop_bit k (push_bit k (drop_bit k x)) = drop_bit k y \<longleftrightarrow>
      (\<forall>i<32. k \<le> i \<longrightarrow> bit x i = bit y i)" for x y :: "32 word" and k
    by (simp add: drop_push_drop drop_bit_eq_iff_bits)
  have v6: "drop_bit k (push_bit k (drop_bit k x)) = drop_bit k y \<longleftrightarrow>
      (\<forall>i<128. k \<le> i \<longrightarrow> bit x i = bit y i)" for x y :: "128 word" and k
    by (simp add: drop_push_drop drop_bit_eq_iff_bits)
  have "same_prefix p ip a = (case (ip, a) of
      (V4 x, V4 y) \<Rightarrow> (\<forall>i<32. 32 - p \<le> i \<longrightarrow> bit x i = bit y i)
    | (V6 x, V6 y) \<Rightarrow> (\<forall>i<128. 128 - p \<le> i \<longrightarrow> bit x i = bit y i)
    | _ \<Rightarrow> False)" for a
    by (cases ip; cases a) simp_all
  then show ?thesis
    by (cases ip) (auto simp: network_new_def network_contains_def normalize_ip_def Let_def v4 v6
        split: ip_addr.splits)
qed

text \<open>A policy is a non-empty, duplicate-free list of at most 64 networks with the networks it
  was given; construction fails only for an empty list or for more than 64 distinct networks.\<close>

theorem policy_new_bounded:
  "case policy_new networks of
     Inr policy \<Rightarrow> tp_networks policy \<noteq> [] \<and> distinct (tp_networks policy) \<and>
       length (tp_networks policy) \<le> 64 \<and> set (tp_networks policy) = set networks \<and>
       tp_forwarded_chain_hops policy = 0
   | Inl EmptyNetworkAllowlist \<Rightarrow> networks = []
   | Inl NetworkAllowlistLimit \<Rightarrow> card (set networks) > 64
   | Inl _ \<Rightarrow> False"
proof (cases "collect_networks [] networks")
  case (Inl e)
  with collect_networks_Inl [OF Inl] show ?thesis by (simp add: policy_new_def)
next
  case (Inr r)
  with collect_networks_Inr [OF Inr] show ?thesis by (auto simp: policy_new_def)
qed

text \<open>C9. Forwarded headers are honoured only from a trusted peer.  For any other peer the request
  reaches the inner service unchanged; for a trusted peer it is refused with 400, or passed on
  unchanged when no such header is present, or passed on with the client that the chain of the
  selected family determines: every address to its right is a trusted proxy, and it is itself
  untrusted or stands at the hop bound.\<close>

theorem trusted_proxy_call_client:
  assumes "ext_connection (req_extensions req) = Some peer"
  shows "(\<not> trusts (tpl_policy layer) (peer_ip peer) \<longrightarrow>
      trusted_proxy_call d authority_ok layer inner req = inner req) \<and>
    (trusts (tpl_policy layer) (peer_ip peer) \<longrightarrow>
      resp_status (trusted_proxy_call d authority_ok layer inner req) = 400 \<or>
      trusted_proxy_call d authority_ok layer inner req = inner req \<or>
      (\<exists>context chain. trusted_proxy_call d authority_ok layer inner req =
           inner (req\<lparr>req_extensions := (req_extensions req)\<lparr>ext_forwarded := Some context\<rparr>\<rparr>) \<and>
         family_chain d authority_ok layer (req_headers req) chain \<and>
         length chain \<le> tp_forwarded_chain_hops (tpl_policy layer) + 1 \<and>
         client_of_chain (tpl_policy layer) chain (fwd_client_ip context)))"
proof (cases "trusts (tpl_policy layer) (peer_ip peer)")
  case True
  show ?thesis
  proof (cases "parse_family_headers d authority_ok layer (req_headers req)")
    case (Inr oc)
    with parse_family_chain [of d authority_ok layer "req_headers req"] True assms show ?thesis
      by (cases oc) (auto simp: trusted_proxy_call_def)
  qed (use True assms in \<open>simp add: trusted_proxy_call_def\<close>)
qed (use assms in \<open>simp add: trusted_proxy_call_def\<close>)

lemma x_forwarded_prepend_same:
  assumes "headers ''x-forwarded-for'' = [v]" "header_to_str d v = Some text"
    and "header_to_str d v' = Some (spoofed @ '','' @ text)"
    and "parse_x_forwarded_headers d authority_ok headers policy = Inr (Some c)"
  shows "parse_x_forwarded_headers d authority_ok (headers(''x-forwarded-for'' := [v'])) policy
    \<in> {Inl (), Inr (Some c)}"
proof -
  from parse_x_forwarded_chain [OF assms(4)] assms(1,2) obtain chain where
    chain: "map (\<lambda>e. ip_from_str (trim e)) (split_on (CHR '','') text) = map Inr chain"
    "client_of_chain policy chain (fwd_client_ip c)" by auto
  have "c' = c" if new: "parse_x_forwarded_headers d authority_ok (headers(''x-forwarded-for'' := [v'])) policy = Inr (Some c')" for c'
  proof -
    from parse_x_forwarded_chain [OF new] assms(3) obtain chain' where
      chain': "map (\<lambda>e. ip_from_str (trim e)) (split_on (CHR '','') (spoofed @ '','' @ text)) = map Inr chain'"
      "client_of_chain policy chain' (fwd_client_ip c')" by auto
    from chain'(1) obtain extra rest where "chain' = extra @ rest"
      "map Inr rest = map (\<lambda>e. ip_from_str (trim e)) (split_on (CHR '','') text)"
      by (auto simp: split_on_append append_eq_map_conv)
    then have "chain' = extra @ chain" using chain(1) by (simp add: inj_map_eq_map [OF inj_Inr])
    with chain'(2) client_of_chain_prepend [OF chain(2), of extra]
    have "fwd_client_ip c' = fwd_client_ip c" by (metis select_from_rev sum.inject(2))
    moreover have "fwd_scheme c' = fwd_scheme c \<and> fwd_host c' = fwd_host c"
      using assms(4) new
      by (auto simp: parse_x_forwarded_headers_def single_header_def split: if_splits option.splits)
    ultimately show ?thesis by simp
  qed
  moreover have "parse_x_forwarded_headers d authority_ok (headers(''x-forwarded-for'' := [v'])) policy \<noteq> Inr None"
    by (auto simp: parse_x_forwarded_headers_def single_header_def split: if_splits option.splits list.splits)
  moreover have "r \<in> {Inl (), Inr (Some c)}" if "\<And>c'. r = Inr (Some c') \<Longrightarrow> c' = c" "r \<noteq> Inr None" for r
    using that by (cases r rule: sum.exhaust [case_product option.exhaust [of "projr r"]]) auto
  ultimately show ?thesis by blast
qed

text \<open>C33. A client cannot forge its address: putting further addresses in front of the
  \<open>X-Forwarded-For\<close> value that the proxies append to either makes the request invalid or leaves the
  result unchanged.\<close>

theorem x_forwarded_prepend:
  assumes "headers ''x-forwarded-for'' = [v]" "header_to_str d v = Some text"
    and "header_to_str d v' = Some (spoofed @ '','' @ text)"
    and "parse_x_forwarded_headers d authority_ok headers policy = Inr (Some c)"
  shows "parse_x_forwarded_headers d authority_ok (headers(''x-forwarded-for'' := [v'])) policy
    \<in> {Inl (), Inr (Some c)}"
  by (rule x_forwarded_prepend_same [OF assms])

definition sample_policy :: trusted_proxy_policy where
  "sample_policy = \<lparr>tp_networks = [\<lparr>net_address = V4 0x0A000000, net_prefix = 8\<rparr>], tp_forwarded_chain_hops = 2\<rparr>"

lemma read_octets_numeral:
  "read_octets index (numeral k) s =
     (case read_separator (CHR ''.'') index (read_number 10 3 False 256) s of
        None \<Rightarrow> None
      | Some (octet, rest) \<Rightarrow>
          (case read_octets (index + 1) (pred_numeral k) rest of
             None \<Rightarrow> None
           | Some (octets, rest') \<Rightarrow> Some (octet # octets, rest')))"
  by (simp add: numeral_eq_Suc)

lemmas ip_eval =
  ip_from_str_def read_ipv4_addr_def read_octets_numeral read_number_def read_separator_def read_given_char_def
  digit_of_def in_codes_def be_value_def

lemma sample_ips:
  "ip_from_str ''10.0.0.2'' = Inr (V4 0x0A000002)"
  "ip_from_str ''203.0.113.7'' = Inr (V4 0xCB007107)"
  by (simp_all add: ip_eval)

lemma sample_trusts: "trusts sample_policy (V4 0x0A000002)" "\<not> trusts sample_policy (V4 0xCB007107)"
  by (simp_all add: trusts_def sample_policy_def network_contains_def)

definition proxied_request :: request where
  "proxied_request = (sample_request ''GET'' ''/'')
     \<lparr>req_headers := no_headers(''x-forwarded-for'' := [''203.0.113.7, 10.0.0.2'']),
      req_extensions := no_extensions\<lparr>ext_connection := Some \<lparr>peer_ip = V4 0x0A000002, peer_port = 443\<rparr>\<rparr>\<rparr>"

definition sample_layer :: trusted_proxy_layer where
  "sample_layer = with_x_forwarded (trusted_proxy_layer_new sample_policy)"

lemma sample_hops: "tp_forwarded_chain_hops sample_policy = 2"
  by (simp add: sample_policy_def)

lemmas x_forwarded_eval =
  parse_x_forwarded_headers_def single_header_def bounded_header_text_def sample_deps_def
  select_client_ip_def sample_hops sample_trusts sample_ips optional_def no_headers_def trim_eval

lemma sample_x_forwarded:
  "parse_x_forwarded_headers sample_deps (\<lambda>_. True)
     (no_headers(''x-forwarded-for'' := [''203.0.113.7, 10.0.0.2''])) sample_policy =
   Inr (Some \<lparr>fwd_client_ip = V4 0xCB007107, fwd_scheme = None, fwd_host = None\<rparr>)"
  by (simp add: x_forwarded_eval)

lemma x_forwarded_prepend_witness:
  "parse_x_forwarded_headers sample_deps (\<lambda>_. True)
     (no_headers(''x-forwarded-for'' := [''10.0.0.2'' @ '','' @ ''203.0.113.7, 10.0.0.2''])) sample_policy
   \<in> {Inl (), Inr (Some \<lparr>fwd_client_ip = V4 0xCB007107, fwd_scheme = None, fwd_host = None\<rparr>)}"
  using x_forwarded_prepend [OF _ _ _ sample_x_forwarded, of "''203.0.113.7, 10.0.0.2''" "''203.0.113.7, 10.0.0.2''"
      "''10.0.0.2'' @ '','' @ ''203.0.113.7, 10.0.0.2''" "''10.0.0.2''"]
  by (simp add: sample_deps_def fun_upd_def cong: if_cong)

text \<open>An inner service that shows the client address it sees.\<close>

definition show_client :: "request \<Rightarrow> response" where
  "show_client req = string_into_response
     (if ext_forwarded (req_extensions req) =
           Some \<lparr>fwd_client_ip = V4 0xCB007107, fwd_scheme = None, fwd_host = None\<rparr>
      then ''client'' else ''other'')"

lemma trusted_proxy_call_client_witness:
  "\<exists>(context :: forwarded_context) chain.
     trusted_proxy_call sample_deps (\<lambda>_. True) sample_layer show_client proxied_request =
     string_into_response ''client'' \<and>
     length chain \<le> 3 \<and> client_of_chain sample_policy chain (fwd_client_ip context)"
proof -
  let ?call = "trusted_proxy_call sample_deps (\<lambda>_. True) sample_layer show_client proxied_request"
  have peer: "ext_connection (req_extensions proxied_request) = Some \<lparr>peer_ip = V4 0x0A000002, peer_port = 443\<rparr>"
    by (simp add: proxied_request_def)
  have pol: "tpl_policy sample_layer = sample_policy"
    by (simp add: sample_layer_def with_x_forwarded_def trusted_proxy_layer_new_def)
  have call: "?call = string_into_response ''client''"
    using sample_x_forwarded peer sample_trusts
    by (simp add: trusted_proxy_call_def pol parse_family_headers_def sample_layer_def with_x_forwarded_def
        trusted_proxy_layer_new_def proxied_request_def sample_request_def show_client_def)
  have other: "show_client proxied_request = string_into_response ''other''"
    by (simp add: show_client_def proxied_request_def no_extensions_def)
  have "string_into_response ''client'' \<noteq> string_into_response ''other''"
    "resp_status (string_into_response ''client'') = 200"
    by (simp_all add: response_builders status_disallows_body_def full_body_def)
  with trusted_proxy_call_client [OF peer, of sample_layer sample_deps "\<lambda>_. True" show_client] call other
  show ?thesis by (auto simp: pol sample_trusts sample_hops)
qed

end
