(* ===== verification/Layers.thy ===== *)
theory Layers
  imports Negotiation
begin

text \<open>
  The two small layers of \<open>crates/rustee-middleware/src\<close>: the single-origin CORS policy
  (\<open>cors.rs\<close>) and the panic boundary (\<open>panic.rs\<close>).
\<close>

section \<open>CORS\<close>

record cors_layer =
  cors_allowed_origin :: bytes
  cors_allowed_methods :: bytes
  cors_allowed_headers :: bytes
  cors_allow_credentials :: bool


definition allow_methods :: "cors_layer \<Rightarrow> bytes \<Rightarrow> cors_layer" where
  "allow_methods policy methods = policy\<lparr>cors_allowed_methods := methods\<rparr>"

definition allow_headers :: "cors_layer \<Rightarrow> bytes \<Rightarrow> cors_layer" where
  "allow_headers policy headers = policy\<lparr>cors_allowed_headers := headers\<rparr>"

definition allow_credentials :: "cors_layer \<Rightarrow> bool \<Rightarrow> cors_layer" where
  "allow_credentials policy allowed = policy\<lparr>cors_allow_credentials := allowed\<rparr>"


definition add_vary_origin :: "deps \<Rightarrow> header_map \<Rightarrow> header_map" where
  "add_vary_origin d headers = add_vary d ''origin'' ''Origin'' headers"

definition apply_origin :: "deps \<Rightarrow> cors_layer \<Rightarrow> response \<Rightarrow> response" where
  "apply_origin d policy r =
     (let h = header_insert ''access-control-allow-origin'' (cors_allowed_origin policy) (resp_headers r);
          h = add_vary_origin d h in
      r\<lparr>resp_headers :=
          (if cors_allow_credentials policy
           then header_insert ''access-control-allow-credentials'' ''true'' h else h)\<rparr>)"







section \<open>The panic boundary\<close>

text \<open>A service that may panic while it produces its response has no response then.\<close>

definition panic_call :: "deps \<Rightarrow> (request \<Rightarrow> response option) \<Rightarrow> request \<Rightarrow> response" where
  "panic_call d inner req =
     (case inner req of
        Some r \<Rightarrow> r
      | None \<Rightarrow> error_into_response d error_internal)"

section \<open>Lemmas\<close>



lemma varies_on_insert [simp]:
  "name \<noteq> ''vary'' \<Longrightarrow> varies_on d f (header_insert name v h) = varies_on d f h"
  by (simp add: varies_on_def)

lemma add_vary_origin_other [simp]: "name \<noteq> ''vary'' \<Longrightarrow> add_vary_origin d h name = h name"
  by (simp add: add_vary_origin_def)




lemma apply_origin_keeps_vary:
  "varies_on d f (resp_headers r) \<Longrightarrow> varies_on d f (resp_headers (apply_origin d policy r))"
  by (simp add: apply_origin_def Let_def add_vary_origin_def add_vary_keeps)

section \<open>Properties\<close>



end
