(* ===== verification/RateLimit.thy ===== *)
theory RateLimit
  imports Http
begin

text \<open>
  Fixed-window rate limiting: policies, keys and decisions
  (\<open>crates/rustee-rate-limit/src/policy.rs\<close>), the layer (\<open>middleware.rs\<close>), and the Redis store
  (\<open>crates/rustee-rate-limit-redis/src/lib.rs\<close>) with its namespace grammar
  (\<open>crates/rustee-redis/src/namespace.rs\<close>).

  The Redis server is the record \<open>redis_api\<close>: the three commands the store's script issues, on an
  abstract server state, and whether the server answers at all.
\<close>

section \<open>Policy\<close>

abbreviation MAX_KEY_BYTES :: nat where "MAX_KEY_BYTES \<equiv> 256"

datatype rate_limit_config_error = ZeroLimit | InvalidWindow | InvalidKey

datatype rate_limit_key = RateLimitKey (key_str: string)

definition rate_limit_key_new :: "string \<Rightarrow> (rate_limit_config_error, rate_limit_key) result" where
  "rate_limit_key_new value =
     (if trim value = [] \<or> length value > MAX_KEY_BYTES \<or> has_control value
      then Inl InvalidKey else Inr (RateLimitKey value))"

record fixed_window =
  fw_limit :: nat
  fw_window :: duration
  fw_window_millis :: nat

definition fixed_window_new :: "nat \<Rightarrow> duration \<Rightarrow> (rate_limit_config_error, fixed_window) result" where
  "fixed_window_new limit window =
     (if limit = 0 then Inl ZeroLimit
      else
        let window_millis = as_millis window in
        if window_millis \<ge> u64_bound then Inl InvalidWindow
        else if window_millis = 0 \<or> subsec_nanos window mod 1000000 \<noteq> 0 \<or> window_millis > i64_max
        then Inl InvalidWindow
        else Inr \<lparr>fw_limit = limit, fw_window = window, fw_window_millis = window_millis\<rparr>)"

record rate_limit_decision =
  dec_allowed :: bool
  dec_limit :: nat
  dec_remaining :: nat
  dec_reset_after :: duration

definition decision_allowed :: "fixed_window \<Rightarrow> nat \<Rightarrow> duration \<Rightarrow> rate_limit_decision" where
  "decision_allowed policy remaining reset_after =
     \<lparr>dec_allowed = True, dec_limit = fw_limit policy, dec_remaining = min remaining (fw_limit policy),
      dec_reset_after = reset_after\<rparr>"

definition decision_denied :: "fixed_window \<Rightarrow> duration \<Rightarrow> rate_limit_decision" where
  "decision_denied policy reset_after =
     \<lparr>dec_allowed = False, dec_limit = fw_limit policy, dec_remaining = 0, dec_reset_after = reset_after\<rparr>"

section \<open>The layer\<close>

datatype store_failure_policy = FailClosed | FailOpen

text \<open>The answer of a store is an error or a decision, with its new state.\<close>

type_synonym 's store_check =
  "rate_limit_key \<Rightarrow> fixed_window \<Rightarrow> 's \<Rightarrow> (unit, rate_limit_decision) result \<times> 's"

definition rounded_seconds :: "duration \<Rightarrow> nat" where
  "rounded_seconds d = saturating_add u64_bound (as_secs d) (if subsec_nanos d \<noteq> 0 then 1 else 0)"

definition with_rate_limit_headers :: "response \<Rightarrow> rate_limit_decision \<Rightarrow> bool \<Rightarrow> response" where
  "with_rate_limit_headers r decision include_retry_after =
     (let reset_seconds = rounded_seconds (dec_reset_after decision);
          h = header_insert ''ratelimit-limit'' (show_nat (dec_limit decision)) (resp_headers r);
          h = header_insert ''ratelimit-remaining'' (show_nat (dec_remaining decision)) h;
          h = header_insert ''ratelimit-reset'' (show_nat reset_seconds) h in
      r\<lparr>resp_headers :=
          (if include_retry_after then header_insert ''retry-after'' (show_nat reset_seconds) h else h)\<rparr>)"

definition rate_limit_call ::
  "deps \<Rightarrow> 's store_check \<Rightarrow> fixed_window \<Rightarrow> (request \<Rightarrow> rate_limit_key option) \<Rightarrow> store_failure_policy \<Rightarrow>
   (request \<Rightarrow> response) \<Rightarrow> request \<Rightarrow> 's \<Rightarrow> response \<times> 's" where
  "rate_limit_call d check policy resolver failure_policy inner req s =
     (case resolver req of
        None \<Rightarrow> (error_into_response d
          (error_new 400 ''rate_limit_key_missing'' ''a rate-limit key is required''), s)
      | Some key \<Rightarrow>
          (case check key policy s of
             (Inr decision, s') \<Rightarrow>
               if dec_allowed decision
               then (with_rate_limit_headers (inner req) decision False, s')
               else (with_rate_limit_headers (error_into_response d
                       (error_new 429 ''rate_limit_exceeded'' ''request rate limit exceeded'')) decision True, s')
           | (Inl _, s') \<Rightarrow>
               if failure_policy = FailOpen then (inner req, s')
               else (error_into_response d
                       (error_new 503 ''rate_limit_unavailable'' ''rate limiting is unavailable''), s')))"

section \<open>The Redis store\<close>

abbreviation MAX_KEY_NAMESPACE_BYTES :: nat where "MAX_KEY_NAMESPACE_BYTES \<equiv> 128"

definition is_valid_key_namespace :: "string \<Rightarrow> bool" where
  "is_valid_key_namespace namespace \<longleftrightarrow>
     namespace \<noteq> [] \<and> length namespace \<le> MAX_KEY_NAMESPACE_BYTES \<and>
     list_all (\<lambda>b. is_ascii_alphanumeric b \<or> b \<in> {CHR '':'', CHR ''_'', CHR ''-'', CHR ''.''}) namespace"

record 's redis_api =
  redis_reachable :: "'s \<Rightarrow> bool"
  redis_incr :: "string \<Rightarrow> 's \<Rightarrow> nat \<times> 's"
  redis_pexpire :: "string \<Rightarrow> nat \<Rightarrow> 's \<Rightarrow> 's"
  redis_pttl :: "string \<Rightarrow> 's \<Rightarrow> int"

definition redis_store_new :: "string \<Rightarrow> string option" where
  "redis_store_new namespace = (if is_valid_key_namespace namespace then Some namespace else None)"

definition storage_key :: "string \<Rightarrow> rate_limit_key \<Rightarrow> string" where
  "storage_key namespace key =
     ''rustee:rate-limit:v1'' @ '':'' @ show_nat (length namespace) @ '':'' @ namespace @ '':''
       @ show_nat (length (key_str key)) @ '':'' @ key_str key"

text \<open>\<open>FIXED_WINDOW_SCRIPT\<close>, which the server runs atomically.\<close>

definition fixed_window_script :: "'s redis_api \<Rightarrow> string \<Rightarrow> nat \<Rightarrow> 's \<Rightarrow> (nat \<times> int) \<times> 's" where
  "fixed_window_script api key window_millis s =
     (let (count, s1) = redis_incr api key s;
          s2 = (if count = 1 then redis_pexpire api key window_millis s1 else s1);
          ttl = redis_pttl api key s2 in
      ((count, ttl), s2))"

definition reset_after :: "int \<Rightarrow> (unit, duration) result" where
  "reset_after ttl_millis = (if ttl_millis < 0 then Inl () else Inr (from_millis (nat ttl_millis)))"

definition redis_check :: "'s redis_api \<Rightarrow> string \<Rightarrow> 's store_check" where
  "redis_check api namespace key policy s =
     (if \<not> redis_reachable api s then (Inl (), s)
      else
        let ((count, ttl), s') = fixed_window_script api (storage_key namespace key) (fw_window_millis policy) s in
        (bind_result (reset_after ttl) (\<lambda>reset.
           Inr (if count \<le> fw_limit policy
                then decision_allowed policy
                       (fw_limit policy - (if count < u32_bound then count else u32_bound - 1)) reset
                else decision_denied policy reset)), s'))"

section \<open>The store contract\<close>

text \<open>What the layer relies on: a decision reports the limit of the policy, never more remaining
  requests than that, and none when it denies.\<close>

definition decision_ok :: "fixed_window \<Rightarrow> rate_limit_decision \<Rightarrow> bool" where
  "decision_ok policy d \<longleftrightarrow>
     dec_limit d = fw_limit policy \<and> dec_remaining d \<le> fw_limit policy \<and>
     (\<not> dec_allowed d \<longrightarrow> dec_remaining d = 0)"

lemma rounded_seconds_ceiling:
  assumes "as_secs d < u64_bound - 1"
  shows "d \<le> rounded_seconds d * nanos_per_sec \<and> rounded_seconds d * nanos_per_sec < d + nanos_per_sec"
proof -
  have d: "as_secs d * nanos_per_sec + subsec_nanos d = d"
    unfolding as_secs_def subsec_nanos_def by (rule div_mult_mod_eq)
  have r: "subsec_nanos d < nanos_per_sec" by (simp add: subsec_nanos_def)
  have rs: "rounded_seconds d = as_secs d + (if subsec_nanos d \<noteq> 0 then 1 else 0)"
    using assms by (simp add: rounded_seconds_def saturating_add_def)
  show ?thesis
  proof (cases "subsec_nanos d = 0")
    case True
    with rs have "rounded_seconds d * nanos_per_sec = as_secs d * nanos_per_sec" by simp
    with d True show ?thesis by linarith
  next
    case False
    with rs have "rounded_seconds d * nanos_per_sec = as_secs d * nanos_per_sec + nanos_per_sec" by simp
    with d r False show ?thesis by linarith
  qed
qed

locale rate_limit_store =
  fixes check :: "'s store_check"
  assumes check_decision: "fst (check key policy s) = Inr d \<Longrightarrow> decision_ok policy d"
begin

lemma call_allowed:
  assumes "resolver req = Some key" "check key policy s = (Inr dec, s')" "dec_allowed dec"
  shows "rate_limit_call d check policy resolver fp inner req s =
    (with_rate_limit_headers (inner req) dec False, s')"
  using assms by (simp add: rate_limit_call_def)

lemma call_denied:
  assumes "resolver req = Some key" "check key policy s = (Inr dec, s')" "\<not> dec_allowed dec"
    and "rate_limit_call d check policy resolver fp inner req s = (r, s'')"
  shows "s'' = s' \<and> resp_status r = 429 \<and> resp_headers r ''ratelimit-remaining'' = [''0''] \<and>
    resp_headers r ''retry-after'' = [show_nat (rounded_seconds (dec_reset_after dec))] \<and>
    (\<forall>other. rate_limit_call d check policy resolver fp other req s = (r, s''))"
proof -
  have "dec_remaining dec = 0" using check_decision [of key policy s dec] assms(2,3) by (simp add: decision_ok_def)
  with assms show ?thesis
    by (auto simp: rate_limit_call_def with_rate_limit_headers_def Let_def show_nat_0)
qed

lemma headers_consistent:
  assumes "resolver req = Some key" "check key policy s = (Inr dec, s')"
    and "rate_limit_call d check policy resolver fp inner req s = (r, s'')"
  shows "resp_headers r ''ratelimit-limit'' = [show_nat (fw_limit policy)] \<and>
    (\<exists>n \<le> fw_limit policy. resp_headers r ''ratelimit-remaining'' = [show_nat n]) \<and>
    resp_headers r ''ratelimit-reset'' = [show_nat (rounded_seconds (dec_reset_after dec))]"
  using check_decision [of key policy s dec] assms
  by (auto simp: rate_limit_call_def with_rate_limit_headers_def Let_def decision_ok_def split: if_splits)

end

lemma redis_check_decision:
  "fst (redis_check api namespace key policy s) = Inr d \<Longrightarrow> decision_ok policy d"
  by (auto simp: redis_check_def decision_ok_def decision_allowed_def decision_denied_def Let_def
      split: if_splits prod.splits)

interpretation redis: rate_limit_store "redis_check api namespace" for api namespace
  by unfold_locales (rule redis_check_decision)

section \<open>Storage keys\<close>

lemma storage_key_inj: "storage_key n k = storage_key n' k' \<longleftrightarrow> n = n' \<and> k = k'"
proof
  assume "storage_key n k = storage_key n' k'"
  then have "show_nat (length n) @ CHR '':'' # n @ CHR '':'' # show_nat (length (key_str k)) @ CHR '':'' # key_str k =
      show_nat (length n') @ CHR '':'' # n' @ CHR '':'' # show_nat (length (key_str k')) @ CHR '':'' # key_str k'"
    by (simp add: storage_key_def)
  note d = delimited_inj [OF this colon_not_digit colon_not_digit]
  have len: "length n = length n'" by (rule show_base_inj [OF _ _ conjunct1 [OF d]]) simp_all
  from conjunct2 [OF d] len have "n = n'"
    "show_nat (length (key_str k)) @ CHR '':'' # key_str k = show_nat (length (key_str k')) @ CHR '':'' # key_str k'"
    by simp_all
  with delimited_inj [OF this(2) colon_not_digit colon_not_digit] show "n = n' \<and> k = k'"
    by (simp add: rate_limit_key.expand)
qed simp

section \<open>One window\<close>

text \<open>The observable part of a server state, and the documented effect of the commands and of
  elapsing time on it: \<open>INCR\<close> counts a missing key from zero, \<open>PEXPIRE\<close> sets a deadline, \<open>PTTL\<close>
  reads the time to it, and a key disappears when its deadline is reached.\<close>

record redis_view =
  rv_count :: "string \<Rightarrow> nat"
  rv_deadline :: "string \<Rightarrow> nat option"
  rv_now :: nat

definition elapse_view :: "nat \<Rightarrow> redis_view \<Rightarrow> redis_view" where
  "elapse_view t v =
     (let alive = (\<lambda>k. case rv_deadline v k of None \<Rightarrow> True | Some limit \<Rightarrow> rv_now v + t < limit) in
      \<lparr>rv_count = (\<lambda>k. if alive k then rv_count v k else 0),
       rv_deadline = (\<lambda>k. if alive k then rv_deadline v k else None), rv_now = rv_now v + t\<rparr>)"

definition redis_documented :: "'s redis_api \<Rightarrow> ('s \<Rightarrow> redis_view) \<Rightarrow> (nat \<Rightarrow> 's \<Rightarrow> 's) \<Rightarrow> bool" where
  "redis_documented api view elapse \<longleftrightarrow>
     (\<forall>s. redis_reachable api s) \<and>
     (\<forall>k s. fst (redis_incr api k s) = rv_count (view s) k + 1 \<and>
        view (snd (redis_incr api k s)) =
          (view s)\<lparr>rv_count := (rv_count (view s))(k := rv_count (view s) k + 1)\<rparr>) \<and>
     (\<forall>k ms s. view (redis_pexpire api k ms s) =
        (view s)\<lparr>rv_deadline := (rv_deadline (view s))(k \<mapsto> rv_now (view s) + ms)\<rparr>) \<and>
     (\<forall>k s. redis_pttl api k s =
        (if rv_count (view s) k = 0 then -2
         else case rv_deadline (view s) k of None \<Rightarrow> -1 | Some t \<Rightarrow> int t - int (rv_now (view s)))) \<and>
     (\<forall>t s. view (elapse t s) = elapse_view t (view s))"

datatype event = CheckKey rate_limit_key | Elapse nat

fun run_events ::
  "'s redis_api \<Rightarrow> string \<Rightarrow> fixed_window \<Rightarrow> (nat \<Rightarrow> 's \<Rightarrow> 's) \<Rightarrow> event list \<Rightarrow> 's \<Rightarrow>
   (rate_limit_key \<times> (unit, rate_limit_decision) result) list" where
  "run_events api namespace policy elapse [] s = []"
| "run_events api namespace policy elapse (CheckKey key # events) s =
     (case redis_check api namespace key policy s of
        (r, s') \<Rightarrow> (key, r) # run_events api namespace policy elapse events s')"
| "run_events api namespace policy elapse (Elapse t # events) s =
     run_events api namespace policy elapse events (elapse t s)"

fun elapsed :: "event list \<Rightarrow> nat" where
  "elapsed [] = 0"
| "elapsed (CheckKey _ # events) = elapsed events"
| "elapsed (Elapse t # events) = t + elapsed events"

text \<open>The outcomes for one key: whether each request was allowed and how many remained.\<close>

fun outcome :: "(unit, rate_limit_decision) result \<Rightarrow> (bool \<times> nat) option" where
  "outcome (Inl _) = None"
| "outcome (Inr d) = Some (dec_allowed d, dec_remaining d)"

definition outcomes_for ::
  "rate_limit_key \<Rightarrow> (rate_limit_key \<times> (unit, rate_limit_decision) result) list \<Rightarrow> (bool \<times> nat) option list" where
  "outcomes_for key results = map (outcome \<circ> snd) (filter (\<lambda>(k, _). k = key) results)"

lemma redis_documentedD:
  assumes "redis_documented api view elapse"
  shows "redis_reachable api s"
    and "fst (redis_incr api k s) = rv_count (view s) k + 1"
    and "view (snd (redis_incr api k s)) =
      (view s)\<lparr>rv_count := (rv_count (view s))(k := rv_count (view s) k + 1)\<rparr>"
    and "view (redis_pexpire api k ms s) =
      (view s)\<lparr>rv_deadline := (rv_deadline (view s))(k \<mapsto> rv_now (view s) + ms)\<rparr>"
    and "redis_pttl api k s =
      (if rv_count (view s) k = 0 then -2
       else case rv_deadline (view s) k of None \<Rightarrow> -1 | Some t \<Rightarrow> int t - int (rv_now (view s)))"
    and "view (elapse t s) = elapse_view t (view s)"
  using assms unfolding redis_documented_def by blast+

text \<open>The effect of one check on the observable state.\<close>

definition check_view :: "string \<Rightarrow> nat \<Rightarrow> redis_view \<Rightarrow> redis_view" where
  "check_view k window_millis v =
     v\<lparr>rv_count := (rv_count v)(k := rv_count v k + 1),
       rv_deadline := (if rv_count v k = 0 then (rv_deadline v)(k \<mapsto> rv_now v + window_millis) else rv_deadline v)\<rparr>"

lemma redis_check_view:
  assumes "redis_documented api view elapse"
  shows "view (snd (redis_check api namespace key policy s)) =
    check_view (storage_key namespace key) (fw_window_millis policy) (view s)"
proof -
  let ?k = "storage_key namespace key"
  obtain n s1 where incr: "redis_incr api ?k s = (n, s1)" by force
  have n: "n = rv_count (view s) ?k + 1"
    "view s1 = (view s)\<lparr>rv_count := (rv_count (view s))(?k := rv_count (view s) ?k + 1)\<rparr>"
    using redis_documentedD(2,3) [OF assms, of ?k s] incr by simp_all
  have "snd (redis_check api namespace key policy s) =
      (if n = 1 then redis_pexpire api ?k (fw_window_millis policy) s1 else s1)"
    by (simp add: redis_check_def redis_documentedD(1) [OF assms] fixed_window_script_def Let_def incr)
  then show ?thesis
    using n redis_documentedD(4) [OF assms, of ?k "fw_window_millis policy" s1]
    by (simp add: check_view_def)
qed

lemma redis_check_outcome:
  assumes "redis_documented api view elapse" "fw_limit policy < u32_bound"
    and "rv_deadline (check_view (storage_key namespace key) (fw_window_millis policy) (view s))
           (storage_key namespace key) = Some t" "rv_now (view s) \<le> t"
  shows "outcome (fst (redis_check api namespace key policy s)) =
    (let n = rv_count (view s) (storage_key namespace key) + 1 in Some (n \<le> fw_limit policy, fw_limit policy - n))"
proof -
  let ?k = "storage_key namespace key"
  obtain n s1 where incr: "redis_incr api ?k s = (n, s1)" by force
  have n: "n = rv_count (view s) ?k + 1" using redis_documentedD(2) [OF assms(1), of ?k s] incr by simp
  obtain s2 where s2: "s2 = snd (redis_check api namespace key policy s)" by blast
  have step: "redis_check api namespace key policy s =
      (bind_result (reset_after (redis_pttl api ?k s2)) (\<lambda>reset.
         Inr (if n \<le> fw_limit policy
              then decision_allowed policy (fw_limit policy - (if n < u32_bound then n else u32_bound - 1)) reset
              else decision_denied policy reset)), s2)"
    unfolding s2 by (simp add: redis_check_def redis_documentedD(1) [OF assms(1)] fixed_window_script_def Let_def incr)
  have "view s2 = check_view ?k (fw_window_millis policy) (view s)"
    unfolding s2 by (rule redis_check_view [OF assms(1)])
  then have "rv_count (view s2) ?k \<noteq> 0" "rv_now (view s2) = rv_now (view s)" "rv_deadline (view s2) ?k = Some t"
    using assms(3) by (simp_all add: check_view_def)
  then have "redis_pttl api ?k s2 = int t - int (rv_now (view s))"
    using redis_documentedD(5) [OF assms(1), of ?k s2] by simp
  with assms(2,4) n show ?thesis
    by (simp add: step reset_after_def decision_allowed_def decision_denied_def)
qed

text \<open>The window of a key: not started, or started with a deadline that the remaining events do not
  reach.\<close>

definition window_open :: "redis_view \<Rightarrow> string \<Rightarrow> nat \<Rightarrow> nat \<Rightarrow> bool" where
  "window_open v k window_millis remaining \<longleftrightarrow>
     (if rv_count v k = 0 then rv_deadline v k = None \<and> remaining < window_millis
      else \<exists>t. rv_deadline v k = Some t \<and> rv_now v + remaining < t)"

lemma window_open_check_same:
  "window_open v k w m \<Longrightarrow> window_open (check_view k w v) k w m"
  by (auto simp: window_open_def check_view_def split: if_splits)

lemma window_open_check_other:
  "k' \<noteq> k \<Longrightarrow> window_open v k w m \<Longrightarrow> window_open (check_view k' w v) k w m"
  by (auto simp: window_open_def check_view_def split: if_splits)

lemma window_open_elapse:
  "window_open v k w (t + m) \<Longrightarrow>
   window_open (elapse_view t v) k w m \<and> rv_count (elapse_view t v) k = rv_count v k"
  by (auto simp: window_open_def elapse_view_def Let_def split: if_splits option.splits)

lemma window_open_deadline:
  "window_open v k w m \<Longrightarrow> \<exists>t. rv_deadline (check_view k w v) k = Some t \<and> rv_now v \<le> t"
  by (auto simp: window_open_def check_view_def split: if_splits)

lemma run_events_outcomes:
  assumes doc: "redis_documented api view elapse" and lim: "fw_limit policy < u32_bound"
  shows "window_open (view s) (storage_key namespace key) (fw_window_millis policy) (elapsed events) \<Longrightarrow>
    rv_count (view s) (storage_key namespace key) = n \<Longrightarrow>
    \<exists>m. outcomes_for key (run_events api namespace policy elapse events s) =
      map (\<lambda>i. Some (i \<le> fw_limit policy, fw_limit policy - i)) [n + 1..<n + 1 + m] \<and>
      m = length (filter (\<lambda>e. e = CheckKey key) events)"
proof (induction events arbitrary: s n)
  case Nil
  then show ?case by (simp add: outcomes_for_def)
next
  case (Cons e events)
  let ?sk = "storage_key namespace key" and ?w = "fw_window_millis policy"
  show ?case
  proof (cases e)
    case (Elapse t)
    with Cons.prems have "window_open (view (elapse t s)) ?sk ?w (elapsed events)"
      "rv_count (view (elapse t s)) ?sk = n"
      using window_open_elapse [of "view s"] redis_documentedD(6) [OF doc] by simp_all
    from Cons.IH [OF this] Elapse show ?thesis by simp
  next
    case (CheckKey k)
    obtain r s' where r: "redis_check api namespace k policy s = (r, s')" by force
    have view': "view s' = check_view (storage_key namespace k) ?w (view s)"
      using redis_check_view [OF doc, of namespace k policy s] r by simp
    have open_: "window_open (view s) ?sk ?w (elapsed events)" using Cons.prems CheckKey by simp
    show ?thesis
    proof (cases "k = key")
      case True
      from window_open_check_same [OF open_] have "window_open (view s') ?sk ?w (elapsed events)"
        using view' True by simp
      moreover have "rv_count (view s') ?sk = n + 1" using view' True Cons.prems(2) by (simp add: check_view_def)
      ultimately obtain m where m: "outcomes_for key (run_events api namespace policy elapse events s') =
          map (\<lambda>i. Some (i \<le> fw_limit policy, fw_limit policy - i)) [n + 1 + 1..<n + 1 + 1 + m]"
        "m = length (filter (\<lambda>e. e = CheckKey key) events)" using Cons.IH by blast
      obtain t where "rv_deadline (check_view ?sk ?w (view s)) ?sk = Some t" "rv_now (view s) \<le> t"
        using window_open_deadline [OF open_] by blast
      from redis_check_outcome [OF doc lim this] r True Cons.prems(2)
      have "outcome r = Some (n + 1 \<le> fw_limit policy, fw_limit policy - (n + 1))" by (simp add: Let_def)
      moreover have "[n + 1..<n + 1 + Suc m] = (n + 1) # [n + 1 + 1..<n + 1 + 1 + m]"
        by (simp add: upt_conv_Cons del: upt_Suc)
      ultimately show ?thesis using m r True CheckKey
        by (intro exI [of _ "Suc m"]) (simp add: outcomes_for_def del: upt_Suc)
    next
      case False
      then have "storage_key namespace k \<noteq> ?sk" by (simp add: storage_key_inj)
      then have "window_open (view s') ?sk ?w (elapsed events)" "rv_count (view s') ?sk = n"
        using view' window_open_check_other [OF _ open_] Cons.prems(2) by (simp_all add: check_view_def)
      from Cons.IH [OF this] False CheckKey r show ?thesis by (simp add: outcomes_for_def)
    qed
  qed
qed

section \<open>Properties\<close>

text \<open>C10. Within one window a key gets exactly its limit: starting from a key the server does not
  hold, in any interleaving of checks of this and other keys with less than a window of elapsing
  time, the i-th check of the key is allowed precisely when i is at most the limit, and reports
  the rest of the limit as remaining.\<close>

theorem redis_window_limit:
  assumes "redis_documented api view elapse" "fw_limit policy < u32_bound"
    and "rv_count (view s) (storage_key namespace key) = 0"
    and "rv_deadline (view s) (storage_key namespace key) = None"
    and "elapsed events < fw_window_millis policy"
  shows "outcomes_for key (run_events api namespace policy elapse events s) =
    map (\<lambda>i. Some (i \<le> fw_limit policy, fw_limit policy - i))
      [1..<1 + length (filter (\<lambda>e. e = CheckKey key) events)]"
proof -
  have "window_open (view s) (storage_key namespace key) (fw_window_millis policy) (elapsed events)"
    using assms(3-5) by (simp add: window_open_def)
  from run_events_outcomes [OF assms(1,2) this assms(3)] show ?thesis by auto
qed

definition view_api :: "redis_view redis_api" where
  "view_api = \<lparr>redis_reachable = (\<lambda>_. True),
     redis_incr = (\<lambda>k v. (rv_count v k + 1, v\<lparr>rv_count := (rv_count v)(k := rv_count v k + 1)\<rparr>)),
     redis_pexpire = (\<lambda>k ms v. v\<lparr>rv_deadline := (rv_deadline v)(k \<mapsto> rv_now v + ms)\<rparr>),
     redis_pttl = (\<lambda>k v. if rv_count v k = 0 then -2
       else case rv_deadline v k of None \<Rightarrow> -1 | Some t \<Rightarrow> int t - int (rv_now v))\<rparr>"

lemma view_api_documented: "redis_documented view_api (\<lambda>v. v) elapse_view"
  by (simp add: redis_documented_def view_api_def)

definition empty_view :: redis_view where
  "empty_view = \<lparr>rv_count = (\<lambda>_. 0), rv_deadline = (\<lambda>_. None), rv_now = 0\<rparr>"

definition sample_window :: fixed_window where
  "sample_window = \<lparr>fw_limit = 1, fw_window = from_millis 1000, fw_window_millis = 1000\<rparr>"

lemma redis_window_limit_witness:
  "outcomes_for (RateLimitKey ''a'') (run_events view_api ''rl'' sample_window elapse_view
     [CheckKey (RateLimitKey ''a''), Elapse 5, CheckKey (RateLimitKey ''b''), CheckKey (RateLimitKey ''a'')] empty_view) =
   [Some (True, 0), Some (False, 0)]"
  using redis_window_limit [OF view_api_documented, of sample_window empty_view "''rl''" "RateLimitKey ''a''"
      "[CheckKey (RateLimitKey ''a''), Elapse 5, CheckKey (RateLimitKey ''b''), CheckKey (RateLimitKey ''a'')]"]
  by (simp add: sample_window_def empty_view_def upt_rec)

text \<open>Different namespaces or keys never share a counter: the storage key determines both.\<close>

theorem storage_key_injective: "storage_key n k = storage_key n' k' \<longleftrightarrow> n = n' \<and> k = k'"
  by (rule storage_key_inj)

text \<open>C34. The layer calls the application only for an allowed request, or for an unanswered check
  under \<open>FailOpen\<close>.  A denied request gets 429 without consulting the application, reports no
  remaining requests, and names a retry delay that covers the rest of the window and exceeds it by
  less than a second; a missing key is 400 and an unanswered check under \<open>FailClosed\<close> is 503.\<close>

theorem rate_limit_call_contract:
  assumes "rate_limit_call d (redis_check api namespace) policy resolver fp inner req s = (r, s')"
  shows "case resolver req of
      None \<Rightarrow> resp_status r = 400 \<and> s' = s
    | Some key \<Rightarrow>
        (case redis_check api namespace key policy s of
           (Inl _, t) \<Rightarrow> s' = t \<and> (if fp = FailOpen then r = inner req else resp_status r = 503)
         | (Inr dec, t) \<Rightarrow> s' = t \<and>
             resp_headers r ''ratelimit-limit'' = [show_nat (fw_limit policy)] \<and>
             (if dec_allowed dec
              then resp_status r = resp_status (inner req) \<and> resp_body r = resp_body (inner req)
              else resp_status r = 429 \<and> resp_headers r ''ratelimit-remaining'' = [''0''] \<and>
                (\<exists>n. resp_headers r ''retry-after'' = [show_nat n] \<and>
                   (as_secs (dec_reset_after dec) < u64_bound - 1 \<longrightarrow>
                      dec_reset_after dec \<le> from_secs n \<and> from_secs n < dec_reset_after dec + from_secs 1)) \<and>
                (\<forall>other. rate_limit_call d (redis_check api namespace) policy resolver fp other req s = (r, s'))))"
proof (cases "resolver req")
  case None
  with assms show ?thesis by (auto simp: rate_limit_call_def)
next
  case (Some key)
  obtain res t where t: "redis_check api namespace key policy s = (res, t)" by force
  show ?thesis
  proof (cases res)
    case (Inl e)
    with assms Some t show ?thesis by (auto simp: rate_limit_call_def split: if_splits)
  next
    case (Inr dec)
    note headers = redis.headers_consistent [OF Some t [unfolded Inr] assms]
    show ?thesis
    proof (cases "dec_allowed dec")
      case True
      with redis.call_allowed [where resolver = resolver and req = req, OF Some t [unfolded Inr] True]
        assms headers Some t Inr show ?thesis
        by (auto simp: with_rate_limit_headers_def Let_def)
    next
      case False
      with redis.call_denied [OF Some t [unfolded Inr] False assms] headers Some t Inr
        rounded_seconds_ceiling [of "dec_reset_after dec"]
      show ?thesis by (auto simp: from_secs_def)
    qed
  qed
qed

lemma rate_limit_call_contract_witness:
  "\<exists>r s'. rate_limit_call sample_deps (redis_check view_api ''rl'') sample_window (\<lambda>_. Some (RateLimitKey ''a''))
       FailClosed (\<lambda>_. string_into_response ''x'') (sample_request ''GET'' ''/'')
       \<lparr>rv_count = (\<lambda>_. 5), rv_deadline = (\<lambda>_. Some 1500), rv_now = 1000\<rparr> = (r, s') \<and>
     resp_status r = 429 \<and> resp_headers r ''ratelimit-remaining'' = [''0'']"
proof -
  let ?s = "\<lparr>rv_count = (\<lambda>_. 5), rv_deadline = (\<lambda>_. Some 1500), rv_now = 1000\<rparr> :: redis_view"
  obtain r s' where r: "rate_limit_call sample_deps (redis_check view_api ''rl'') sample_window
      (\<lambda>_. Some (RateLimitKey ''a'')) FailClosed (\<lambda>_. string_into_response ''x'') (sample_request ''GET'' ''/'') ?s = (r, s')"
    by force
  have "fst (redis_check view_api ''rl'' (RateLimitKey ''a'') sample_window ?s) =
      Inr (decision_denied sample_window (from_millis 500))"
    by (simp add: redis_check_def view_api_def fixed_window_script_def sample_window_def reset_after_def Let_def)
  with rate_limit_call_contract [OF r] r show ?thesis
    by (auto simp: decision_denied_def split: prod.splits)
qed

text \<open>A window is accepted exactly when the limit is positive and the duration is a positive
  whole number of milliseconds that a signed 64 bit integer holds; the stored number of
  milliseconds is then the duration itself.\<close>

theorem fixed_window_new_exact:
  "fixed_window_new limit window = Inr p \<longleftrightarrow>
     0 < limit \<and> p = \<lparr>fw_limit = limit, fw_window = window, fw_window_millis = as_millis window\<rparr> \<and>
     0 < as_millis window \<and> as_millis window \<le> i64_max \<and> window = from_millis (as_millis window)"
proof -
  have "subsec_nanos window mod 1000000 = 0 \<longleftrightarrow> window = from_millis (as_millis window)"
  proof -
    have "subsec_nanos window mod 1000000 = window mod 1000000"
      by (simp add: subsec_nanos_def mod_mod_cancel)
    then show ?thesis
      using div_mult_mod_eq [of window 1000000] unfolding from_millis_def as_millis_def by linarith
  qed
  then show ?thesis by (auto simp: fixed_window_new_def Let_def)
qed

end
