(* ===== verification/CompressionBody.thy ===== *)
theory CompressionBody
  imports Negotiation
begin

text \<open>
  The streaming body of the compression layer (\<open>crates/rustee-middleware/src/compression/body.rs\<close>): the frames of
  the original body are split into data for the encoder and trailers that are kept for the end.

  The encoders of the \<open>async-compression\<close> package are a parameter: the output chunks for the data chunks that
  were read, and for whether reading ended in an error.
\<close>

section \<open>Frames\<close>

datatype frame = DataFrame bytes | TrailersFrame header_map

type_synonym frames = "(body_error, frame) result list"

type_synonym async_encoder = "content_coding \<Rightarrow> bytes list \<Rightarrow> bool \<Rightarrow> bytes list"

text \<open>\<open>HeaderMap::extend\<close>: the values of a name in the second map replace those in the first.\<close>

definition header_extend :: "header_map \<Rightarrow> header_map \<Rightarrow> header_map" where
  "header_extend existing new = (\<lambda>name. if new name = [] then existing name else new name)"

definition store_trailers :: "header_map option \<Rightarrow> header_map \<Rightarrow> header_map option" where
  "store_trailers stored new = Some (case stored of None \<Rightarrow> new | Some existing \<Rightarrow> header_extend existing new)"

text \<open>
  \<open>io::Error::other\<close> wraps the error of the body.  A reader that asks whether the error is a length limit is
  answered by the outer type only, so the wrapped error is another error to it.
\<close>

definition io_error_other :: "body_error \<Rightarrow> body_error" where
  "io_error_other e = OtherBodyError"

text \<open>The filtered input stream, read to its end or to the first error, with the stored trailers.  A frame is data or trailers,
  and the lock of the stored trailers is held only while they are merged, so the two other branches of the source
  (a frame of neither kind, a poisoned lock) do not arise.\<close>

fun compression_input :: "frames \<Rightarrow> header_map option \<Rightarrow> bytes list \<times> body_error option \<times> header_map option" where
  "compression_input [] trailers = ([], None, trailers)"
| "compression_input (Inl e # frames) trailers = ([], Some (io_error_other e), trailers)"
| "compression_input (Inr (DataFrame data) # frames) trailers =
     (case compression_input frames trailers of (chunks, rest) \<Rightarrow> (data # chunks, rest))"
| "compression_input (Inr (TrailersFrame new) # frames) trailers = compression_input frames (store_trailers trailers new)"

text \<open>The reader stream ends after an error; the stored trailers are taken at the end in either case.\<close>

definition compressed_reader_body :: "bytes list \<Rightarrow> body_error option \<Rightarrow> header_map option \<Rightarrow> frames" where
  "compressed_reader_body chunks failure trailers =
     map (\<lambda>chunk. Inr (DataFrame chunk)) chunks @
     (case failure of None \<Rightarrow> [] | Some e \<Rightarrow> [Inl e]) @
     (case trailers of None \<Rightarrow> [] | Some t \<Rightarrow> [Inr (TrailersFrame t)])"

definition compressed_body :: "async_encoder \<Rightarrow> content_coding \<Rightarrow> frames \<Rightarrow> frames" where
  "compressed_body encode coding frames =
     (case compression_input frames None of
        (chunks, failure, trailers) \<Rightarrow> compressed_reader_body (encode coding chunks (failure \<noteq> None)) failure trailers)"

section \<open>What a reader of the frames sees\<close>

fun data_frames :: "frames \<Rightarrow> bytes list" where
  "data_frames [] = []"
| "data_frames (Inr (DataFrame data) # frames) = data # data_frames frames"
| "data_frames (_ # frames) = data_frames frames"

fun first_failure :: "frames \<Rightarrow> body_error option" where
  "first_failure [] = None"
| "first_failure (Inl e # frames) = Some e"
| "first_failure (Inr _ # frames) = first_failure frames"

fun trailer_frames :: "frames \<Rightarrow> header_map list" where
  "trailer_frames [] = []"
| "trailer_frames (Inr (TrailersFrame t) # frames) = t # trailer_frames frames"
| "trailer_frames (_ # frames) = trailer_frames frames"


definition until_failure :: "frames \<Rightarrow> frames" where
  "until_failure frames = takeWhile (\<lambda>f. \<not> isl f) frames"

lemma compression_input_eq:
  "compression_input frames trailers =
     (data_frames (until_failure frames), map_option io_error_other (first_failure frames),
      fold (\<lambda>new stored. store_trailers stored new) (trailer_frames (until_failure frames)) trailers)"
  by (induction frames trailers rule: compression_input.induct) (simp_all add: until_failure_def)

lemma until_failure_None: "first_failure frames = None \<Longrightarrow> until_failure frames = frames"
  by (induction frames rule: first_failure.induct) (simp_all add: until_failure_def)

lemma data_frames_append [simp]:
  "data_frames (fs @ gs) = data_frames fs @ data_frames gs"
  by (induction fs rule: data_frames.induct) simp_all

lemma trailer_frames_append [simp]:
  "trailer_frames (fs @ gs) = trailer_frames fs @ trailer_frames gs"
  by (induction fs rule: trailer_frames.induct) simp_all

lemma data_frames_map [simp]:
  "data_frames (map (\<lambda>chunk. Inr (DataFrame chunk)) chunks) = chunks"
  "trailer_frames (map (\<lambda>chunk. Inr (DataFrame chunk)) chunks) = []"
  by (induction chunks) simp_all

lemma first_failure_append:
  "first_failure (map (\<lambda>chunk. Inr (DataFrame chunk)) chunks @ fs) = first_failure fs"
  by (induction chunks) simp_all

lemma compressed_reader_body_frames:
  "data_frames (compressed_reader_body chunks failure trailers) = chunks"
  "first_failure (compressed_reader_body chunks failure trailers) = failure"
  "trailer_frames (compressed_reader_body chunks failure trailers) = (case trailers of None \<Rightarrow> [] | Some t \<Rightarrow> [t])"
  by (simp_all add: compressed_reader_body_def first_failure_append split: option.splits)

text \<open>What is documented of the encoders: a decoder of the coding gives the data back.\<close>

definition encoder_documented :: "async_encoder \<Rightarrow> (content_coding \<Rightarrow> bytes \<Rightarrow> bytes option) \<Rightarrow> bool" where
  "encoder_documented encode decode \<longleftrightarrow>
     (\<forall>coding chunks. decode coding (concat (encode coding chunks False)) = Some (concat chunks))"


section \<open>Bodies without trailers\<close>

text \<open>The frames of a body of the HTTP foundation, and the body that frames without trailers give.\<close>

fun frames_of_body :: "body \<Rightarrow> frames" where
  "frames_of_body (FullBody data) = (if data = [] then [] else [Inr (DataFrame data)])"
| "frames_of_body (StreamBody chunks failure) =
     map (\<lambda>chunk. Inr (DataFrame chunk)) chunks @ (case failure of None \<Rightarrow> [] | Some e \<Rightarrow> [Inl e])"

definition body_of_frames :: "frames \<Rightarrow> body" where
  "body_of_frames frames = StreamBody (data_frames (until_failure frames)) (first_failure frames)"

definition stream_encoder :: "async_encoder \<Rightarrow> content_coding \<Rightarrow> body \<Rightarrow> body" where
  "stream_encoder encode coding b = body_of_frames (compressed_body encode coding (frames_of_body b))"

lemma stream_encoder_decodes:
  assumes "encoder_documented encode decode" "first_failure (frames_of_body b) = None"
  shows "decode coding (body_bytes (stream_encoder encode coding b)) = Some (body_bytes b)"
proof -
  have "concat (data_frames (frames_of_body b)) = body_bytes b"
    using assms(2) by (cases b) (auto split: option.splits)
  with assms show ?thesis
    by (simp add: stream_encoder_def body_of_frames_def compressed_body_def compression_input_eq until_failure_None
        compressed_reader_body_frames encoder_documented_def)
qed



end
