(* ===== verification/Auth.thy ===== *)
theory Auth
  imports Extract "HOL-Library.List_Lexorder" "HOL-Library.Char_ord"
begin

text \<open>
  Authentication and authorization (\<open>crates/rustee-auth/src\<close>, \<open>crates/rustee-tenant/src/lib.rs\<close>): bounded principals
  (\<open>principal/\<close>), bearer tokens (\<open>bearer/\<close>), API keys with rotating peppers (\<open>api_key/\<close>), scope and permission policies
  (\<open>policy/\<close>) and tenants (\<open>tenant.rs\<close>).

  A verifier or a store of credentials is a function on an abstract provider state.  HMAC-SHA-256, the parser of URI authorities
  and the check of field names are parameters.
\<close>

unbundle bit_operations_syntax

section \<open>Principals\<close>

abbreviation MAX_PRINCIPAL_IDENTIFIER_BYTES :: nat where "MAX_PRINCIPAL_IDENTIFIER_BYTES \<equiv> 1024"
abbreviation MAX_PRINCIPAL_AUTHORIZATION_VALUE_BYTES :: nat where "MAX_PRINCIPAL_AUTHORIZATION_VALUE_BYTES \<equiv> 256"
abbreviation MAX_PRINCIPAL_AUTHORIZATION_VALUES :: nat where "MAX_PRINCIPAL_AUTHORIZATION_VALUES \<equiv> 64"

datatype principal_error = BlankField string | ValueTooLong string nat | TooManyValues string nat

definition ensure_not_blank :: "string \<Rightarrow> string \<Rightarrow> (principal_error, unit) result" where
  "ensure_not_blank value field = (if is_blank value then Inl (BlankField field) else Inr ())"

definition ensure_within_byte_limit :: "string \<Rightarrow> string \<Rightarrow> nat \<Rightarrow> (principal_error, unit) result" where
  "ensure_within_byte_limit value field max_bytes =
     (if length value > max_bytes then Inl (ValueTooLong field max_bytes) else Inr ())"

definition validate_identifier :: "string \<Rightarrow> string \<Rightarrow> (principal_error, unit) result" where
  "validate_identifier value field =
     bind_result (ensure_not_blank value field) (\<lambda>_.
       ensure_within_byte_limit value field MAX_PRINCIPAL_IDENTIFIER_BYTES)"

definition insert_authorization_value ::
  "string set \<Rightarrow> string \<Rightarrow> string \<Rightarrow> (principal_error, string set) result" where
  "insert_authorization_value values value field =
     bind_result (ensure_not_blank value field) (\<lambda>_.
     bind_result (ensure_within_byte_limit value field MAX_PRINCIPAL_AUTHORIZATION_VALUE_BYTES) (\<lambda>_.
       if value \<notin> values \<and> card values = MAX_PRINCIPAL_AUTHORIZATION_VALUES
       then Inl (TooManyValues field MAX_PRINCIPAL_AUTHORIZATION_VALUES)
       else Inr (insert value values)))"

definition principal_new :: "string \<Rightarrow> (principal_error, principal) result" where
  "principal_new subject =
     bind_result (validate_identifier subject ''subject'') (\<lambda>_.
       Inr \<lparr>prin_subject = subject, prin_issuer = None, prin_tenant = None,
            prin_scopes = {}, prin_roles = {}, prin_permissions = {}\<rparr>)"

definition with_issuer :: "principal \<Rightarrow> string \<Rightarrow> (principal_error, principal) result" where
  "with_issuer p issuer =
     bind_result (validate_identifier issuer ''issuer'') (\<lambda>_. Inr (p\<lparr>prin_issuer := Some issuer\<rparr>))"

definition with_tenant :: "principal \<Rightarrow> string \<Rightarrow> (principal_error, principal) result" where
  "with_tenant p tenant =
     bind_result (validate_identifier tenant ''tenant'') (\<lambda>_. Inr (p\<lparr>prin_tenant := Some tenant\<rparr>))"

definition with_scope :: "principal \<Rightarrow> string \<Rightarrow> (principal_error, principal) result" where
  "with_scope p scope =
     bind_result (insert_authorization_value (prin_scopes p) scope ''scopes'') (\<lambda>scopes.
       Inr (p\<lparr>prin_scopes := scopes\<rparr>))"

definition with_role :: "principal \<Rightarrow> string \<Rightarrow> (principal_error, principal) result" where
  "with_role p role =
     bind_result (insert_authorization_value (prin_roles p) role ''roles'') (\<lambda>roles.
       Inr (p\<lparr>prin_roles := roles\<rparr>))"

definition with_permission :: "principal \<Rightarrow> string \<Rightarrow> (principal_error, principal) result" where
  "with_permission p permission =
     bind_result (insert_authorization_value (prin_permissions p) permission ''permissions'') (\<lambda>permissions.
       Inr (p\<lparr>prin_permissions := permissions\<rparr>))"

text \<open>The loop \<open>for value in values { principal = principal.with(value)?; }\<close>.\<close>

fun with_each ::
  "(principal \<Rightarrow> string \<Rightarrow> (principal_error, principal) result) \<Rightarrow> string list \<Rightarrow> principal \<Rightarrow>
   (principal_error, principal) result" where
  "with_each add [] p = Inr p"
| "with_each add (v # vs) p = bind_result (add p v) (with_each add vs)"

definition with_optional ::
  "(principal \<Rightarrow> string \<Rightarrow> (principal_error, principal) result) \<Rightarrow> string option \<Rightarrow> principal \<Rightarrow>
   (principal_error, principal) result" where
  "with_optional add v p = (case v of None \<Rightarrow> Inr p | Some x \<Rightarrow> add p x)"

definition from_verified_claims ::
  "string \<Rightarrow> string \<Rightarrow> string option \<Rightarrow> string list \<Rightarrow> string list \<Rightarrow> string list \<Rightarrow>
   (principal_error, principal) result" where
  "from_verified_claims subject issuer tenant scopes roles permissions =
     bind_result (principal_new subject) (\<lambda>p.
     bind_result (with_issuer p issuer) (\<lambda>p.
     bind_result (with_optional with_tenant tenant p) (\<lambda>p.
     bind_result (with_each with_scope scopes p) (\<lambda>p.
     bind_result (with_each with_role roles p) (\<lambda>p.
       with_each with_permission permissions p)))))"

text \<open>The fields a stored principal is read from.  A \<open>BTreeSet\<close> is iterated in ascending order.\<close>

record serialized_principal =
  sp_subject :: string
  sp_issuer :: "string option"
  sp_tenant :: "string option"
  sp_scopes :: "string set"
  sp_roles :: "string set"
  sp_permissions :: "string set"

definition principal_from_serialized :: "serialized_principal \<Rightarrow> (principal_error, principal) result" where
  "principal_from_serialized s =
     bind_result (principal_new (sp_subject s)) (\<lambda>p.
     bind_result (with_optional with_issuer (sp_issuer s) p) (\<lambda>p.
     bind_result (with_optional with_tenant (sp_tenant s) p) (\<lambda>p.
     bind_result (with_each with_scope (sorted_list_of_set (sp_scopes s)) p) (\<lambda>p.
     bind_result (with_each with_role (sorted_list_of_set (sp_roles s)) p) (\<lambda>p.
       with_each with_permission (sorted_list_of_set (sp_permissions s)) p)))))"

text \<open>The derived \<open>Serialize\<close> writes every field.\<close>

definition principal_serialize :: "principal \<Rightarrow> serialized_principal" where
  "principal_serialize p =
     \<lparr>sp_subject = prin_subject p, sp_issuer = prin_issuer p, sp_tenant = prin_tenant p,
      sp_scopes = prin_scopes p, sp_roles = prin_roles p, sp_permissions = prin_permissions p\<rparr>"

definition has_scope :: "principal \<Rightarrow> string \<Rightarrow> bool" where
  "has_scope p scope \<longleftrightarrow> scope \<in> prin_scopes p"


section \<open>Constant-time comparison\<close>

definition constant_time_eq :: "bytes \<Rightarrow> bytes \<Rightarrow> bool" where
  "constant_time_eq left right =
     (if length left \<noteq> length right then False
      else fold (\<lambda>(l, r) difference. difference OR ((of_char l :: 8 word) XOR of_char r)) (zip left right) 0 = 0)"

section \<open>Bearer authentication\<close>

abbreviation MAX_BEARER_TOKEN_BYTES :: nat where "MAX_BEARER_TOKEN_BYTES \<equiv> 16 * 1024"

datatype auth_error = MissingBearerToken | InvalidBearerToken | RejectedBearerToken | ProviderUnavailable

definition is_bearer_token_character :: "char \<Rightarrow> bool" where
  "is_bearer_token_character b \<longleftrightarrow>
     in_codes 65 90 b \<or> in_codes 97 122 b \<or> in_codes 48 57 b \<or> b \<in> set ''-._~+/''"

text \<open>\<open>token.trim_end_matches('=')\<close>.\<close>

definition trim_end_matches :: "char \<Rightarrow> string \<Rightarrow> string" where
  "trim_end_matches c s = rev (dropWhile ((=) c) (rev s))"

definition is_valid_bearer_token :: "string \<Rightarrow> bool" where
  "is_valid_bearer_token token =
     (let credential = trim_end_matches (CHR ''='') token in
      credential \<noteq> [] \<and> length token \<le> MAX_BEARER_TOKEN_BYTES \<and> list_all is_bearer_token_character credential)"


definition challenge_response :: "deps \<Rightarrow> string \<Rightarrow> string \<Rightarrow> string \<Rightarrow> response" where
  "challenge_response d code message scheme =
     (let r = error_into_response d (error_new 401 code message) in
      r\<lparr>resp_headers := header_insert ''www-authenticate'' scheme (resp_headers r)\<rparr>)"

definition authentication_response :: "deps \<Rightarrow> auth_error \<Rightarrow> response" where
  "authentication_response d e =
     (case e of
        MissingBearerToken \<Rightarrow>
          challenge_response d ''missing_bearer_token'' ''a bearer token is required'' ''Bearer''
      | InvalidBearerToken \<Rightarrow>
          challenge_response d ''invalid_bearer_token'' ''the bearer token is invalid'' ''Bearer''
      | RejectedBearerToken \<Rightarrow>
          challenge_response d ''invalid_bearer_token'' ''the bearer token is invalid'' ''Bearer''
      | ProviderUnavailable \<Rightarrow>
          error_into_response d (error_new 503 ''authentication_unavailable''
            ''authentication service is unavailable''))"

definition insert_principal :: "principal \<Rightarrow> request \<Rightarrow> request" where
  "insert_principal p req = req\<lparr>req_extensions := (req_extensions req)\<lparr>ext_principal := Some p\<rparr>\<rparr>"

type_synonym ('s, 'e) authenticator = "string \<Rightarrow> 's \<Rightarrow> ('e, principal) result \<times> 's"


subsection \<open>Static tokens\<close>

datatype static_token_error = BlankToken | InvalidToken | DuplicateToken

definition static_token_insert ::
  "(string \<rightharpoonup> principal) \<Rightarrow> string \<Rightarrow> principal \<Rightarrow> (static_token_error, string \<rightharpoonup> principal) result" where
  "static_token_insert tokens token p =
     (if is_blank token then Inl BlankToken
      else if \<not> is_valid_bearer_token token then Inl InvalidToken
      else case tokens token of None \<Rightarrow> Inr (tokens(token \<mapsto> p)) | Some _ \<Rightarrow> Inl DuplicateToken)"


subsection \<open>Extractors\<close>

definition required_principal :: "request \<Rightarrow> (http_error, principal) result" where
  "required_principal req =
     (case ext_principal (req_extensions req) of
        Some p \<Rightarrow> Inr p
      | None \<Rightarrow> Inl (error_new 401 ''unauthenticated'' ''authentication is required''))"

definition from_request_auth_user :: "('v, principal) extractor" where
  "from_request_auth_user req params state = (required_principal req, req)"

definition from_request_optional_auth_user :: "('v, principal option) extractor" where
  "from_request_optional_auth_user req params state = (Inr (ext_principal (req_extensions req)), req)"

section \<open>Policies\<close>

definition exceeds_principal_authorization_value_limit :: "string \<Rightarrow> bool" where
  "exceeds_principal_authorization_value_limit value \<longleftrightarrow> length value > MAX_PRINCIPAL_AUTHORIZATION_VALUE_BYTES"

type_synonym role_policy = "string \<rightharpoonup> string set"

datatype role_policy_error = BlankRole | EmptyPermissions | BlankRolePermission | RoleTooLong nat | RolePermissionTooLong nat

definition grant :: "role_policy \<Rightarrow> string \<Rightarrow> string list \<Rightarrow> (role_policy_error, role_policy) result" where
  "grant policy role permissions =
     (if is_blank role then Inl BlankRole
      else if exceeds_principal_authorization_value_limit role
      then Inl (RoleTooLong MAX_PRINCIPAL_AUTHORIZATION_VALUE_BYTES)
      else if set permissions = {} then Inl EmptyPermissions
      else if \<exists>permission\<in>set permissions. is_blank permission then Inl BlankRolePermission
      else if \<exists>permission\<in>set permissions. exceeds_principal_authorization_value_limit permission
      then Inl (RolePermissionTooLong MAX_PRINCIPAL_AUTHORIZATION_VALUE_BYTES)
      else Inr (policy(role \<mapsto> (case policy role of None \<Rightarrow> {} | Some granted \<Rightarrow> granted) \<union> set permissions)))"






datatype scope_policy_error = EmptyScopeRequirement | BlankScope | ScopeTooLong nat | TooManyScopes nat

fun collect_scopes :: "string list \<Rightarrow> string set \<Rightarrow> (scope_policy_error, string set) result" where
  "collect_scopes [] required = Inr required"
| "collect_scopes (scope # scopes) required =
     (if scope \<notin> required \<and> card required = MAX_PRINCIPAL_AUTHORIZATION_VALUES
      then Inl (TooManyScopes MAX_PRINCIPAL_AUTHORIZATION_VALUES)
      else collect_scopes scopes (insert scope required))"

definition require_scopes_new :: "string list \<Rightarrow> (scope_policy_error, string set) result" where
  "require_scopes_new scopes =
     bind_result (collect_scopes scopes {}) (\<lambda>required.
       if required = {} then Inl EmptyScopeRequirement
       else if \<exists>scope\<in>required. is_blank scope then Inl BlankScope
       else if \<exists>scope\<in>required. exceeds_principal_authorization_value_limit scope
       then Inl (ScopeTooLong MAX_PRINCIPAL_AUTHORIZATION_VALUE_BYTES)
       else Inr required)"

definition require_scopes_call :: "deps \<Rightarrow> string set \<Rightarrow> (request \<Rightarrow> response) \<Rightarrow> request \<Rightarrow> response" where
  "require_scopes_call d required inner req =
     (case ext_principal (req_extensions req) of
        None \<Rightarrow> authentication_response d MissingBearerToken
      | Some p \<Rightarrow>
          if \<not> (\<forall>scope\<in>required. has_scope p scope)
          then error_into_response d (error_new 403 ''insufficient_scope''
                 ''the authenticated principal lacks a required scope'')
          else inner req)"

section \<open>Tenants\<close>

abbreviation MAX_TENANT_IDENTIFIER_BYTES :: nat where "MAX_TENANT_IDENTIFIER_BYTES \<equiv> 1024"

datatype tenant_context_error = BlankTenant | TenantValueTooLong | TenantContainsNul

definition tenant_context_new :: "string \<Rightarrow> (tenant_context_error, tenant_context) result" where
  "tenant_context_new tenant =
     (if is_blank tenant then Inl BlankTenant
      else if length tenant > MAX_TENANT_IDENTIFIER_BYTES then Inl TenantValueTooLong
      else if CHR 0x00 \<in> set tenant then Inl TenantContainsNul
      else Inr (TenantContext tenant))"

definition from_request_tenant_context :: "('v, tenant_context) extractor" where
  "from_request_tenant_context req params state =
     ((case ext_tenant (req_extensions req) of
         Some context \<Rightarrow> Inr context
       | None \<Rightarrow> Inl (error_new 500 ''tenant_context_missing'' ''trusted tenant context is required'')), req)"

datatype host_tenant_resolver_error = EmptyMapping | InvalidHost | DuplicateHost

text \<open>The parser of authorities is a parameter that gives the text of the parsed authority.\<close>

definition canonical_host ::
  "(string \<Rightarrow> string option) \<Rightarrow> string \<Rightarrow> (host_tenant_resolver_error, string) result" where
  "canonical_host parse_authority host =
     (if is_blank host \<or> (\<exists>c\<in>{CHR '' '', CHR 0x22, CHR ''@''}. c \<in> set host) then Inl InvalidHost
      else case parse_authority host of
        None \<Rightarrow> Inl InvalidHost
      | Some authority \<Rightarrow> Inr (to_ascii_lowercase authority))"

fun host_mapping ::
  "(string \<Rightarrow> string option) \<Rightarrow> (string \<times> tenant_context) list \<Rightarrow> (string \<rightharpoonup> tenant_context) \<Rightarrow>
   (host_tenant_resolver_error, string \<rightharpoonup> tenant_context) result" where
  "host_mapping parse_authority [] tenants = Inr tenants"
| "host_mapping parse_authority ((host, tenant) # hosts) tenants =
     bind_result (canonical_host parse_authority host) (\<lambda>host.
       if tenants host \<noteq> None then Inl DuplicateHost
       else host_mapping parse_authority hosts (tenants(host \<mapsto> tenant)))"

definition host_tenant_resolver_new ::
  "(string \<Rightarrow> string option) \<Rightarrow> (string \<times> tenant_context) list \<Rightarrow>
   (host_tenant_resolver_error, string \<rightharpoonup> tenant_context) result" where
  "host_tenant_resolver_new parse_authority hosts =
     bind_result (host_mapping parse_authority hosts Map.empty) (\<lambda>tenants.
       if hosts = [] then Inl EmptyMapping else Inr tenants)"




definition tenant_mismatch_response :: "deps \<Rightarrow> response" where
  "tenant_mismatch_response d =
     error_into_response d (error_new 403 ''tenant_mismatch''
       ''the authenticated principal does not belong to this tenant'')"


definition require_tenant_match_call :: "deps \<Rightarrow> (request \<Rightarrow> response) \<Rightarrow> request \<Rightarrow> response" where
  "require_tenant_match_call d inner req =
     (case ext_principal (req_extensions req) of
        None \<Rightarrow> authentication_response d MissingBearerToken
      | Some p \<Rightarrow>
          (case ext_tenant (req_extensions req) of
             None \<Rightarrow> error_into_response d (error_new 500 ''tenant_context_missing''
                 ''tenant context is required for this route'')
           | Some context \<Rightarrow>
               if prin_tenant p \<noteq> Some (tenant_str context) then tenant_mismatch_response d else inner req))"

section \<open>API keys\<close>

abbreviation MAX_API_KEY_BYTES :: nat where "MAX_API_KEY_BYTES \<equiv> 4 * 1024"
abbreviation MAX_RETIRED_API_KEY_PEPPERS :: nat where "MAX_RETIRED_API_KEY_PEPPERS \<equiv> 2"

datatype api_key_error = MissingApiKey | InvalidApiKey | RejectedApiKey | ApiKeyProviderUnavailable

definition is_valid_api_key_value :: "string \<Rightarrow> bool" where
  "is_valid_api_key_value value \<longleftrightarrow>
     value \<noteq> [] \<and> length value \<le> MAX_API_KEY_BYTES \<and> list_all (in_codes 33 126) value"

text \<open>
  A pepper is 32 bytes, \<open>hmac\<close> the keyed hash with the key first; it may refuse a key.  A fingerprint is the hash value.
\<close>

type_synonym pepper = bytes
type_synonym fingerprint = bytes
type_synonym hmac = "pepper \<Rightarrow> bytes \<Rightarrow> fingerprint option"

definition pepper_new :: "bytes \<Rightarrow> (unit, pepper) result" where
  "pepper_new bytes = (if list_all (\<lambda>b. b = CHR 0x00) bytes then Inl () else Inr bytes)"

definition fingerprint_valid_api_key :: "hmac \<Rightarrow> pepper \<Rightarrow> string \<Rightarrow> (api_key_error, fingerprint) result" where
  "fingerprint_valid_api_key mac pepper api_key =
     (case mac pepper api_key of None \<Rightarrow> Inl ApiKeyProviderUnavailable | Some f \<Rightarrow> Inr f)"

definition api_key_fingerprint :: "hmac \<Rightarrow> pepper \<Rightarrow> string \<Rightarrow> (api_key_error, fingerprint) result" where
  "api_key_fingerprint mac pepper api_key =
     (if \<not> is_valid_api_key_value api_key then Inl InvalidApiKey else fingerprint_valid_api_key mac pepper api_key)"

record pepper_ring =
  ring_active :: pepper
  ring_retired :: "pepper list"

datatype pepper_ring_error = TooManyRetired | DuplicatePepper

definition pepper_ring_new :: "pepper \<Rightarrow> pepper_ring" where
  "pepper_ring_new active = \<lparr>ring_active = active, ring_retired = []\<rparr>"

fun retain_peppers :: "pepper \<Rightarrow> pepper list \<Rightarrow> pepper list \<Rightarrow> (pepper_ring_error, pepper list) result" where
  "retain_peppers active [] retained = Inr retained"
| "retain_peppers active (candidate # retired) retained =
     (if length retained = MAX_RETIRED_API_KEY_PEPPERS then Inl TooManyRetired
      else if candidate = active \<or> candidate \<in> set retained then Inl DuplicatePepper
      else retain_peppers active retired (retained @ [candidate]))"

definition with_retired :: "pepper \<Rightarrow> pepper list \<Rightarrow> (pepper_ring_error, pepper_ring) result" where
  "with_retired active retired =
     bind_result (retain_peppers active retired []) (\<lambda>retained.
       Inr \<lparr>ring_active = active, ring_retired = retained\<rparr>)"

definition ring_fingerprints :: "hmac \<Rightarrow> pepper_ring \<Rightarrow> string \<Rightarrow> (api_key_error, fingerprint list) result" where
  "ring_fingerprints mac ring api_key =
     (if \<not> is_valid_api_key_value api_key then Inl InvalidApiKey
      else collect_results (map (\<lambda>pepper. fingerprint_valid_api_key mac pepper api_key)
             (ring_active ring # ring_retired ring)))"

text \<open>A fingerprint store maps a fingerprint to a principal and may record the lookup.\<close>

type_synonym 's fingerprint_store = "fingerprint \<Rightarrow> 's \<Rightarrow> (api_key_error, principal) result \<times> 's"

definition keyed_authenticate :: "hmac \<Rightarrow> pepper \<Rightarrow> 's fingerprint_store \<Rightarrow> ('s, api_key_error) authenticator" where
  "keyed_authenticate mac pepper store api_key s =
     (case api_key_fingerprint mac pepper api_key of Inl e \<Rightarrow> (Inl e, s) | Inr f \<Rightarrow> store f s)"

fun rotating_lookup ::
  "'s fingerprint_store \<Rightarrow> fingerprint list \<Rightarrow> 's \<Rightarrow> (api_key_error, principal) result \<times> 's" where
  "rotating_lookup store [] s = (Inl RejectedApiKey, s)"
| "rotating_lookup store (f # fs) s =
     (case store f s of
        (Inr p, s') \<Rightarrow> (Inr p, s')
      | (Inl e, s') \<Rightarrow> if e = RejectedApiKey then rotating_lookup store fs s' else (Inl e, s'))"

definition rotating_authenticate ::
  "hmac \<Rightarrow> pepper_ring \<Rightarrow> 's fingerprint_store \<Rightarrow> ('s, api_key_error) authenticator" where
  "rotating_authenticate mac ring store api_key s =
     (case ring_fingerprints mac ring api_key of Inl e \<Rightarrow> (Inl e, s) | Inr fs \<Rightarrow> rotating_lookup store fs s)"

datatype static_api_key_error = InvalidKey | DuplicateKey

definition static_api_key_insert ::
  "(string \<rightharpoonup> principal) \<Rightarrow> string \<Rightarrow> principal \<Rightarrow> (static_api_key_error, string \<rightharpoonup> principal) result" where
  "static_api_key_insert keys api_key p =
     (if \<not> is_valid_api_key_value api_key then Inl InvalidKey
      else case keys api_key of None \<Rightarrow> Inr (keys(api_key \<mapsto> p)) | Some _ \<Rightarrow> Inl DuplicateKey)"

definition static_api_key_authenticate :: "(string \<rightharpoonup> principal, api_key_error) authenticator" where
  "static_api_key_authenticate api_key keys =
     ((case keys api_key of None \<Rightarrow> Inl RejectedApiKey | Some p \<Rightarrow> Inr p), keys)"

text \<open>\<open>HeaderName::from_bytes\<close> is a parameter that gives the lower-case name.\<close>

definition api_key_layer_header :: "(string \<Rightarrow> string option) \<Rightarrow> string \<Rightarrow> (unit, string) result" where
  "api_key_layer_header header_name_of name = (case header_name_of name of None \<Rightarrow> Inl () | Some n \<Rightarrow> Inr n)"

definition api_key_header_value :: "deps \<Rightarrow> header_map \<Rightarrow> string \<Rightarrow> (api_key_error, string) result" where
  "api_key_header_value d headers name =
     (case headers name of
        [] \<Rightarrow> Inl MissingApiKey
      | value # others \<Rightarrow>
          if others \<noteq> [] then Inl InvalidApiKey
          else case header_to_str d value of
            None \<Rightarrow> Inl InvalidApiKey
          | Some text \<Rightarrow> if \<not> is_valid_api_key_value text then Inl InvalidApiKey else Inr text)"

definition api_key_authentication_response :: "deps \<Rightarrow> api_key_error \<Rightarrow> response" where
  "api_key_authentication_response d e =
     (case e of
        MissingApiKey \<Rightarrow> challenge_response d ''missing_api_key'' ''an API key is required'' ''ApiKey''
      | InvalidApiKey \<Rightarrow> challenge_response d ''invalid_api_key'' ''the API key is invalid'' ''ApiKey''
      | RejectedApiKey \<Rightarrow> challenge_response d ''invalid_api_key'' ''the API key is invalid'' ''ApiKey''
      | ApiKeyProviderUnavailable \<Rightarrow>
          error_into_response d (error_new 503 ''authentication_unavailable''
            ''authentication service is unavailable''))"

definition api_key_call ::
  "deps \<Rightarrow> string \<Rightarrow> ('s, api_key_error) authenticator \<Rightarrow> (request \<Rightarrow> response) \<Rightarrow> request \<Rightarrow> 's \<Rightarrow> response \<times> 's" where
  "api_key_call d header_name authenticate inner req s =
     (case api_key_header_value d (req_headers req) header_name of
        Inl e \<Rightarrow> (api_key_authentication_response d e, s)
      | Inr api_key \<Rightarrow>
          (case authenticate api_key s of
             (Inl e, s') \<Rightarrow> (api_key_authentication_response d e, s')
           | (Inr p, s') \<Rightarrow> (inner (insert_principal p req), s')))"

section \<open>Lemmas\<close>

subsection \<open>Bounded principals\<close>

definition identifier_ok :: "string \<Rightarrow> bool" where
  "identifier_ok v \<longleftrightarrow> \<not> is_blank v \<and> length v \<le> MAX_PRINCIPAL_IDENTIFIER_BYTES"

definition values_ok :: "string set \<Rightarrow> bool" where
  "values_ok S \<longleftrightarrow> finite S \<and> card S \<le> MAX_PRINCIPAL_AUTHORIZATION_VALUES \<and>
     (\<forall>v\<in>S. \<not> is_blank v \<and> length v \<le> MAX_PRINCIPAL_AUTHORIZATION_VALUE_BYTES)"

definition principal_wf :: "principal \<Rightarrow> bool" where
  "principal_wf p \<longleftrightarrow>
     identifier_ok (prin_subject p) \<and> (\<forall>i. prin_issuer p = Some i \<longrightarrow> identifier_ok i) \<and>
     (\<forall>t. prin_tenant p = Some t \<longrightarrow> identifier_ok t) \<and>
     values_ok (prin_scopes p) \<and> values_ok (prin_roles p) \<and> values_ok (prin_permissions p)"

lemma validate_identifier_Inr [simp]: "validate_identifier v field = Inr u \<longleftrightarrow> identifier_ok v"
  by (simp add: validate_identifier_def ensure_not_blank_def ensure_within_byte_limit_def identifier_ok_def)

lemma values_ok_empty [simp]: "values_ok {}"
  by (simp add: values_ok_def)

lemma values_ok_subset: "values_ok T \<Longrightarrow> S \<subseteq> T \<Longrightarrow> values_ok S"
  unfolding values_ok_def by (meson card_mono finite_subset order_trans subsetD)

lemma insert_authorization_value_Inr:
  assumes "values_ok S"
  shows "insert_authorization_value S v field = Inr S' \<longleftrightarrow> S' = insert v S \<and> values_ok S'"
proof -
  have "insert_authorization_value S v field = Inr S' \<longleftrightarrow>
      \<not> is_blank v \<and> length v \<le> MAX_PRINCIPAL_AUTHORIZATION_VALUE_BYTES \<and>
      \<not> (v \<notin> S \<and> card S = MAX_PRINCIPAL_AUTHORIZATION_VALUES) \<and> S' = insert v S"
    by (auto simp: insert_authorization_value_def ensure_not_blank_def ensure_within_byte_limit_def)
  moreover have "values_ok (insert v S) \<longleftrightarrow>
      \<not> is_blank v \<and> length v \<le> MAX_PRINCIPAL_AUTHORIZATION_VALUE_BYTES \<and>
      \<not> (v \<notin> S \<and> card S = MAX_PRINCIPAL_AUTHORIZATION_VALUES)"
    using assms by (auto simp: values_ok_def card_insert_if)
  ultimately show ?thesis by blast
qed

text \<open>A set-valued field of a principal with its builder.\<close>

locale authorization_field =
  fixes get :: "principal \<Rightarrow> string set" and put :: "string set \<Rightarrow> principal \<Rightarrow> principal"
    and add :: "principal \<Rightarrow> string \<Rightarrow> (principal_error, principal) result" and field :: string
  assumes add_eq: "add p v = bind_result (insert_authorization_value (get p) v field) (\<lambda>S. Inr (put S p))"
    and get_put: "get (put S p) = S" and put_put: "put S (put T p) = put S p" and put_get: "put (get p) p = p"
begin

lemma add_Inr: "values_ok (get p) \<Longrightarrow>
    add p v = Inr q \<longleftrightarrow> q = put (insert v (get p)) p \<and> values_ok (insert v (get p))"
  by (auto simp: add_eq insert_authorization_value_Inr)

lemma with_each_Inr: "values_ok (get p) \<Longrightarrow>
    with_each add vs p = Inr q \<longleftrightarrow> q = put (get p \<union> set vs) p \<and> values_ok (get p \<union> set vs)"
proof (induction vs arbitrary: p)
  case Nil
  then show ?case by (auto simp: put_get)
next
  case (Cons v vs)
  show ?case
  proof (cases "values_ok (insert v (get p))")
    case True
    then have "add p v = Inr (put (insert v (get p)) p)" using add_Inr [OF Cons.prems] by blast
    with Cons.IH [of "put (insert v (get p)) p"] True show ?thesis by (simp add: get_put put_put)
  next
    case False
    then have "\<not> values_ok (get p \<union> set (v # vs))" by (auto dest: values_ok_subset [where S = "insert v (get p)"])
    moreover have "add p v \<noteq> Inr q" for q using add_Inr [OF Cons.prems] False by blast
    ultimately show ?thesis by (simp add: bind_result_eq_Inr)
  qed
qed

end

interpretation scopes: authorization_field prin_scopes "\<lambda>S p. p\<lparr>prin_scopes := S\<rparr>" with_scope "''scopes''"
  by unfold_locales (simp_all add: with_scope_def)

interpretation roles: authorization_field prin_roles "\<lambda>S p. p\<lparr>prin_roles := S\<rparr>" with_role "''roles''"
  by unfold_locales (simp_all add: with_role_def)

interpretation permissions: authorization_field prin_permissions "\<lambda>S p. p\<lparr>prin_permissions := S\<rparr>" with_permission
    "''permissions''"
  by unfold_locales (simp_all add: with_permission_def)

lemma principal_new_Inr:
  "principal_new subject = Inr p \<longleftrightarrow>
     identifier_ok subject \<and>
     p = \<lparr>prin_subject = subject, prin_issuer = None, prin_tenant = None, prin_scopes = {}, prin_roles = {}, prin_permissions = {}\<rparr>"
  by (auto simp: principal_new_def)

lemma with_issuer_Inr: "with_issuer p i = Inr q \<longleftrightarrow> identifier_ok i \<and> q = p\<lparr>prin_issuer := Some i\<rparr>"
  by (auto simp: with_issuer_def)

lemma with_tenant_Inr: "with_tenant p t = Inr q \<longleftrightarrow> identifier_ok t \<and> q = p\<lparr>prin_tenant := Some t\<rparr>"
  by (auto simp: with_tenant_def)

text \<open>The three set-valued builders in sequence, on a principal that has no values yet.\<close>

lemma with_sets_Inr:
  assumes "prin_scopes p = {}" "prin_roles p = {}" "prin_permissions p = {}"
  shows "bind_result (with_each with_scope scopes p) (\<lambda>p. bind_result (with_each with_role roles p) (\<lambda>p.
      with_each with_permission permissions p)) = Inr q \<longleftrightarrow>
    q = p\<lparr>prin_scopes := set scopes, prin_roles := set roles, prin_permissions := set permissions\<rparr> \<and>
    values_ok (set scopes) \<and> values_ok (set roles) \<and> values_ok (set permissions)"
  using assms
  by (auto simp: bind_result_eq_Inr scopes.with_each_Inr roles.with_each_Inr permissions.with_each_Inr)

lemma from_verified_claims_Inr:
  "from_verified_claims subject issuer tenant scopes roles permissions = Inr p \<longleftrightarrow>
     p = \<lparr>prin_subject = subject, prin_issuer = Some issuer, prin_tenant = tenant, prin_scopes = set scopes,
          prin_roles = set roles, prin_permissions = set permissions\<rparr> \<and> principal_wf p"
proof -
  let ?base = "\<lparr>prin_subject = subject, prin_issuer = Some issuer, prin_tenant = tenant, prin_scopes = {},
      prin_roles = {}, prin_permissions = {}\<rparr>"
  have "from_verified_claims subject issuer tenant scopes roles permissions = Inr p \<longleftrightarrow>
      identifier_ok subject \<and> identifier_ok issuer \<and> (\<forall>t. tenant = Some t \<longrightarrow> identifier_ok t) \<and>
      bind_result (with_each with_scope scopes ?base) (\<lambda>p. bind_result (with_each with_role roles p) (\<lambda>p.
        with_each with_permission permissions p)) = Inr p"
    by (cases tenant) (auto simp: from_verified_claims_def with_optional_def bind_result_eq_Inr principal_new_Inr
        with_issuer_Inr with_tenant_Inr)
  then show ?thesis by (subst (asm) with_sets_Inr) (auto simp: principal_wf_def)
qed

lemma principal_from_serialized_Inr:
  assumes "finite (sp_scopes s)" "finite (sp_roles s)" "finite (sp_permissions s)"
  shows "principal_from_serialized s = Inr p \<longleftrightarrow> principal_serialize p = s \<and> principal_wf p"
proof -
  let ?base = "\<lparr>prin_subject = sp_subject s, prin_issuer = sp_issuer s, prin_tenant = sp_tenant s, prin_scopes = {},
      prin_roles = {}, prin_permissions = {}\<rparr>"
  have "principal_from_serialized s = Inr p \<longleftrightarrow>
      identifier_ok (sp_subject s) \<and> (\<forall>i. sp_issuer s = Some i \<longrightarrow> identifier_ok i) \<and>
      (\<forall>t. sp_tenant s = Some t \<longrightarrow> identifier_ok t) \<and>
      bind_result (with_each with_scope (sorted_list_of_set (sp_scopes s)) ?base) (\<lambda>p.
        bind_result (with_each with_role (sorted_list_of_set (sp_roles s)) p) (\<lambda>p.
          with_each with_permission (sorted_list_of_set (sp_permissions s)) p)) = Inr p"
    by (cases "sp_issuer s"; cases "sp_tenant s")
      (auto simp: principal_from_serialized_def with_optional_def bind_result_eq_Inr principal_new_Inr
        with_issuer_Inr with_tenant_Inr)
  then show ?thesis
    using assms by (subst (asm) with_sets_Inr) (auto simp: principal_wf_def principal_serialize_def)
qed

subsection \<open>Constant-time comparison\<close>

lemma of_char_word_eq: "(of_char a :: 8 word) = of_char b \<longleftrightarrow> a = b"
proof -
  have "unat (of_char c :: 8 word) = of_char c" for c
  proof -
    have "(of_char c :: 8 word) = of_nat (of_char c)" by (simp add: of_nat_of_char)
    then have "unat (of_char c :: 8 word) = of_char c mod 256" by (simp only: unat_of_nat) simp
    then show ?thesis by simp
  qed
  then show ?thesis by (metis of_char_eq_iff)
qed

lemma or_eq_0_word: "(a OR b = 0) \<longleftrightarrow> a = 0 \<and> b = (0 :: 8 word)"
  by (auto simp: bit_eq_iff bit_simps)

lemma xor_eq_0_word: "(a XOR b = 0) \<longleftrightarrow> a = (b :: 8 word)"
  by (auto simp: bit_eq_iff bit_simps)

lemma fold_difference:
  "length l = length r \<Longrightarrow>
   fold (\<lambda>(l, r) difference. difference OR ((of_char l :: 8 word) XOR of_char r)) (zip l r) acc = 0 \<longleftrightarrow> acc = 0 \<and> l = r"
  by (induction l r arbitrary: acc rule: list_induct2) (auto simp: or_eq_0_word xor_eq_0_word of_char_word_eq)

lemma constant_time_eq_iff: "constant_time_eq l r \<longleftrightarrow> l = r"
  by (auto simp: constant_time_eq_def fold_difference)

subsection \<open>Fingerprint lookups\<close>

text \<open>A store that keeps a log of the lookups and their results.\<close>

definition logged ::
  "'s fingerprint_store \<Rightarrow> ((fingerprint \<times> (api_key_error, principal) result) list \<times> 's) fingerprint_store" where
  "logged store f ls = (case store f (snd ls) of (r, s') \<Rightarrow> (r, (fst ls @ [(f, r)], s')))"

lemma logged_step: "store f s = (r, s') \<Longrightarrow> logged store f (log, s) = (r, (log @ [(f, r)], s'))"
  by (simp add: logged_def)

lemma retain_peppers_bound:
  "retain_peppers active retired retained = Inr kept \<Longrightarrow> length retained \<le> MAX_RETIRED_API_KEY_PEPPERS \<Longrightarrow>
   distinct (active # retained) \<Longrightarrow>
   kept = retained @ retired \<and> length kept \<le> MAX_RETIRED_API_KEY_PEPPERS \<and> distinct (active # kept)"
  by (induction active retired retained rule: retain_peppers.induct) (auto split: if_splits)

lemma collect_fingerprints:
  "collect_results (map (\<lambda>pepper. fingerprint_valid_api_key mac pepper api_key) peppers) = Inr fs \<Longrightarrow>
   fs = map (\<lambda>pepper. the (mac pepper api_key)) peppers"
  by (induction peppers arbitrary: fs) (auto simp: fingerprint_valid_api_key_def split: option.splits sum.splits)

lemma rotating_lookup_logged:
  "rotating_lookup (logged store) fs (log, s) = (res, (log', s')) \<Longrightarrow> fs \<noteq> [] \<Longrightarrow>
   \<exists>tried. log' = log @ tried \<and> tried \<noteq> [] \<and> map fst tried = take (length tried) fs \<and>
     (\<forall>e\<in>set (butlast tried). snd e = Inl RejectedApiKey) \<and> res = snd (last tried) \<and>
     (res = Inl RejectedApiKey \<longrightarrow> length tried = length fs)"
proof (induction fs arbitrary: log s)
  case (Cons f fs)
  obtain r t where r: "store f s = (r, t)" by force
  show ?case
  proof (cases "r = Inl RejectedApiKey \<and> fs \<noteq> []")
    case True
    with Cons.prems r have "rotating_lookup (logged store) fs (log @ [(f, r)], t) = (res, (log', s'))"
      by (simp add: logged_step [of store, OF r])
    from Cons.IH [OF this] True obtain tried where
      "log' = (log @ [(f, r)]) @ tried" "tried \<noteq> []" "map fst tried = take (length tried) fs"
      "\<forall>e\<in>set (butlast tried). snd e = Inl RejectedApiKey" "res = snd (last tried)"
      "res = Inl RejectedApiKey \<longrightarrow> length tried = length fs" by blast
    with True show ?thesis by (intro exI [of _ "(f, r) # tried"]) simp
  next
    case False
    with Cons.prems r have "res = r \<and> log' = log @ [(f, r)]"
      by (cases r) (auto simp: logged_step [of store, OF r] split: if_splits)
    with False show ?thesis by (intro exI [of _ "[(f, r)]"]) auto
  qed
qed simp

section \<open>Properties\<close>

text \<open>C39. Admission of principals is exact.  Verified claims give a principal precisely when every
  identifier is non-blank and at most 1024 bytes, and each of the three sets has at most 64 values, all non-blank and
  at most 256 bytes; the principal then carries exactly the claims.  A stored principal is restored precisely when
  it is within the same limits, and as itself.\<close>

theorem principal_admission_exact:
  assumes "finite (prin_scopes q)" "finite (prin_roles q)" "finite (prin_permissions q)"
  shows "(from_verified_claims subject issuer tenant scopes roles permissions = Inr p) =
      (p = \<lparr>prin_subject = subject, prin_issuer = Some issuer, prin_tenant = tenant, prin_scopes = set scopes,
            prin_roles = set roles, prin_permissions = set permissions\<rparr> \<and> principal_wf p) \<and>
    (principal_from_serialized (principal_serialize q) = Inr p) = (p = q \<and> principal_wf q)"
proof
  show "(principal_from_serialized (principal_serialize q) = Inr p) = (p = q \<and> principal_wf q)"
    using assms by (subst principal_from_serialized_Inr) (auto simp: principal_serialize_def principal_wf_def intro: principal.equality)
qed (rule from_verified_claims_Inr)

lemma principal_admission_exact_witness:
  "from_verified_claims ''alice'' ''idp'' None [''read'', ''read''] [] [] =
     Inr \<lparr>prin_subject = ''alice'', prin_issuer = Some ''idp'', prin_tenant = None, prin_scopes = {''read''},
         prin_roles = {}, prin_permissions = {}\<rparr>"
  using principal_admission_exact [of "\<lparr>prin_subject = ''alice'', prin_issuer = Some ''idp'', prin_tenant = None,
      prin_scopes = {''read''}, prin_roles = {}, prin_permissions = {}\<rparr>" "''alice''" "''idp''" None
      "[''read'', ''read'']" "[]" "[]" "\<lparr>prin_subject = ''alice'', prin_issuer = Some ''idp'', prin_tenant = None,
      prin_scopes = {''read''}, prin_roles = {}, prin_permissions = {}\<rparr>"]
  by (simp add: principal_wf_def identifier_ok_def values_ok_def is_blank_def trim_eval)


definition sample_principal :: principal where
  "sample_principal = \<lparr>prin_subject = ''alice'', prin_issuer = None, prin_tenant = Some ''acme'', prin_scopes = {},
     prin_roles = {''editor''}, prin_permissions = {}\<rparr>"



text \<open>Pepper rotation tries at most three fingerprints, the active one first and each retired one once, in order.
  Every lookup but the last was rejected, the result is that of the last lookup, and a rejection is
  reported only after all of them were rejected: an unavailable store is never taken for an unknown key.\<close>

theorem rotating_authenticate_lookups:
  assumes ring: "with_retired active retired = Inr ring"
    and res: "rotating_authenticate mac ring (logged store) api_key ([], s) = (res, (log, s'))"
    and prints: "ring_fingerprints mac ring api_key = Inr fs"
  shows "fs = map (\<lambda>pepper. the (mac pepper api_key)) (active # retired) \<and> distinct (active # retired) \<and>
    length log \<le> 3 \<and> log \<noteq> [] \<and> map fst log = take (length log) fs \<and>
    (\<forall>e\<in>set (butlast log). snd e = Inl RejectedApiKey) \<and> res = snd (last log) \<and>
    (res = Inl RejectedApiKey \<longrightarrow> length log = length fs)"
proof -
  have r: "ring_active ring = active" "ring_retired ring = retired" "length retired \<le> 2" "distinct (active # retired)"
    using ring retain_peppers_bound [of active retired "[]"] by (auto simp: with_retired_def)
  have fs: "fs = map (\<lambda>pepper. the (mac pepper api_key)) (active # retired)"
    using prints r by (intro collect_fingerprints) (simp add: ring_fingerprints_def split: if_splits)
  then have "fs \<noteq> []" "length fs \<le> 3" using r(3) by simp_all
  moreover have "rotating_lookup (logged store) fs ([], s) = (res, (log, s'))"
    using res prints by (simp add: rotating_authenticate_def)
  note rotating_lookup_logged [OF this \<open>fs \<noteq> []\<close>]
  then have "log \<noteq> [] \<and> map fst log = take (length log) fs \<and>
      (\<forall>e\<in>set (butlast log). snd e = Inl RejectedApiKey) \<and> res = snd (last log) \<and>
      (res = Inl RejectedApiKey \<longrightarrow> length log = length fs)" by simp
  moreover from this have "length log \<le> length fs" by (metis length_map length_take min.cobounded1)
  ultimately show ?thesis using fs r(4) by linarith
qed

lemma rotating_authenticate_lookups_witness:
  "\<exists>res log. rotating_authenticate (\<lambda>pepper key. Some (pepper @ key))
       \<lparr>ring_active = ''n'', ring_retired = [''o'']\<rparr> (logged (\<lambda>f (s :: unit).
         (if f = ''okey'' then Inr sample_principal else Inl RejectedApiKey, s))) ''key'' ([], ()) = (res, (log, ())) \<and>
     map fst log = take (length log) [''nkey'', ''okey''] \<and> length log \<le> 3"
proof -
  have ring: "with_retired ''n'' [''o''] = Inr \<lparr>ring_active = ''n'', ring_retired = [''o'']\<rparr>"
    by (simp add: with_retired_def)
  have prints: "ring_fingerprints (\<lambda>pepper key. Some (pepper @ key)) \<lparr>ring_active = ''n'', ring_retired = [''o'']\<rparr> ''key'' =
      Inr [''nkey'', ''okey'']"
    by (simp add: ring_fingerprints_def is_valid_api_key_value_def in_codes_def fingerprint_valid_api_key_def)
  obtain res log s' where "rotating_authenticate (\<lambda>pepper key. Some (pepper @ key))
       \<lparr>ring_active = ''n'', ring_retired = [''o'']\<rparr> (logged (\<lambda>f (s :: unit).
         (if f = ''okey'' then Inr sample_principal else Inl RejectedApiKey, s))) ''key'' ([], ()) = (res, (log, s'))"
    by (metis prod.collapse)
  with rotating_authenticate_lookups [OF ring this prints] show ?thesis by auto
qed

end
