(* ===== verification/RedisCache.thy ===== *)
theory RedisCache
  imports Http
begin

text \<open>
  The JSON cache helpers of \<open>crates/rustee-redis/src/cache\<close>: writes with an expiry, create-only writes, bounded reads and
  one-time reads, with the two Lua scripts.

  The Redis server is the record \<open>cache_api\<close>, the commands on string values that the helpers and the scripts issue on an
  abstract server state.  A \<open>redis_link\<close> says what happens to a call.  The JSON writer and reader of a type are parameters.
\<close>

section \<open>Commands\<close>

abbreviation MAX_REDIS_TTL_SECONDS :: nat where "MAX_REDIS_TTL_SECONDS \<equiv> 9000000000000000"

datatype cache_error = ZeroTtl | TtlOutOfRange | EntryExists | CacheRedis | CacheJson | CacheValueTooLarge | UnexpectedResponse

record 's cache_api =
  cc_get :: "string \<Rightarrow> 's \<Rightarrow> bytes option"
  cc_strlen :: "string \<Rightarrow> 's \<Rightarrow> nat"
  cc_exists :: "string \<Rightarrow> 's \<Rightarrow> nat"
  cc_set_ex :: "string \<Rightarrow> bytes \<Rightarrow> nat \<Rightarrow> 's \<Rightarrow> 's"
  cc_set_nx_ex :: "string \<Rightarrow> bytes \<Rightarrow> nat \<Rightarrow> 's \<Rightarrow> bool \<times> 's"
  cc_del :: "string \<Rightarrow> 's \<Rightarrow> 's"

definition cache_call :: "redis_link \<Rightarrow> ('s \<Rightarrow> 'a \<times> 's) \<Rightarrow> 's \<Rightarrow> (cache_error, 'a) result \<times> 's" where
  "cache_call link command s =
     (case link of
        Answered \<Rightarrow> (case command s of (r, s') \<Rightarrow> (Inr r, s'))
      | ReplyLost \<Rightarrow> (Inl CacheRedis, snd (command s))
      | NotSent \<Rightarrow> (Inl CacheRedis, s))"

section \<open>Reads\<close>

definition bounded_read_script :: "'s cache_api \<Rightarrow> string \<Rightarrow> nat \<Rightarrow> 's \<Rightarrow> (int \<times> bytes option) \<times> 's" where
  "bounded_read_script api key max_bytes s =
     (let len = cc_strlen api key s in
      if len = 0 \<and> cc_exists api key s = 0 then ((0, Some []), s)
      else if len > max_bytes then ((2, Some []), s)
      else ((1, cc_get api key s), s))"

definition bounded_take_script :: "'s cache_api \<Rightarrow> string \<Rightarrow> nat \<Rightarrow> 's \<Rightarrow> (int \<times> bytes option) \<times> 's" where
  "bounded_take_script api key max_bytes s =
     (let len = cc_strlen api key s in
      if len = 0 \<and> cc_exists api key s = 0 then ((0, Some []), s)
      else if len > max_bytes then ((2, Some []), s)
      else let value = cc_get api key s in ((1, value), cc_del api key s))"

definition decode_json_bounded ::
  "(bytes \<Rightarrow> 'v option) \<Rightarrow> bytes option \<Rightarrow> nat \<Rightarrow> (cache_error, 'v option) result" where
  "decode_json_bounded reader value max_bytes =
     (case value of
        None \<Rightarrow> Inr None
      | Some bytes \<Rightarrow>
          if length bytes > max_bytes then Inl CacheValueTooLarge
          else case reader bytes of None \<Rightarrow> Inl CacheJson | Some v \<Rightarrow> Inr (Some v))"

text \<open>A reply whose second part is not a string cannot be converted by the client.\<close>

definition decode_bounded_response ::
  "(bytes \<Rightarrow> 'v option) \<Rightarrow> int \<times> bytes option \<Rightarrow> nat \<Rightarrow> (cache_error, 'v option) result" where
  "decode_bounded_response reader reply max_bytes =
     (case reply of
        (status, None) \<Rightarrow> Inl CacheRedis
      | (status, Some value) \<Rightarrow>
          if status = 0 then Inr None
          else if status = 1 then decode_json_bounded reader (Some value) max_bytes
          else if status = 2 then Inl CacheValueTooLarge
          else Inl UnexpectedResponse)"

definition get_json_bounded ::
  "'s cache_api \<Rightarrow> (bytes \<Rightarrow> 'v option) \<Rightarrow> redis_link \<Rightarrow> string \<Rightarrow> nat \<Rightarrow> 's \<Rightarrow> (cache_error, 'v option) result \<times> 's" where
  "get_json_bounded api reader link key max_bytes s =
     (if max_bytes > i64_max then (Inl CacheValueTooLarge, s)
      else case cache_call link (bounded_read_script api key max_bytes) s of
        (r, s') \<Rightarrow> (bind_result r (\<lambda>reply. decode_bounded_response reader reply max_bytes), s'))"

definition take_json_bounded ::
  "'s cache_api \<Rightarrow> (bytes \<Rightarrow> 'v option) \<Rightarrow> redis_link \<Rightarrow> string \<Rightarrow> nat \<Rightarrow> 's \<Rightarrow> (cache_error, 'v option) result \<times> 's" where
  "take_json_bounded api reader link key max_bytes s =
     (if max_bytes > i64_max then (Inl CacheValueTooLarge, s)
      else case cache_call link (bounded_take_script api key max_bytes) s of
        (r, s') \<Rightarrow> (bind_result r (\<lambda>reply. decode_bounded_response reader reply max_bytes), s'))"

text \<open>The unbounded reads ask for a \<open>String\<close>, so other bytes are a conversion failure.\<close>

definition decode_json_text :: "(bytes \<Rightarrow> 'v option) \<Rightarrow> bytes option \<Rightarrow> (cache_error, 'v option) result" where
  "decode_json_text reader value =
     (case value of
        None \<Rightarrow> Inr None
      | Some text \<Rightarrow>
          if \<not> utf8_valid text then Inl CacheRedis
          else case reader text of None \<Rightarrow> Inl CacheJson | Some v \<Rightarrow> Inr (Some v))"

definition get_json ::
  "'s cache_api \<Rightarrow> (bytes \<Rightarrow> 'v option) \<Rightarrow> redis_link \<Rightarrow> string \<Rightarrow> 's \<Rightarrow> (cache_error, 'v option) result \<times> 's" where
  "get_json api reader link key s =
     (case cache_call link (\<lambda>s. (cc_get api key s, s)) s of (r, s') \<Rightarrow> (bind_result r (decode_json_text reader), s'))"

definition take_json ::
  "'s cache_api \<Rightarrow> (bytes \<Rightarrow> 'v option) \<Rightarrow> redis_link \<Rightarrow> string \<Rightarrow> 's \<Rightarrow> (cache_error, 'v option) result \<times> 's" where
  "take_json api reader link key s =
     (case cache_call link (\<lambda>s. (cc_get api key s, cc_del api key s)) s of
        (r, s') \<Rightarrow> (bind_result r (decode_json_text reader), s'))"

definition cache_delete :: "'s cache_api \<Rightarrow> redis_link \<Rightarrow> string \<Rightarrow> 's \<Rightarrow> (cache_error, unit) result \<times> 's" where
  "cache_delete api link key s = cache_call link (\<lambda>s. ((), cc_del api key s)) s"

section \<open>Writes\<close>

definition validate_ttl_seconds :: "nat \<Rightarrow> (cache_error, unit) result" where
  "validate_ttl_seconds ttl_seconds =
     (if ttl_seconds = 0 then Inl ZeroTtl
      else if ttl_seconds > MAX_REDIS_TTL_SECONDS then Inl TtlOutOfRange
      else Inr ())"

definition cache_encode_json_bounded ::
  "('v \<Rightarrow> bytes list \<times> bool) \<Rightarrow> 'v \<Rightarrow> nat \<Rightarrow> (cache_error, bytes) result" where
  "cache_encode_json_bounded serializer value max_bytes =
     (case to_vec_bounded serializer value max_bytes of
        Inr encoded \<Rightarrow> Inr encoded
      | Inl TooLarge \<Rightarrow> Inl CacheValueTooLarge
      | Inl Serialize \<Rightarrow> Inl CacheJson)"

text \<open>\<open>serde_json::to_string\<close>, from the chunks that the writer produces.\<close>

definition encode_json_text :: "('v \<Rightarrow> bytes list \<times> bool) \<Rightarrow> 'v \<Rightarrow> (cache_error, bytes) result" where
  "encode_json_text serializer value =
     (case serializer value of (chunks, ok) \<Rightarrow> if ok then Inr (concat chunks) else Inl CacheJson)"

text \<open>The two ways in which an encoded value is written.\<close>

definition store_value ::
  "'s cache_api \<Rightarrow> redis_link \<Rightarrow> string \<Rightarrow> bytes \<Rightarrow> nat \<Rightarrow> 's \<Rightarrow> (cache_error, unit) result \<times> 's" where
  "store_value api link key encoded ttl_seconds s =
     cache_call link (\<lambda>s. ((), cc_set_ex api key encoded ttl_seconds s)) s"

definition create_value ::
  "'s cache_api \<Rightarrow> redis_link \<Rightarrow> string \<Rightarrow> bytes \<Rightarrow> nat \<Rightarrow> 's \<Rightarrow> (cache_error, unit) result \<times> 's" where
  "create_value api link key encoded ttl_seconds s =
     (case cache_call link (cc_set_nx_ex api key encoded ttl_seconds) s of
        (r, s') \<Rightarrow> (bind_result r (\<lambda>created. if created then Inr () else Inl EntryExists), s'))"

definition write_json ::
  "(bytes \<Rightarrow> nat \<Rightarrow> 's \<Rightarrow> (cache_error, unit) result \<times> 's) \<Rightarrow> (cache_error, bytes) result \<Rightarrow> nat \<Rightarrow> 's \<Rightarrow>
   (cache_error, unit) result \<times> 's" where
  "write_json write encoded ttl_seconds s =
     (case bind_result (validate_ttl_seconds ttl_seconds) (\<lambda>_. encoded) of
        Inl e \<Rightarrow> (Inl e, s)
      | Inr bytes \<Rightarrow> write bytes ttl_seconds s)"

definition set_json ::
  "'s cache_api \<Rightarrow> ('v \<Rightarrow> bytes list \<times> bool) \<Rightarrow> redis_link \<Rightarrow> string \<Rightarrow> 'v \<Rightarrow> nat \<Rightarrow> 's \<Rightarrow> (cache_error, unit) result \<times> 's" where
  "set_json api serializer link key value ttl_seconds =
     write_json (store_value api link key) (encode_json_text serializer value) ttl_seconds"

definition set_json_if_absent ::
  "'s cache_api \<Rightarrow> ('v \<Rightarrow> bytes list \<times> bool) \<Rightarrow> redis_link \<Rightarrow> string \<Rightarrow> 'v \<Rightarrow> nat \<Rightarrow> 's \<Rightarrow> (cache_error, unit) result \<times> 's" where
  "set_json_if_absent api serializer link key value ttl_seconds =
     write_json (create_value api link key) (encode_json_text serializer value) ttl_seconds"

definition set_json_bounded_if_absent ::
  "'s cache_api \<Rightarrow> ('v \<Rightarrow> bytes list \<times> bool) \<Rightarrow> redis_link \<Rightarrow> string \<Rightarrow> 'v \<Rightarrow> nat \<Rightarrow> nat \<Rightarrow> 's \<Rightarrow>
   (cache_error, unit) result \<times> 's" where
  "set_json_bounded_if_absent api serializer link key value ttl_seconds max_bytes =
     write_json (create_value api link key) (cache_encode_json_bounded serializer value max_bytes) ttl_seconds"

definition set_json_bounded ::
  "'s cache_api \<Rightarrow> ('v \<Rightarrow> bytes list \<times> bool) \<Rightarrow> redis_link \<Rightarrow> string \<Rightarrow> 'v \<Rightarrow> nat \<Rightarrow> nat \<Rightarrow> 's \<Rightarrow>
   (cache_error, unit) result \<times> 's" where
  "set_json_bounded api serializer link key value ttl_seconds max_bytes =
     write_json (store_value api link key) (cache_encode_json_bounded serializer value max_bytes) ttl_seconds"

section \<open>Documented server behaviour\<close>

text \<open>The string values with their deadlines, and the clock in milliseconds.  A value is gone when its deadline is reached.\<close>

record cache_view =
  cv_values :: "string \<Rightarrow> (bytes \<times> nat) option"
  cv_now :: nat

definition cv_live :: "cache_view \<Rightarrow> string \<Rightarrow> bytes option" where
  "cv_live v key = (case cv_values v key of None \<Rightarrow> None | Some (value, deadline) \<Rightarrow> if cv_now v < deadline then Some value else None)"

definition cv_set :: "string \<Rightarrow> bytes \<Rightarrow> nat \<Rightarrow> cache_view \<Rightarrow> cache_view" where
  "cv_set key value ttl_seconds v = v\<lparr>cv_values := (cv_values v)(key \<mapsto> (value, cv_now v + 1000 * ttl_seconds))\<rparr>"

definition cache_documented :: "'s cache_api \<Rightarrow> ('s \<Rightarrow> cache_view) \<Rightarrow> (nat \<Rightarrow> 's \<Rightarrow> 's) \<Rightarrow> bool" where
  "cache_documented api view elapse \<longleftrightarrow>
     (\<forall>k s. cc_get api k s = cv_live (view s) k) \<and>
     (\<forall>k s. cc_strlen api k s = (case cv_live (view s) k of None \<Rightarrow> 0 | Some v \<Rightarrow> length v)) \<and>
     (\<forall>k s. cc_exists api k s = (if cv_live (view s) k = None then 0 else 1)) \<and>
     (\<forall>k v ttl s. view (cc_set_ex api k v ttl s) = cv_set k v ttl (view s)) \<and>
     (\<forall>k v ttl s. fst (cc_set_nx_ex api k v ttl s) = (cv_live (view s) k = None) \<and>
        view (snd (cc_set_nx_ex api k v ttl s)) =
          (if cv_live (view s) k = None then cv_set k v ttl (view s) else view s)) \<and>
     (\<forall>k s. view (cc_del api k s) = (view s)\<lparr>cv_values := (cv_values (view s))(k := None)\<rparr>) \<and>
     (\<forall>t s. view (elapse t s) = (view s)\<lparr>cv_now := cv_now (view s) + t\<rparr>)"

lemma cache_documentedD:
  assumes "cache_documented api view elapse"
  shows "cc_get api k s = cv_live (view s) k"
    and "cc_strlen api k s = (case cv_live (view s) k of None \<Rightarrow> 0 | Some v \<Rightarrow> length v)"
    and "cc_exists api k s = (if cv_live (view s) k = None then 0 else 1)"
    and "view (cc_set_ex api k v ttl s) = cv_set k v ttl (view s)"
    and "fst (cc_set_nx_ex api k v ttl s) = (cv_live (view s) k = None)"
    and "view (snd (cc_set_nx_ex api k v ttl s)) =
          (if cv_live (view s) k = None then cv_set k v ttl (view s) else view s)"
    and "view (cc_del api k s) = (view s)\<lparr>cv_values := (cv_values (view s))(k := None)\<rparr>"
    and "view (elapse t s) = (view s)\<lparr>cv_now := cv_now (view s) + t\<rparr>"
  using assms unfolding cache_documented_def by blast+

lemma cv_live_set: "0 < ttl \<Longrightarrow> cv_live (cv_set k v ttl view) = (cv_live view)(k \<mapsto> v)"
  by (auto simp: cv_live_def cv_set_def fun_eq_iff split: option.splits)

lemma cv_live_del: "cv_live (v\<lparr>cv_values := (cv_values v)(k := None)\<rparr>) = (cv_live v)(k := None)"
  by (auto simp: cv_live_def fun_eq_iff split: option.splits)

lemma cv_live_elapse: "cv_live (v\<lparr>cv_now := cv_now v + t\<rparr>) k \<in> {None, cv_live v k}"
  by (auto simp: cv_live_def split: option.splits)

lemma validate_ttl_Inr [simp]: "validate_ttl_seconds ttl = Inr u \<longleftrightarrow> 0 < ttl \<and> ttl \<le> MAX_REDIS_TTL_SECONDS"
  by (auto simp: validate_ttl_seconds_def)

text \<open>The reply of the read script, and what the client makes of it.\<close>

lemma bounded_read_reply:
  assumes "cache_documented api view elapse"
  shows "bounded_read_script api key max_bytes s =
    ((case cv_live (view s) key of
        None \<Rightarrow> (0, Some [])
      | Some v \<Rightarrow> if length v > max_bytes then (2, Some []) else (1, Some v)), s)"
  by (simp add: bounded_read_script_def Let_def cache_documentedD [OF assms] split: option.splits)

definition bounded_value :: "(bytes \<Rightarrow> 'v option) \<Rightarrow> nat \<Rightarrow> bytes option \<Rightarrow> (cache_error, 'v option) result" where
  "bounded_value reader max_bytes live =
     (case live of
        None \<Rightarrow> Inr None
      | Some v \<Rightarrow>
          if length v > max_bytes then Inl CacheValueTooLarge
          else case reader v of None \<Rightarrow> Inl CacheJson | Some x \<Rightarrow> Inr (Some x))"

lemma decode_bounded_reply:
  "decode_bounded_response reader
     (case live of None \<Rightarrow> (0, Some []) | Some v \<Rightarrow> if length v > max_bytes then (2, Some []) else (1, Some v)) max_bytes =
   bounded_value reader max_bytes live"
  by (simp add: decode_bounded_response_def decode_json_bounded_def bounded_value_def split: option.splits)

lemma get_json_bounded_eq:
  assumes "cache_documented api view elapse" "max_bytes \<le> i64_max"
  shows "get_json_bounded api reader link key max_bytes s =
    (if link = Answered then bounded_value reader max_bytes (cv_live (view s) key) else Inl CacheRedis, s)"
  using assms(2)
  by (cases link) (simp_all add: get_json_bounded_def cache_call_def bounded_read_reply [OF assms(1)] decode_bounded_reply)

lemma take_json_bounded_state:
  assumes "cache_documented api view elapse" "max_bytes \<le> i64_max" "take_json_bounded api reader link key max_bytes s = (r, s')"
  shows "cv_live (view s') \<in> {cv_live (view s), (cv_live (view s))(key := None)}"
    and "r = Inr (Some x) \<Longrightarrow> cv_live (view s') = (cv_live (view s))(key := None) \<and>
      (\<exists>v. cv_live (view s) key = Some v \<and> length v \<le> max_bytes \<and> reader v = Some x)"
proof -
  have script: "bounded_take_script api key max_bytes s =
    (case cv_live (view s) key of
        None \<Rightarrow> ((0, Some []), s)
      | Some v \<Rightarrow> if length v > max_bytes then ((2, Some []), s) else ((1, Some v), cc_del api key s))"
    by (simp add: bounded_take_script_def Let_def cache_documentedD(1-3) [OF assms(1)] split: option.splits)
  have del: "cv_live (view (cc_del api key s)) = (cv_live (view s))(key := None)"
    by (simp add: cache_documentedD(7) [OF assms(1)] cv_live_del)
  show "cv_live (view s') \<in> {cv_live (view s), (cv_live (view s))(key := None)}"
    using assms(2,3) del
    by (cases link) (auto simp: take_json_bounded_def cache_call_def script split: option.splits if_splits)
  show "cv_live (view s') = (cv_live (view s))(key := None) \<and>
      (\<exists>v. cv_live (view s) key = Some v \<and> length v \<le> max_bytes \<and> reader v = Some x)" if "r = Inr (Some x)"
    using assms(2,3) del that
    by (cases link) (auto simp: take_json_bounded_def cache_call_def script decode_bounded_response_def
        decode_json_bounded_def split: option.splits if_splits)
qed

section \<open>Properties\<close>

datatype take_event = Take redis_link | TakeElapse nat

text \<open>The values that a sequence of one-time reads of a key delivers.\<close>

fun taken_values ::
  "'s cache_api \<Rightarrow> (bytes \<Rightarrow> 'v option) \<Rightarrow> (nat \<Rightarrow> 's \<Rightarrow> 's) \<Rightarrow> string \<Rightarrow> nat \<Rightarrow> take_event list \<Rightarrow> 's \<Rightarrow> 'v list" where
  "taken_values api reader elapse key max_bytes [] s = []"
| "taken_values api reader elapse key max_bytes (TakeElapse t # events) s =
     taken_values api reader elapse key max_bytes events (elapse t s)"
| "taken_values api reader elapse key max_bytes (Take link # events) s =
     (case take_json_bounded api reader link key max_bytes s of
        (r, s') \<Rightarrow> (case r of Inr (Some v) \<Rightarrow> [v] | _ \<Rightarrow> []) @ taken_values api reader elapse key max_bytes events s')"

lemma taken_values_absent:
  assumes doc: "cache_documented api view elapse" "max_bytes \<le> i64_max"
  shows "cv_live (view s) key = None \<Longrightarrow> taken_values api reader elapse key max_bytes events s = []"
proof (induction events arbitrary: s)
  case (Cons e events)
  show ?case
  proof (cases e)
    case (TakeElapse t)
    have "cv_live (view (elapse t s)) key = None"
      using cv_live_elapse [of "view s" t key] Cons.prems by (simp add: cache_documentedD(8) [OF doc(1)])
    with Cons.IH TakeElapse show ?thesis by simp
  next
    case (Take link)
    obtain r s' where r: "take_json_bounded api reader link key max_bytes s = (r, s')" by force
    have "cv_live (view s') key = None" using take_json_bounded_state(1) [OF doc r] Cons.prems by auto
    moreover have "r \<noteq> Inr (Some x)" for x using take_json_bounded_state(2) [OF doc r, of x] Cons.prems by auto
    ultimately show ?thesis using Take r Cons.IH by (auto split: sum.splits option.splits)
  qed
qed simp

text \<open>C40. A one-time value is delivered at most once: after a value was created under a key, the one-time reads of
  that key, in any number, with lost replies and passing time between them, deliver nothing or exactly one value, and
  that is the one the reader makes of the stored bytes.\<close>

theorem one_time_value_taken_once:
  assumes doc: "cache_documented api view elapse" "max_bytes \<le> i64_max"
    and created: "set_json_bounded_if_absent api serializer Answered key value ttl max_bytes s = (Inr (), s')"
    and roundtrip: "reader (concat (fst (serializer value))) = Some value"
  shows "taken_values api reader elapse key max_bytes events s' \<in> {[], [value]}"
proof -
  obtain chunks ok where ser: "serializer value = (chunks, ok)" by force
  have step: "cc_set_nx_ex api key (concat chunks) ttl s = (True, s')" "0 < ttl"
    using created
    by (auto simp: set_json_bounded_if_absent_def write_json_def create_value_def cache_call_def
        cache_encode_json_bounded_def to_vec_bounded_eq [of serializer, OF ser]
        split: sum.splits prod.splits if_splits bounded_json_error.splits)
  have live: "cv_live (view s') key = Some (concat chunks)"
    using step cache_documentedD(5,6) [OF doc(1), of key "concat chunks" ttl s] by (simp add: cv_live_set)
  have "cv_live (view t) key \<in> {None, Some (concat chunks)} \<Longrightarrow>
      taken_values api reader elapse key max_bytes events t \<in> {[], [value]}" for t
  proof (induction events arbitrary: t)
    case (Cons e events)
    show ?case
    proof (cases e)
      case (TakeElapse n)
      have "cv_live (view (elapse n t)) key \<in> {None, Some (concat chunks)}"
        using cv_live_elapse [of "view t" n key] Cons.prems by (auto simp: cache_documentedD(8) [OF doc(1)])
      with Cons.IH TakeElapse show ?thesis by simp
    next
      case (Take link)
      obtain r t' where r: "take_json_bounded api reader link key max_bytes t = (r, t')" by force
      show ?thesis
      proof (cases "\<exists>x. r = Inr (Some x)")
        case True
        then obtain x where x: "r = Inr (Some x)" by blast
        from take_json_bounded_state(2) [OF doc r x] Cons.prems roundtrip ser
        have "x = value" "cv_live (view t') key = None" by auto
        with Take r x taken_values_absent [OF doc, of t' key reader events] show ?thesis by simp
      next
        case False
        have "cv_live (view t') key \<in> {None, Some (concat chunks)}"
          using take_json_bounded_state(1) [OF doc r] Cons.prems by auto
        with False Cons.IH Take r show ?thesis by (auto split: sum.splits option.splits)
      qed
    qed
  qed simp
  with live show ?thesis by simp
qed

definition view_cache :: "cache_view cache_api" where
  "view_cache = \<lparr>cc_get = (\<lambda>k v. cv_live v k),
     cc_strlen = (\<lambda>k v. case cv_live v k of None \<Rightarrow> 0 | Some x \<Rightarrow> length x),
     cc_exists = (\<lambda>k v. if cv_live v k = None then 0 else 1),
     cc_set_ex = cv_set,
     cc_set_nx_ex = (\<lambda>k x ttl v. (cv_live v k = None, if cv_live v k = None then cv_set k x ttl v else v)),
     cc_del = (\<lambda>k v. v\<lparr>cv_values := (cv_values v)(k := None)\<rparr>)\<rparr>"

definition elapse_cache :: "nat \<Rightarrow> cache_view \<Rightarrow> cache_view" where
  "elapse_cache t v = v\<lparr>cv_now := cv_now v + t\<rparr>"

lemma view_cache_documented: "cache_documented view_cache (\<lambda>v. v) elapse_cache"
  by (simp add: cache_documented_def view_cache_def elapse_cache_def)

definition empty_cache :: cache_view where
  "empty_cache = \<lparr>cv_values = (\<lambda>_. None), cv_now = 0\<rparr>"

lemma one_time_value_taken_once_witness:
  "taken_values view_cache Some elapse_cache ''state'' 10 [Take NotSent, TakeElapse 5, Take Answered, Take Answered]
     (cv_set ''state'' ''v'' 60 empty_cache) \<in> {[], [''v'']}"
proof -
  have "set_json_bounded_if_absent view_cache (\<lambda>v. ([v], True)) Answered ''state'' ''v'' 60 10 empty_cache =
      (Inr (), cv_set ''state'' ''v'' 60 empty_cache)"
    by (simp add: set_json_bounded_if_absent_def write_json_def create_value_def cache_call_def validate_ttl_seconds_def
        cache_encode_json_bounded_def to_vec_bounded_eq [of _ _ "[''v'']" True] view_cache_def cv_live_def empty_cache_def)
  from one_time_value_taken_once [OF view_cache_documented _ this] show ?thesis by (simp del: taken_values.simps)
qed

end
