(* ===== verification/Session.thy ===== *)
theory Session
  imports Auth RedisCache RateLimit IpParse
begin

text \<open>
  Server-side browser sessions (\<open>crates/rustee-auth-session/src\<close>): session records (\<open>model/session.rs\<close>), the cookie
  policy (\<open>model/cookie.rs\<close>), the manager (\<open>model/manager.rs\<close>), the local store (\<open>model/in_memory.rs\<close>), the session layer
  (\<open>middleware.rs\<close>) and the CSRF layer (\<open>middleware/csrf.rs\<close>); and the Redis store of
  \<open>crates/rustee-auth-session-redis/src\<close>.

  The \<open>uuid\<close> package is the record \<open>uuid_api\<close>; generated UUIDs are arguments.  The clock is an argument in seconds.  The
  JSON form of a session is a parameter: the chunks its writer produces, and the fields its reader gives.
\<close>

section \<open>Session records\<close>

record uuid_api =
  uuid_to_string :: "128 word \<Rightarrow> string"
  uuid_parse_str :: "string \<Rightarrow> 128 word option"
  uuid_is_rfc4122 :: "128 word \<Rightarrow> bool"
  uuid_version_num :: "128 word \<Rightarrow> nat"

definition session_id_from_uuid :: "uuid_api \<Rightarrow> 128 word \<Rightarrow> session_id option" where
  "session_id_from_uuid u i = (if uuid_is_rfc4122 u i \<and> uuid_version_num u i = 4 then Some (SessionId i) else None)"

definition session_id_parse :: "uuid_api \<Rightarrow> string \<Rightarrow> session_id option" where
  "session_id_parse u text =
     (case uuid_parse_str u text of
        None \<Rightarrow> None
      | Some i \<Rightarrow> if uuid_to_string u i = text then session_id_from_uuid u i else None)"

definition session_id_text :: "uuid_api \<Rightarrow> session_id \<Rightarrow> string" where
  "session_id_text u i = uuid_to_string u (session_uuid i)"

record session =
  sess_id :: session_id
  sess_principal :: principal
  sess_csrf_token :: string
  sess_expires :: nat

definition session_new :: "uuid_api \<Rightarrow> 128 word \<Rightarrow> 128 word \<Rightarrow> nat \<Rightarrow> principal \<Rightarrow> nat \<Rightarrow> session" where
  "session_new u new_id new_token now p ttl_seconds =
     \<lparr>sess_id = SessionId new_id, sess_principal = p, sess_csrf_token = uuid_to_string u new_token,
      sess_expires = saturating_add u64_bound now ttl_seconds\<rparr>"

definition valid_csrf_token :: "uuid_api \<Rightarrow> string \<Rightarrow> bool" where
  "valid_csrf_token u text \<longleftrightarrow>
     length text = 36 \<and> (case uuid_parse_str u text of None \<Rightarrow> False | Some token \<Rightarrow> uuid_to_string u token = text)"

definition is_expired :: "nat \<Rightarrow> session \<Rightarrow> bool" where
  "is_expired now x \<longleftrightarrow> sess_expires x \<le> now"

definition remaining_ttl_seconds :: "nat \<Rightarrow> session \<Rightarrow> nat option" where
  "remaining_ttl_seconds now x =
     (if now \<le> sess_expires x \<and> sess_expires x - now > 0 then Some (sess_expires x - now) else None)"

text \<open>The fields of a stored session, before the checks of the three \<open>Deserialize\<close> implementations.\<close>

record serialized_session =
  ss_id :: "128 word"
  ss_principal :: serialized_principal
  ss_csrf_token :: string
  ss_expires :: nat

definition session_serialize :: "session \<Rightarrow> serialized_session" where
  "session_serialize x =
     \<lparr>ss_id = session_uuid (sess_id x), ss_principal = principal_serialize (sess_principal x),
      ss_csrf_token = sess_csrf_token x, ss_expires = sess_expires x\<rparr>"

definition session_from_serialized :: "uuid_api \<Rightarrow> serialized_session \<Rightarrow> session option" where
  "session_from_serialized u r =
     (case (session_id_from_uuid u (ss_id r), principal_from_serialized (ss_principal r)) of
        (Some i, Inr p) \<Rightarrow>
          if \<not> valid_csrf_token u (ss_csrf_token r) then None
          else Some \<lparr>sess_id = i, sess_principal = p, sess_csrf_token = ss_csrf_token r, sess_expires = ss_expires r\<rparr>
      | _ \<Rightarrow> None)"

section \<open>Cookies\<close>

abbreviation MAX_COOKIE_NAME_BYTES :: nat where "MAX_COOKIE_NAME_BYTES \<equiv> 128"

datatype same_site = SameSiteStrict | SameSiteLax | SameSiteNone

definition same_site_as_str :: "same_site \<Rightarrow> string" where
  "same_site_as_str s = (case s of SameSiteStrict \<Rightarrow> ''Strict'' | SameSiteLax \<Rightarrow> ''Lax'' | SameSiteNone \<Rightarrow> ''None'')"

record session_cookie_config =
  ck_name :: string
  ck_ttl_seconds :: nat
  ck_secure :: bool
  ck_same_site :: same_site

datatype cookie_config_error = InvalidName | ZeroCookieTtl | SameSiteNoneRequiresSecure

definition cookie_name_char :: "char \<Rightarrow> bool" where
  "cookie_name_char b \<longleftrightarrow> is_ascii_alphanumeric b \<or> b \<in> set ''!#$%&*+-.^_|~'' \<or> b = CHR 0x27 \<or> b = CHR 0x60"

definition valid_cookie_name :: "string \<Rightarrow> bool" where
  "valid_cookie_name name \<longleftrightarrow> name \<noteq> [] \<and> length name \<le> MAX_COOKIE_NAME_BYTES \<and> list_all cookie_name_char name"

definition session_cookie_config_new :: "string \<Rightarrow> nat \<Rightarrow> (cookie_config_error, session_cookie_config) result" where
  "session_cookie_config_new name ttl_seconds =
     (if \<not> valid_cookie_name name then Inl InvalidName
      else if ttl_seconds = 0 then Inl ZeroCookieTtl
      else Inr \<lparr>ck_name = name, ck_ttl_seconds = ttl_seconds, ck_secure = True, ck_same_site = SameSiteLax\<rparr>)"

definition with_same_site ::
  "session_cookie_config \<Rightarrow> same_site \<Rightarrow> (cookie_config_error, session_cookie_config) result" where
  "with_same_site config s =
     (if s = SameSiteNone \<and> \<not> ck_secure config then Inl SameSiteNoneRequiresSecure
      else Inr (config\<lparr>ck_same_site := s\<rparr>))"

definition with_secure :: "session_cookie_config \<Rightarrow> bool \<Rightarrow> (cookie_config_error, session_cookie_config) result" where
  "with_secure config secure =
     (if \<not> secure \<and> ck_same_site config = SameSiteNone then Inl SameSiteNoneRequiresSecure
      else Inr (config\<lparr>ck_secure := secure\<rparr>))"

text \<open>The text of the two cookies; that it is a legal field value, so that \<open>expect\<close> never panics, is a lemma below.\<close>

definition cookie_attributes :: "session_cookie_config \<Rightarrow> string" where
  "cookie_attributes config =
     ''; HttpOnly'' @ (if ck_secure config then ''; Secure'' else []) @ ''; SameSite='' @ same_site_as_str (ck_same_site config)"

definition set_cookie :: "uuid_api \<Rightarrow> session_cookie_config \<Rightarrow> session_id \<Rightarrow> string" where
  "set_cookie u config i =
     ck_name config @ ''='' @ session_id_text u i @ ''; Path=/; Max-Age='' @ show_nat (ck_ttl_seconds config) @
     cookie_attributes config"

definition clear_cookie :: "session_cookie_config \<Rightarrow> string" where
  "clear_cookie config = ck_name config @ ''=; Path=/; Max-Age=0'' @ cookie_attributes config"

record issued_session =
  is_csrf_token :: string
  is_set_cookie :: string

definition apply_to :: "issued_session \<Rightarrow> response \<Rightarrow> response" where
  "apply_to issued r = r\<lparr>resp_headers := header_append ''set-cookie'' (is_set_cookie issued) (resp_headers r)\<rparr>"

section \<open>The manager\<close>

text \<open>
  A store is three operations on an abstract state.  They take what the connection does to the call, and the two that read
  the clock take the time.  The manager reads the clock for the new session, and the store reads it again.
\<close>

type_synonym ('l, 's, 'e) session_save = "'l \<Rightarrow> nat \<Rightarrow> session \<Rightarrow> 's \<Rightarrow> ('e, unit) result \<times> 's"
type_synonym ('l, 's, 'e) session_load = "'l \<Rightarrow> nat \<Rightarrow> session_id \<Rightarrow> 's \<Rightarrow> ('e, session option) result \<times> 's"
type_synonym ('l, 's, 'e) session_delete = "'l \<Rightarrow> session_id \<Rightarrow> 's \<Rightarrow> ('e, unit) result \<times> 's"

record new_session =
  ns_id :: "128 word"
  ns_token :: "128 word"
  ns_now :: nat
  ns_store_now :: nat

definition fresh_session :: "uuid_api \<Rightarrow> session_cookie_config \<Rightarrow> new_session \<Rightarrow> principal \<Rightarrow> session" where
  "fresh_session u config n p = session_new u (ns_id n) (ns_token n) (ns_now n) p (ck_ttl_seconds config)"

definition establish ::
  "uuid_api \<Rightarrow> ('l, 's, 'e) session_save \<Rightarrow> session_cookie_config \<Rightarrow> 'l \<Rightarrow> new_session \<Rightarrow> principal \<Rightarrow> 's \<Rightarrow>
   ('e, issued_session) result \<times> 's" where
  "establish u save config l n p s =
     (let x = fresh_session u config n p in
      case save l (ns_store_now n) x s of
        (Inl e, s') \<Rightarrow> (Inl e, s')
      | (Inr _, s') \<Rightarrow> (Inr \<lparr>is_csrf_token = sess_csrf_token x, is_set_cookie = set_cookie u config (sess_id x)\<rparr>, s'))"

definition rotate ::
  "uuid_api \<Rightarrow> ('l, 's, 'e) session_save \<Rightarrow> ('l, 's, 'e) session_delete \<Rightarrow> session_cookie_config \<Rightarrow> 'l \<Rightarrow> 'l \<Rightarrow>
   session_id \<Rightarrow> new_session \<Rightarrow> principal \<Rightarrow> 's \<Rightarrow> ('e, issued_session) result \<times> 's" where
  "rotate u save delete config l l' previous n p s =
     (case delete l previous s of
        (Inl e, s') \<Rightarrow> (Inl e, s')
      | (Inr _, s') \<Rightarrow> establish u save config l' n p s')"

definition invalidate ::
  "('l, 's, 'e) session_delete \<Rightarrow> session_cookie_config \<Rightarrow> 'l \<Rightarrow> session_id \<Rightarrow> 's \<Rightarrow> ('e, string) result \<times> 's" where
  "invalidate delete config l i s =
     (case delete l i s of (Inl e, s') \<Rightarrow> (Inl e, s') | (Inr _, s') \<Rightarrow> (Inr (clear_cookie config), s'))"

section \<open>The local store\<close>

text \<open>An operation of the local store holds the lock throughout; the clock is read once for it.\<close>

abbreviation MAX_IN_MEMORY_SESSIONS :: nat where "MAX_IN_MEMORY_SESSIONS \<equiv> 1024"

datatype in_memory_error = StateUnavailable | ExpiredSession | CapacityExhausted

record memory_store =
  mem_sessions :: "session_id \<rightharpoonup> session"
  mem_poisoned :: bool

definition retain_unexpired :: "nat \<Rightarrow> (session_id \<rightharpoonup> session) \<Rightarrow> (session_id \<rightharpoonup> session)" where
  "retain_unexpired now sessions =
     (\<lambda>i. case sessions i of None \<Rightarrow> None | Some x \<Rightarrow> if is_expired now x then None else Some x)"

definition memory_save :: "(unit, memory_store, in_memory_error) session_save" where
  "memory_save l now x m =
     (if mem_poisoned m then (Inl StateUnavailable, m)
      else
        let sessions = retain_unexpired now (mem_sessions m); m' = m\<lparr>mem_sessions := sessions\<rparr> in
        if is_expired now x then (Inl ExpiredSession, m')
        else if sessions (sess_id x) = None \<and> card (dom sessions) \<ge> MAX_IN_MEMORY_SESSIONS
        then (Inl CapacityExhausted, m')
        else (Inr (), m\<lparr>mem_sessions := sessions(sess_id x \<mapsto> x)\<rparr>))"

definition memory_load :: "(unit, memory_store, in_memory_error) session_load" where
  "memory_load l now i m =
     (if mem_poisoned m then (Inl StateUnavailable, m)
      else
        let sessions = retain_unexpired now (mem_sessions m) in
        (Inr (sessions i), m\<lparr>mem_sessions := sessions\<rparr>))"

definition memory_delete :: "(unit, memory_store, in_memory_error) session_delete" where
  "memory_delete l i m =
     (if mem_poisoned m then (Inl StateUnavailable, m)
      else (Inr (), m\<lparr>mem_sessions := (mem_sessions m)(i := None)\<rparr>))"

section \<open>The Redis store\<close>

abbreviation MAX_SERIALIZED_SESSION_BYTES :: nat where "MAX_SERIALIZED_SESSION_BYTES \<equiv> 512 * 1024"

definition DEFAULT_NAMESPACE :: string where
  "DEFAULT_NAMESPACE = ''rustee:session:v1''"

datatype redis_session_error =
    RedisExpiredSession | RedisTtlOutOfRange | SessionIdMismatch | SaveFailed cache_error | LoadFailed cache_error
  | DeleteFailed cache_error

definition redis_session_store_new :: string where
  "redis_session_store_new = DEFAULT_NAMESPACE"

definition redis_session_store_with_namespace :: "string \<Rightarrow> (unit, string) result" where
  "redis_session_store_with_namespace namespace =
     (if \<not> is_valid_key_namespace namespace then Inl () else Inr namespace)"

definition session_key :: "uuid_api \<Rightarrow> string \<Rightarrow> session_id \<Rightarrow> string" where
  "session_key u namespace i = namespace @ '':'' @ session_id_text u i"

text \<open>The JSON package: the chunks written for a session, and the fields read from text.\<close>

record session_json =
  sj_write :: "serialized_session \<Rightarrow> bytes list \<times> bool"
  sj_read :: "bytes \<Rightarrow> serialized_session option"

definition session_reader :: "uuid_api \<Rightarrow> session_json \<Rightarrow> bytes \<Rightarrow> session option" where
  "session_reader u json text = (case sj_read json text of None \<Rightarrow> None | Some r \<Rightarrow> session_from_serialized u r)"

definition cache_save_error :: "cache_error \<Rightarrow> redis_session_error" where
  "cache_save_error e = (if e = TtlOutOfRange then RedisTtlOutOfRange else SaveFailed e)"

definition redis_session_save ::
  "'s cache_api \<Rightarrow> uuid_api \<Rightarrow> session_json \<Rightarrow> string \<Rightarrow> (redis_link, 's, redis_session_error) session_save" where
  "redis_session_save api u json namespace link now x s =
     (case remaining_ttl_seconds now x of
        None \<Rightarrow> (Inl RedisExpiredSession, s)
      | Some ttl \<Rightarrow>
          (case set_json_bounded api (\<lambda>x. sj_write json (session_serialize x)) link (session_key u namespace (sess_id x)) x ttl
                  MAX_SERIALIZED_SESSION_BYTES s of
             (Inl e, s') \<Rightarrow> (Inl (cache_save_error e), s')
           | (Inr _, s') \<Rightarrow> (Inr (), s')))"

definition loaded_session :: "nat \<Rightarrow> session_id \<Rightarrow> session option \<Rightarrow> (redis_session_error, session option) result" where
  "loaded_session now i x =
     (case x of
        None \<Rightarrow> Inr None
      | Some x \<Rightarrow>
          if sess_id x \<noteq> i then Inl SessionIdMismatch
          else Inr (if \<not> is_expired now x then Some x else None))"

definition redis_session_load ::
  "'s cache_api \<Rightarrow> uuid_api \<Rightarrow> session_json \<Rightarrow> string \<Rightarrow> (redis_link, 's, redis_session_error) session_load" where
  "redis_session_load api u json namespace link now i s =
     (case get_json_bounded api (session_reader u json) link (session_key u namespace i) MAX_SERIALIZED_SESSION_BYTES s of
        (Inl e, s') \<Rightarrow> (Inl (LoadFailed e), s')
      | (Inr x, s') \<Rightarrow> (loaded_session now i x, s'))"

definition redis_session_delete ::
  "'s cache_api \<Rightarrow> uuid_api \<Rightarrow> string \<Rightarrow> (redis_link, 's, redis_session_error) session_delete" where
  "redis_session_delete api u namespace link i s =
     (case cache_delete api link (session_key u namespace i) s of
        (Inl e, s') \<Rightarrow> (Inl (DeleteFailed e), s')
      | (Inr _, s') \<Rightarrow> (Inr (), s'))"

section \<open>The session layer\<close>

definition cookie_values :: "string \<Rightarrow> string \<Rightarrow> string list" where
  "cookie_values name cookie =
     concat (map (\<lambda>part. case split_once (CHR ''='') (trim part) of
         None \<Rightarrow> [] | Some (key, v) \<Rightarrow> if key = name then [v] else []) (split_on (CHR '';'') cookie))"

definition request_session_id :: "deps \<Rightarrow> uuid_api \<Rightarrow> header_map \<Rightarrow> string \<Rightarrow> session_id option" where
  "request_session_id d u headers name =
     (case headers ''cookie'' of
        [] \<Rightarrow> None
      | header # others \<Rightarrow>
          (case header_to_str d header of
             None \<Rightarrow> None
           | Some cookie \<Rightarrow>
               if others \<noteq> [] then None
               else case cookie_values name cookie of
                 [] \<Rightarrow> None
               | v # repeated \<Rightarrow> if repeated = [] then session_id_parse u v else None))"

definition session_store_response :: "deps \<Rightarrow> response" where
  "session_store_response d =
     error_into_response d (error_new 503 ''session_unavailable'' ''session service is unavailable'')"

definition with_session :: "session \<Rightarrow> request \<Rightarrow> request" where
  "with_session x req =
     req\<lparr>req_extensions := (req_extensions req)
       \<lparr>ext_principal := Some (sess_principal x),
        ext_session := Some \<lparr>sctx_id = sess_id x, sctx_csrf_token = sess_csrf_token x\<rparr>\<rparr>\<rparr>"

text \<open>The store reads the clock at \<open>now\<close>, the layer checks the expiry at \<open>later\<close>.\<close>

definition session_call ::
  "deps \<Rightarrow> uuid_api \<Rightarrow> ('l, 's, 'e) session_load \<Rightarrow> session_cookie_config \<Rightarrow> (request \<Rightarrow> response) \<Rightarrow> 'l \<Rightarrow> nat \<Rightarrow>
   nat \<Rightarrow> request \<Rightarrow> 's \<Rightarrow> response \<times> 's" where
  "session_call d u load config inner l now later req s =
     (case request_session_id d u (req_headers req) (ck_name config) of
        None \<Rightarrow> (inner req, s)
      | Some i \<Rightarrow>
          (case load l now i s of
             (Inl e, s') \<Rightarrow> (session_store_response d, s')
           | (Inr None, s') \<Rightarrow> (inner req, s')
           | (Inr (Some x), s') \<Rightarrow>
               if sess_id x = i \<and> \<not> is_expired later x then (inner (with_session x req), s') else (inner req, s')))"

definition from_request_session_user :: "('v, principal \<times> session_id) extractor" where
  "from_request_session_user req params state =
     ((case (ext_principal (req_extensions req), ext_session (req_extensions req)) of
         (Some p, Some c) \<Rightarrow> Inr (p, sctx_id c)
       | _ \<Rightarrow> Inl (error_new 401 ''unauthenticated'' ''authentication is required'')), req)"

section \<open>The CSRF layer\<close>

definition is_safe_method :: "string \<Rightarrow> bool" where
  "is_safe_method m \<longleftrightarrow> m \<in> {''GET'', ''HEAD'', ''OPTIONS'', ''TRACE''}"

definition csrf_header_value :: "deps \<Rightarrow> header_map \<Rightarrow> string option" where
  "csrf_header_value d headers =
     (case headers ''x-csrf-token'' of
        [] \<Rightarrow> None
      | header # others \<Rightarrow>
          (case header_to_str d header of None \<Rightarrow> None | Some v \<Rightarrow> if others = [] then Some v else None))"

definition csrf_call :: "deps \<Rightarrow> (request \<Rightarrow> response) \<Rightarrow> request \<Rightarrow> response" where
  "csrf_call d inner req =
     (if is_safe_method (req_method req) then inner req
      else case ext_session (req_extensions req) of
        None \<Rightarrow> inner req
      | Some c \<Rightarrow>
          let valid = (case csrf_header_value d (req_headers req) of
              None \<Rightarrow> False | Some token \<Rightarrow> constant_time_eq token (sctx_csrf_token c)) in
          if \<not> valid then error_into_response d (error_new 403 ''csrf_rejected'' ''CSRF validation failed'')
          else inner req)"

section \<open>The store contract\<close>

text \<open>
  What the layer and the manager rely on.  \<open>stored\<close> is the content of a store; it changes only by the operations and by
  passing time, which can only remove sessions.
\<close>

datatype 'l session_event =
    Establish 'l new_session principal
  | Rotate 'l 'l session_id new_session principal
  | Invalidate 'l session_id
  | Restore 'l nat session_id
  | Pass nat

fun event_session :: "uuid_api \<Rightarrow> session_cookie_config \<Rightarrow> 'l session_event \<Rightarrow> session option" where
  "event_session u config (Establish l n p) = Some (fresh_session u config n p)"
| "event_session u config (Rotate l l' i n p) = Some (fresh_session u config n p)"
| "event_session u config _ = None"

fun revokes :: "'l session_event \<Rightarrow> session_id \<Rightarrow> bool" where
  "revokes (Rotate l l' i n p) j = (i = j)"
| "revokes (Invalidate l i) j = (i = j)"
| "revokes _ j = False"

text \<open>One event on a store: whether the operation returned \<open>Ok\<close>, and the store after it.\<close>

fun session_step ::
  "uuid_api \<Rightarrow> ('l, 's, 'e) session_save \<Rightarrow> ('l, 's, 'e) session_load \<Rightarrow> ('l, 's, 'e) session_delete \<Rightarrow> (nat \<Rightarrow> 's \<Rightarrow> 's) \<Rightarrow>
   session_cookie_config \<Rightarrow> 'l session_event \<Rightarrow> 's \<Rightarrow> bool \<times> 's" where
  "session_step u save load delete pass config (Establish l n p) s =
     (case establish u save config l n p s of (r, s') \<Rightarrow> (\<not> isl r, s'))"
| "session_step u save load delete pass config (Rotate l l' i n p) s =
     (case rotate u save delete config l l' i n p s of (r, s') \<Rightarrow> (\<not> isl r, s'))"
| "session_step u save load delete pass config (Invalidate l i) s =
     (case invalidate delete config l i s of (r, s') \<Rightarrow> (\<not> isl r, s'))"
| "session_step u save load delete pass config (Restore l now i) s =
     (case load l now i s of (r, s') \<Rightarrow> (\<not> isl r, s'))"
| "session_step u save load delete pass config (Pass t) s = (True, pass t s)"

fun session_log ::
  "uuid_api \<Rightarrow> ('l, 's, 'e) session_save \<Rightarrow> ('l, 's, 'e) session_load \<Rightarrow> ('l, 's, 'e) session_delete \<Rightarrow> (nat \<Rightarrow> 's \<Rightarrow> 's) \<Rightarrow>
   session_cookie_config \<Rightarrow> 'l session_event list \<Rightarrow> 's \<Rightarrow> ('l session_event \<times> bool) list \<times> 's" where
  "session_log u save load delete pass config [] s = ([], s)"
| "session_log u save load delete pass config (e # es) s =
     (case session_step u save load delete pass config e s of
        (ok, s') \<Rightarrow> (case session_log u save load delete pass config es s' of (log, s'') \<Rightarrow> ((e, ok) # log, s'')))"

locale session_store =
  fixes save :: "('l, 's, 'e) session_save" and load :: "('l, 's, 'e) session_load" and delete :: "('l, 's, 'e) session_delete"
    and pass :: "nat \<Rightarrow> 's \<Rightarrow> 's" and stored :: "'s \<Rightarrow> session_id \<Rightarrow> session option" and admissible :: "session \<Rightarrow> bool"
  assumes load_found: "load l now i s = (Inr (Some x), s') \<Longrightarrow> stored s i = Some x \<and> \<not> is_expired now x"
    and load_keeps: "stored (snd (load l now i s)) j \<in> {None, stored s j}"
    and save_keeps: "admissible x \<Longrightarrow> stored (snd (save l now x s)) j \<in> {None, stored s j} \<union> (if j = sess_id x then {Some x} else {})"
    and delete_keeps: "stored (snd (delete l i s)) j \<in> {None, stored s j}"
    and delete_removes: "\<not> isl (fst (delete l i s)) \<Longrightarrow> stored (snd (delete l i s)) i = None"
    and pass_keeps: "stored (pass t s) j \<in> {None, stored s j}"
begin

lemma establish_stored:
  assumes "admissible (fresh_session u config n p)" "stored (snd (establish u save config l n p s)) j = Some y"
  shows "fresh_session u config n p = y \<and> sess_id y = j \<or> stored s j = Some y"
proof -
  have "snd (establish u save config l n p s) = snd (save l (ns_store_now n) (fresh_session u config n p) s)"
    by (auto simp: establish_def Let_def split: prod.splits sum.splits)
  with assms(2) save_keeps [OF assms(1), where l = l and now = "ns_store_now n" and s = s and j = j] show ?thesis
    by (auto split: if_splits)
qed

lemma step_stored:
  assumes adm: "\<forall>x. event_session u config e = Some x \<longrightarrow> admissible x"
    and step: "session_step u save load delete pass config e s = (ok, s')" and y: "stored s' j = Some y"
  shows "event_session u config e = Some y \<and> sess_id y = j \<or> stored s j = Some y \<and> \<not> (ok \<and> revokes e j)"
proof (cases e)
  case (Establish l n p)
  with step have "s' = snd (establish u save config l n p s)" by (auto split: prod.splits)
  with Establish adm establish_stored [of u config n p l s j y] y show ?thesis by auto
next
  case (Rotate l l' i n p)
  obtain r t where t: "delete l i s = (r, t)" by force
  show ?thesis
  proof (cases r)
    case (Inl e)
    with t step Rotate have "s' = snd (delete l i s)" "\<not> ok" by (auto simp: rotate_def)
    with y delete_keeps [of l i s j] show ?thesis by auto
  next
    case (Inr v)
    with t step Rotate have "s' = snd (establish u save config l' n p t)" by (auto simp: rotate_def split: prod.splits)
    with Rotate adm establish_stored [of u config n p l' t j y] y
    have "fresh_session u config n p = y \<and> sess_id y = j \<or> stored t j = Some y" by auto
    with Rotate Inr t delete_keeps [of l i s j] delete_removes [of l i s] show ?thesis by auto
  qed
next
  case (Invalidate l i)
  obtain r t where t: "delete l i s = (r, t)" by force
  with step Invalidate have "s' = t" "ok \<longleftrightarrow> \<not> isl r" by (auto simp: invalidate_def split: sum.splits)
  with Invalidate t y delete_keeps [of l i s j] delete_removes [of l i s] show ?thesis by auto
next
  case (Restore l now i)
  with step have "s' = snd (load l now i s)" by (auto split: prod.splits)
  with Restore y load_keeps [of l now i s j] show ?thesis by auto
next
  case (Pass t)
  with step y pass_keeps [of t s j] show ?thesis by auto
qed

lemma log_stored:
  assumes "list_all (\<lambda>e. \<forall>x. event_session u config e = Some x \<longrightarrow> admissible x) es"
    and "session_log u save load delete pass config es s = (log, s')" and "stored s' j = Some y"
  shows "(stored s j = Some y \<and> (\<forall>e ok. (e, ok) \<in> set log \<longrightarrow> \<not> (ok \<and> revokes e j))) \<or>
    (\<exists>log1 e ok log2. log = log1 @ (e, ok) # log2 \<and> event_session u config e = Some y \<and> sess_id y = j \<and>
       (\<forall>e' ok'. (e', ok') \<in> set log2 \<longrightarrow> \<not> (ok' \<and> revokes e' j)))"
  using assms
proof (induction es arbitrary: s log)
  case (Cons e es)
  obtain ok t where t: "session_step u save load delete pass config e s = (ok, t)" by force
  obtain log' where log': "session_log u save load delete pass config es t = (log', s')" "log = (e, ok) # log'"
    using Cons.prems(2) t by (auto split: prod.splits)
  have adm: "\<forall>x. event_session u config e = Some x \<longrightarrow> admissible x"
    "list_all (\<lambda>e. \<forall>x. event_session u config e = Some x \<longrightarrow> admissible x) es"
    using Cons.prems(1) by simp_all
  note step = step_stored [OF adm(1) t]
  from Cons.IH [OF adm(2) log'(1) Cons.prems(3)] consider
      "stored t j = Some y" "\<forall>e ok. (e, ok) \<in> set log' \<longrightarrow> \<not> (ok \<and> revokes e j)"
    | log1 e' ok' log2 where "log' = log1 @ (e', ok') # log2" "event_session u config e' = Some y" "sess_id y = j"
      "\<forall>e' ok'. (e', ok') \<in> set log2 \<longrightarrow> \<not> (ok' \<and> revokes e' j)"
    by auto
  then show ?case
  proof cases
    case 1
    with step [of j y] consider "event_session u config e = Some y" "sess_id y = j" | "stored s j = Some y" "\<not> (ok \<and> revokes e j)"
      by auto
    then show ?thesis
    proof cases
      case 1
      with \<open>\<forall>e ok. (e, ok) \<in> set log' \<longrightarrow> _\<close> log'(2) show ?thesis by (intro disjI2 exI [of _ "[]"]) auto
    next
      case 2
      with \<open>\<forall>e ok. (e, ok) \<in> set log' \<longrightarrow> _\<close> log'(2) show ?thesis by (intro disjI1) auto
    qed
  next
    case (2 log1 e' ok' log2)
    with log'(2) show ?thesis by (intro disjI2 exI [of _ "(e, ok) # log1"]) auto
  qed
qed simp

lemma call_identity:
  assumes "session_call d u load config inner l now later req s = (r, s')"
  shows "r = inner req \<or> r = session_store_response d \<or>
    (\<exists>x. stored s (sess_id x) = Some x \<and> request_session_id d u (req_headers req) (ck_name config) = Some (sess_id x) \<and>
       \<not> is_expired now x \<and> \<not> is_expired later x \<and> r = inner (with_session x req))"
proof (cases "request_session_id d u (req_headers req) (ck_name config)")
  case None
  with assms show ?thesis by (simp add: session_call_def)
next
  case (Some i)
  obtain f t where f: "load l now i s = (f, t)" by force
  show ?thesis
  proof (cases f)
    case (Inl e)
    with assms Some f show ?thesis by (simp add: session_call_def)
  next
    case found: (Inr x)
    show ?thesis
    proof (cases x)
      case None
      with assms Some f found show ?thesis by (simp add: session_call_def)
    next
      case x: (Some y)
      with load_found [of l now i s y t] f found have "stored s i = Some y \<and> \<not> is_expired now y" by simp
      with assms Some f found x show ?thesis by (auto simp: session_call_def split: if_splits)
    qed
  qed
qed

lemma identity_provenance:
  assumes "list_all (\<lambda>e. \<forall>x. event_session u config e = Some x \<longrightarrow> admissible x) es" "\<And>i. stored s0 i = None"
    and "session_log u save load delete pass config es s0 = (log, s)"
    and "session_call d u load config inner l now later req s = (r, s')"
  shows "r = inner req \<or> r = session_store_response d \<or>
    (\<exists>x log1 e ok log2. log = log1 @ (e, ok) # log2 \<and> event_session u config e = Some x \<and>
       (\<forall>e' ok'. (e', ok') \<in> set log2 \<longrightarrow> \<not> (ok' \<and> revokes e' (sess_id x))) \<and>
       request_session_id d u (req_headers req) (ck_name config) = Some (sess_id x) \<and>
       \<not> is_expired now x \<and> \<not> is_expired later x \<and> r = inner (with_session x req))"
proof -
  have origin: "\<exists>log1 e ok log2. log = log1 @ (e, ok) # log2 \<and> event_session u config e = Some x \<and>
      (\<forall>e' ok'. (e', ok') \<in> set log2 \<longrightarrow> \<not> (ok' \<and> revokes e' (sess_id x)))" if "stored s (sess_id x) = Some x" for x
    using log_stored [OF assms(1,3) that] assms(2) by auto
  from call_identity [OF assms(4)] origin show ?thesis by blast
qed

end

lemma retain_unexpired_Some: "retain_unexpired now m i = Some x \<longleftrightarrow> m i = Some x \<and> \<not> is_expired now x"
  by (auto simp: retain_unexpired_def split: option.splits if_splits)

lemma retain_unexpired_keeps: "retain_unexpired now m i \<in> {None, m i}"
  by (auto simp: retain_unexpired_def split: option.splits)

interpretation memory: session_store memory_save memory_load memory_delete "\<lambda>_ m. m" mem_sessions "\<lambda>_. True"
proof
  fix l now i m x m'
  show "memory_load l now i m = (Inr (Some x), m') \<Longrightarrow> mem_sessions m i = Some x \<and> \<not> is_expired now x"
    by (auto simp: memory_load_def Let_def retain_unexpired_Some split: if_splits)
next
  fix l now i m j
  show "mem_sessions (snd (memory_load l now i m)) j \<in> {None, mem_sessions m j}"
    using retain_unexpired_keeps by (simp add: memory_load_def Let_def)
next
  fix x l now m j
  show "mem_sessions (snd (memory_save l now x m)) j \<in>
      {None, mem_sessions m j} \<union> (if j = sess_id x then {Some x} else {})"
    using retain_unexpired_keeps [of now "mem_sessions m" j] by (auto simp: memory_save_def Let_def)
qed (auto simp: memory_delete_def)

text \<open>The local store never holds more than its capacity.\<close>

definition memory_ok :: "memory_store \<Rightarrow> bool" where
  "memory_ok m \<longleftrightarrow> finite (dom (mem_sessions m)) \<and> card (dom (mem_sessions m)) \<le> MAX_IN_MEMORY_SESSIONS \<and>
     (\<forall>i x. mem_sessions m i = Some x \<longrightarrow> sess_id x = i)"

lemma retain_unexpired_ok: "memory_ok m \<Longrightarrow> memory_ok (m\<lparr>mem_sessions := retain_unexpired now (mem_sessions m)\<rparr>)"
proof -
  assume ok: "memory_ok m"
  have "dom (retain_unexpired now (mem_sessions m)) \<subseteq> dom (mem_sessions m)" by (auto simp: retain_unexpired_Some)
  with ok show ?thesis
    unfolding memory_ok_def by (auto simp: retain_unexpired_Some intro: finite_subset order_trans [OF card_mono])
qed

lemma memory_ops_ok:
  assumes "memory_ok m"
  shows "memory_ok (snd (memory_save l now x m))" "memory_ok (snd (memory_load l now i m))" "memory_ok (snd (memory_delete l i m))"
proof -
  note kept = retain_unexpired_ok [OF assms, of now]
  show "memory_ok (snd (memory_save l now x m))"
    using kept assms by (auto simp: memory_save_def Let_def memory_ok_def card_insert_if split: if_splits)
  show "memory_ok (snd (memory_load l now i m))" using kept assms by (simp add: memory_load_def Let_def)
  show "memory_ok (snd (memory_delete l i m))"
    using assms by (auto simp: memory_delete_def memory_ok_def intro: order_trans [OF card_mono] split: if_splits)
qed

section \<open>Sessions in Redis\<close>

text \<open>What is documented of the packages: printed UUIDs are 36 characters and are parsed back, and the JSON text of a
  session is read back as the fields it was written from.\<close>

definition uuid_documented :: "uuid_api \<Rightarrow> bool" where
  "uuid_documented u \<longleftrightarrow>
     (\<forall>i. uuid_parse_str u (uuid_to_string u i) = Some i \<and> length (uuid_to_string u i) = 36 \<and>
        list_all (\<lambda>c. is_ascii_hexdigit c \<or> c = CHR ''-'') (uuid_to_string u i))"

definition session_json_documented :: "session_json \<Rightarrow> session \<Rightarrow> bool" where
  "session_json_documented json x \<longleftrightarrow>
     sj_read json (concat (fst (sj_write json (session_serialize x)))) = Some (session_serialize x)"

lemma uuid_to_string_inj: "uuid_documented u \<Longrightarrow> uuid_to_string u i = uuid_to_string u j \<longleftrightarrow> i = j"
  unfolding uuid_documented_def by (metis option.inject)

lemma session_key_inj: "uuid_documented u \<Longrightarrow> session_key u ns i = session_key u ns j \<longleftrightarrow> i = j"
  by (cases i; cases j) (simp add: session_key_def session_id_text_def uuid_to_string_inj)

text \<open>Sessions as the manager creates them: a version 4 identifier, a printed UUID as token and an admitted principal.\<close>

definition session_ok :: "uuid_api \<Rightarrow> session \<Rightarrow> bool" where
  "session_ok u x \<longleftrightarrow> session_id_from_uuid u (session_uuid (sess_id x)) \<noteq> None \<and> principal_wf (sess_principal x) \<and>
     (\<exists>t. sess_csrf_token x = uuid_to_string u t)"

lemma values_ok_finite: "values_ok S \<Longrightarrow> finite S"
  by (simp add: values_ok_def)

lemma principal_restored: "principal_wf p \<Longrightarrow> principal_from_serialized (principal_serialize p) = Inr p"
  by (subst principal_from_serialized_Inr)
    (auto simp: principal_wf_def values_ok_finite principal_serialize_def)

lemma session_restored:
  assumes "uuid_documented u" "session_ok u x"
  shows "session_from_serialized u (session_serialize x) = Some x"
proof -
  have "session_id_from_uuid u (session_uuid (sess_id x)) = Some (sess_id x)"
    using assms(2) by (auto simp: session_ok_def session_id_from_uuid_def split: if_splits)
  moreover have "valid_csrf_token u (sess_csrf_token x)"
    using assms by (auto simp: session_ok_def valid_csrf_token_def uuid_documented_def)
  ultimately show ?thesis
    using assms(2) by (simp add: session_from_serialized_def session_serialize_def principal_restored session_ok_def)
qed

lemma session_reader_written:
  assumes "uuid_documented u" "session_json_documented json x" "session_ok u x"
  shows "session_reader u json (concat (fst (sj_write json (session_serialize x)))) = Some x"
  using assms by (simp add: session_reader_def session_json_documented_def session_restored)

definition redis_stored ::
  "('s \<Rightarrow> cache_view) \<Rightarrow> uuid_api \<Rightarrow> session_json \<Rightarrow> string \<Rightarrow> 's \<Rightarrow> session_id \<Rightarrow> session option" where
  "redis_stored view u json ns s i =
     (case cv_live (view s) (session_key u ns i) of None \<Rightarrow> None | Some text \<Rightarrow> session_reader u json text)"

text \<open>A save writes nothing, or the encoded session under its key.\<close>

lemma redis_session_save_state:
  assumes "redis_session_save api u json ns link now x s = (r, s')"
  shows "(s' = s \<and> isl r) \<or> (\<exists>ttl. remaining_ttl_seconds now x = Some ttl \<and>
    s' = cc_set_ex api (session_key u ns (sess_id x)) (concat (fst (sj_write json (session_serialize x)))) ttl s \<and>
    length (concat (fst (sj_write json (session_serialize x)))) \<le> MAX_SERIALIZED_SESSION_BYTES)"
proof -
  obtain chunks ok where w: "sj_write json (session_serialize x) = (chunks, ok)" by force
  note vec = to_vec_bounded_eq [of "\<lambda>x. sj_write json (session_serialize x)" x, OF w]
  show ?thesis
    using assms
    by (cases link) (auto simp: redis_session_save_def set_json_bounded_def write_json_def cache_encode_json_bounded_def
        vec w store_value_def cache_call_def validate_ttl_seconds_def split: option.splits if_splits)
qed

lemma remaining_ttl_pos: "remaining_ttl_seconds now x = Some ttl \<Longrightarrow> 0 < ttl"
  by (auto simp: remaining_ttl_seconds_def split: if_splits)

lemma redis_session_load_eq:
  assumes "cache_documented api view elapse"
  shows "redis_session_load api u json ns link now i s =
    ((if link \<noteq> Answered then Inl (LoadFailed CacheRedis)
      else case bounded_value (session_reader u json) MAX_SERIALIZED_SESSION_BYTES (cv_live (view s) (session_key u ns i)) of
        Inl e \<Rightarrow> Inl (LoadFailed e) | Inr x \<Rightarrow> loaded_session now i x), s)"
  by (simp add: redis_session_load_def get_json_bounded_eq [OF assms] split: sum.splits)

lemma redis_session_delete_state:
  assumes "cache_documented api view elapse" "redis_session_delete api u ns link i s = (r, s')"
  shows "cv_live (view s') = (cv_live (view s))(session_key u ns i := None) \<or> s' = s \<and> isl r"
  using assms(2)
  by (cases link) (auto simp: redis_session_delete_def cache_delete_def cache_call_def cache_documentedD(7) [OF assms(1)]
      cv_live_del)

lemma redis_session_store:
  assumes doc: "cache_documented api view elapse" and u: "uuid_documented u"
  shows "session_store (redis_session_save api u json ns) (redis_session_load api u json ns) (redis_session_delete api u ns)
    elapse (redis_stored view u json ns) (\<lambda>x. session_ok u x \<and> session_json_documented json x)"
proof
  fix l now i s x s'
  assume "redis_session_load api u json ns l now i s = (Inr (Some x), s')"
  then show "redis_stored view u json ns s i = Some x \<and> \<not> is_expired now x"
    by (auto simp: redis_session_load_eq [OF doc] bounded_value_def loaded_session_def redis_stored_def
        split: if_splits option.splits sum.splits)
next
  fix l now i s j
  show "redis_stored view u json ns (snd (redis_session_load api u json ns l now i s)) j \<in> {None, redis_stored view u json ns s j}"
    by (simp add: redis_session_load_eq [OF doc])
next
  fix x l now s j
  assume ok: "session_ok u x \<and> session_json_documented json x"
  obtain r s' where s': "redis_session_save api u json ns l now x s = (r, s')" by force
  from redis_session_save_state [OF s'] consider "s' = s" | ttl where "remaining_ttl_seconds now x = Some ttl"
      "s' = cc_set_ex api (session_key u ns (sess_id x)) (concat (fst (sj_write json (session_serialize x)))) ttl s"
    by auto
  then show "redis_stored view u json ns (snd (redis_session_save api u json ns l now x s)) j \<in>
      {None, redis_stored view u json ns s j} \<union> (if j = sess_id x then {Some x} else {})"
  proof cases
    case 1
    with s' show ?thesis by simp
  next
    case (2 ttl)
    with s' show ?thesis
      by (simp add: redis_stored_def cache_documentedD(4) [OF doc] cv_live_set [OF remaining_ttl_pos] session_key_inj [OF u]
          session_reader_written [OF u conjunct2 [OF ok] conjunct1 [OF ok]])
  qed
next
  fix l i s j
  obtain r s' where s': "redis_session_delete api u ns l i s = (r, s')" by force
  show "redis_stored view u json ns (snd (redis_session_delete api u ns l i s)) j \<in> {None, redis_stored view u json ns s j}"
    using redis_session_delete_state [OF doc s'] s' by (auto simp: redis_stored_def)
next
  fix l i s
  obtain r s' where s': "redis_session_delete api u ns l i s = (r, s')" by force
  assume "\<not> isl (fst (redis_session_delete api u ns l i s))"
  with redis_session_delete_state [OF doc s'] s'
  show "redis_stored view u json ns (snd (redis_session_delete api u ns l i s)) i = None" by (auto simp: redis_stored_def)
next
  fix t s j
  show "redis_stored view u json ns (elapse t s) j \<in> {None, redis_stored view u json ns s j}"
    using cv_live_elapse [of "view s" t "session_key u ns j"]
    by (auto simp: redis_stored_def cache_documentedD(8) [OF doc])
qed

section \<open>Cookie texts\<close>

lemma cookie_name_char_plain: "cookie_name_char c \<Longrightarrow> plain_char c \<and> c \<noteq> CHR '';'' \<and> c \<noteq> CHR ''=''"
  by (auto simp: cookie_name_char_def plain_char_def ws1_def char_class_defs)

lemma uuid_char_plain: "is_ascii_hexdigit c \<or> c = CHR ''-'' \<Longrightarrow> plain_char c \<and> c \<noteq> CHR '';'' \<and> in_codes 32 126 c"
  by (auto simp: plain_char_def ws1_def char_class_defs)

lemma trim_space_plain: "list_all plain_char s \<Longrightarrow> trim (CHR '' '' # s) = s"
proof -
  assume s: "list_all plain_char s"
  have "ws_front (CHR '' '' # s) = 1"
    by (cases s rule: ws_front.cases) (simp_all add: ws1_def ws2_def ws3_def in_codes_def)
  then have "trim_start (CHR '' '' # s) = trim_start s" by (simp add: trim_start.simps [of "CHR '' '' # s"] Let_def)
  then show ?thesis using trim_plain [OF s] by (simp add: trim_def)
qed

text \<open>The parts of a \<open>Cookie\<close> field, which a browser joins with a semicolon and a space.\<close>

lemma join_with_spaced:
  "join_with ''; '' (p # ps) = join_with '';'' (p # map ((#) (CHR '' '')) ps)"
proof (induction ps arbitrary: p)
  case (Cons a ps)
  have "join_with '';'' ((CHR '' '' # a) # qs) = CHR '' '' # join_with '';'' (a # qs)" for qs by (cases qs) simp_all
  with Cons show ?case by simp
qed simp

lemma split_cookie_parts:
  assumes "\<forall>x\<in>set (p # ps). CHR '';'' \<notin> set x"
  shows "split_on (CHR '';'') (join_with ''; '' (p # ps)) = p # map ((#) (CHR '' '')) ps"
  unfolding join_with_spaced using assms by (intro split_on_join) auto

definition cookie_pair :: "string \<times> string \<Rightarrow> string" where
  "cookie_pair kv = fst kv @ ''='' @ snd kv"

definition cookie_pair_ok :: "string \<times> string \<Rightarrow> bool" where
  "cookie_pair_ok kv \<longleftrightarrow> list_all cookie_name_char (fst kv) \<and> list_all (\<lambda>c. plain_char c \<and> c \<noteq> CHR '';'') (snd kv)"

lemma cookie_pair_plain:
  assumes "cookie_pair_ok kv"
  shows "list_all plain_char (cookie_pair kv)" "CHR '';'' \<notin> set (cookie_pair kv)"
    "split_once (CHR ''='') (cookie_pair kv) = Some kv"
proof -
  have key: "\<forall>c\<in>set (fst kv). plain_char c \<and> c \<noteq> CHR '';'' \<and> c \<noteq> CHR ''=''"
    and val: "\<forall>c\<in>set (snd kv). plain_char c \<and> c \<noteq> CHR '';''"
    using assms cookie_name_char_plain unfolding cookie_pair_ok_def list_all_iff by blast+
  have "plain_char (CHR ''='')" by (simp add: plain_char_def ws1_def in_codes_def)
  with key val show "list_all plain_char (cookie_pair kv)" by (auto simp: cookie_pair_def list_all_iff)
  from key val show "CHR '';'' \<notin> set (cookie_pair kv)" by (auto simp: cookie_pair_def)
  from key show "split_once (CHR ''='') (cookie_pair kv) = Some kv"
    by (cases kv) (auto simp: cookie_pair_def split_once_Some)
qed

lemma cookie_values_pairs:
  assumes "\<forall>kv\<in>set kvs. cookie_pair_ok kv" "kvs \<noteq> []"
  shows "cookie_values name (join_with ''; '' (map cookie_pair kvs)) = map snd (filter (\<lambda>kv. fst kv = name) kvs)"
proof -
  obtain kv rest where kvs: "kvs = kv # rest" using assms(2) by (cases kvs) auto
  have parts: "split_on (CHR '';'') (join_with ''; '' (map cookie_pair kvs)) =
      cookie_pair kv # map ((#) (CHR '' '')) (map cookie_pair rest)"
    unfolding kvs list.map using assms(1) cookie_pair_plain(2) by (intro split_cookie_parts) (auto simp: kvs)
  have pair: "split_once (CHR ''='') (trim (cookie_pair kv)) = Some kv"
    "split_once (CHR ''='') (trim (CHR '' '' # cookie_pair kv)) = Some kv" if "cookie_pair_ok kv" for kv
    using cookie_pair_plain [OF that] by (simp_all add: trim_plain trim_space_plain)
  have "concat (map (\<lambda>part. case split_once (CHR ''='') (trim part) of
      None \<Rightarrow> [] | Some (key, v) \<Rightarrow> if key = name then [v] else []) (map ((#) (CHR '' '')) (map cookie_pair rest))) =
      map snd (filter (\<lambda>kv. fst kv = name) rest)" if "\<forall>kv\<in>set rest. cookie_pair_ok kv" for rest
    using that by (induction rest) (auto simp: pair split: prod.splits)
  with assms(1) show ?thesis unfolding cookie_values_def parts by (auto simp: kvs pair split: prod.splits)
qed

text \<open>Both cookies are visible ASCII text.\<close>

lemma show_nat_visible: "c \<in> set (show_nat n) \<Longrightarrow> in_codes 32 126 c"
  using show_nat_digits [of c n] by (auto simp: char_class_defs)

lemma cookie_texts_visible:
  assumes "valid_cookie_name (ck_name config)" "uuid_documented u"
  shows "list_all (in_codes 32 126) (set_cookie u config i)" "list_all (in_codes 32 126) (clear_cookie config)"
proof -
  have name: "list_all (in_codes 32 126) (ck_name config)"
    using assms(1) by (auto simp: valid_cookie_name_def list_all_iff cookie_name_char_def char_class_defs)
  have i: "list_all (in_codes 32 126) (session_id_text u i)"
    using assms(2) uuid_char_plain unfolding uuid_documented_def session_id_text_def list_all_iff by blast
  have attrs: "list_all (in_codes 32 126) (cookie_attributes config)"
    by (cases "ck_same_site config") (simp_all add: cookie_attributes_def same_site_as_str_def in_codes_def)
  show "list_all (in_codes 32 126) (set_cookie u config i)"
    using name i attrs show_nat_visible by (auto simp: set_cookie_def list_all_iff in_codes_def)
  show "list_all (in_codes 32 126) (clear_cookie config)"
    using name attrs by (simp add: clear_cookie_def in_codes_def)
qed

section \<open>Samples\<close>

definition sample_uuid :: uuid_api where
  "sample_uuid = \<lparr>uuid_to_string = (\<lambda>w. map digit_char (base_digits 16 32 (unat w)) @ ''----''),
     uuid_parse_str = (\<lambda>s. Some (of_nat (be_value 16 (map (\<lambda>c. the (digit_of 16 c)) (take 32 s))))),
     uuid_is_rfc4122 = (\<lambda>_. True), uuid_version_num = (\<lambda>_. 4)\<rparr>"

lemma sample_uuid_documented: "uuid_documented sample_uuid"
proof -
  have parse: "uuid_parse_str sample_uuid (uuid_to_string sample_uuid w) = Some w" for w
  proof -
    let ?n = "base_digits 16 32 (unat w)"
    have "map (\<lambda>c. the (digit_of 16 c)) (map digit_char ?n) = ?n"
      using base_digits_less [of 16 _ 32] by (simp add: map_idI digit_of_digit_char)
    moreover have "be_value 16 ?n = unat w"
      using unsigned_less [of w, where ?'a = nat] by (intro be_value_base_digits) simp
    ultimately show ?thesis by (simp add: sample_uuid_def)
  qed
  have "list_all (\<lambda>c. is_ascii_hexdigit c \<or> c = CHR ''-'') (uuid_to_string sample_uuid w)" for w
  proof -
    have "is_ascii_hexdigit (digit_char n)" if "n < 16" for n
      using that by (auto simp: digit_char_def char_class_defs)
    with base_digits_less [of 16 _ 32 "unat w"] show ?thesis by (auto simp: sample_uuid_def list_all_iff)
  qed
  with parse show ?thesis by (simp add: uuid_documented_def) (simp add: sample_uuid_def)
qed

definition sample_cookie :: session_cookie_config where
  "sample_cookie = \<lparr>ck_name = ''sid'', ck_ttl_seconds = 60, ck_secure = True, ck_same_site = SameSiteLax\<rparr>"

definition sample_new :: new_session where
  "sample_new = \<lparr>ns_id = 1, ns_token = 2, ns_now = 100, ns_store_now = 100\<rparr>"

definition sample_session :: session where
  "sample_session = fresh_session sample_uuid sample_cookie sample_new sample_principal"

definition sample_json :: session_json where
  "sample_json = \<lparr>sj_write = (\<lambda>_. ([''{}''], True)), sj_read = (\<lambda>_. Some (session_serialize sample_session))\<rparr>"

lemma sample_session_ok:
  "session_ok sample_uuid sample_session" "session_json_documented sample_json sample_session"
proof -
  have "principal_wf sample_principal"
    by (simp add: sample_principal_def principal_wf_def identifier_ok_def values_ok_def is_blank_def trim_eval)
  then show "session_ok sample_uuid sample_session"
    by (auto simp: session_ok_def sample_session_def fresh_session_def session_new_def session_id_from_uuid_def sample_uuid_def)
qed (simp add: session_json_documented_def sample_json_def)

section \<open>Properties\<close>

text \<open>C6. Identity comes only from a session that was established and not revoked.  Starting from a server without
  sessions, after any sequence of establishing, rotating, invalidating, restoring and passing time, with any calls unanswered
  or their replies lost, a request is handed to the application either without change, or refused with
  503, or with the principal and token of a session that an earlier operation established, under the identifier in the
  cookie, not expired, and with no later rotation or invalidation of that identifier that returned successfully.\<close>

theorem session_identity_provenance:
  assumes doc: "cache_documented api view elapse" "uuid_documented u"
    and ok: "list_all (\<lambda>e. \<forall>x. event_session u config e = Some x \<longrightarrow>
      session_ok u x \<and> session_json_documented json x) events"
    and empty: "\<And>i. cv_live (view s0) (session_key u namespace i) = None"
    and log: "session_log u (redis_session_save api u json namespace) (redis_session_load api u json namespace)
      (redis_session_delete api u namespace) elapse config events s0 = (log, s)"
    and call: "session_call d u (redis_session_load api u json namespace) config inner link now later req s = (r, s')"
  shows "r = inner req \<or> r = session_store_response d \<or>
    (\<exists>x log1 e ok log2. log = log1 @ (e, ok) # log2 \<and> event_session u config e = Some x \<and>
       (\<forall>e' ok'. (e', ok') \<in> set log2 \<longrightarrow> \<not> (ok' \<and> revokes e' (sess_id x))) \<and>
       request_session_id d u (req_headers req) (ck_name config) = Some (sess_id x) \<and>
       \<not> is_expired now x \<and> \<not> is_expired later x \<and> r = inner (with_session x req))"
  by (rule session_store.identity_provenance [OF redis_session_store [OF doc, of json namespace] ok _ log call])
    (simp add: redis_stored_def empty)

lemma session_identity_provenance_witness:
  "\<exists>log s r s'. session_log sample_uuid (redis_session_save view_cache sample_uuid sample_json ''s'')
      (redis_session_load view_cache sample_uuid sample_json ''s'') (redis_session_delete view_cache sample_uuid ''s'')
      elapse_cache sample_cookie [Establish Answered sample_new sample_principal, Pass 5, Invalidate NotSent (SessionId 1)]
      empty_cache = (log, s) \<and>
    session_call sample_deps sample_uuid (redis_session_load view_cache sample_uuid sample_json ''s'') sample_cookie
      (\<lambda>_. string_into_response ''ok'') Answered 110 110 (sample_request ''GET'' ''/'') s = (r, s') \<and>
    (r = string_into_response ''ok'' \<or> r = session_store_response sample_deps)"
proof -
  let ?es = "[Establish Answered sample_new sample_principal, Pass 5, Invalidate NotSent (SessionId 1)]"
  obtain log s where log: "session_log sample_uuid (redis_session_save view_cache sample_uuid sample_json ''s'')
      (redis_session_load view_cache sample_uuid sample_json ''s'') (redis_session_delete view_cache sample_uuid ''s'')
      elapse_cache sample_cookie ?es empty_cache = (log, s)" by (rule prod.exhaust)
  obtain r s' where call: "session_call sample_deps sample_uuid (redis_session_load view_cache sample_uuid sample_json ''s'')
      sample_cookie (\<lambda>_. string_into_response ''ok'') Answered 110 110 (sample_request ''GET'' ''/'') s = (r, s')"
    by (rule prod.exhaust)
  have ok: "list_all (\<lambda>e. \<forall>x. event_session sample_uuid sample_cookie e = Some x \<longrightarrow>
      session_ok sample_uuid x \<and> session_json_documented sample_json x) ?es"
    using sample_session_ok by (simp add: sample_session_def)
  have empty: "cv_live empty_cache k = None" for k by (simp add: empty_cache_def cv_live_def)
  from session_identity_provenance [OF view_cache_documented sample_uuid_documented ok empty log call] log call
  show ?thesis by blast
qed

text \<open>C12. A session-authenticated request that may change state needs the session token.  With the session layer around
  the CSRF layer, for any store, a request with an unsafe method reaches the application with the identity of a session only
  if it carries exactly one \<open>X-CSRF-Token\<close> and that is the token of the session.  Otherwise it reaches the application
  without an identity, because no valid session was found, or it is answered with 403 or 503 whatever the application does.\<close>

theorem csrf_guards_sessions:
  assumes "\<not> is_safe_method (req_method req)" "ext_session (req_extensions req) = None"
    and stack: "stack = (\<lambda>inner. fst (session_call d u load config (csrf_call d inner) l now later req s))"
  shows "(\<forall>inner. stack inner = inner req) \<or>
    (\<exists>x token. request_session_id d u (req_headers req) (ck_name config) = Some (sess_id x) \<and>
       fst (load l now (sess_id x) s) = Inr (Some x) \<and> \<not> is_expired later x \<and>
       req_headers req ''x-csrf-token'' = [token] \<and> header_to_str d token = Some (sess_csrf_token x) \<and>
       (\<forall>inner. stack inner = inner (with_session x req))) \<or>
    (\<exists>refused. resp_status refused \<in> {403, 503} \<and> (\<forall>inner. stack inner = refused))"
proof (cases "request_session_id d u (req_headers req) (ck_name config)")
  case None
  then show ?thesis using assms by (simp add: session_call_def csrf_call_def)
next
  case (Some i)
  obtain f t where f: "load l now i s = (f, t)" by force
  show ?thesis
  proof (cases "\<exists>x. f = Inr (Some x) \<and> sess_id x = i \<and> \<not> is_expired later x")
    case True
    then obtain x where x: "f = Inr (Some x)" "sess_id x = i" "\<not> is_expired later x" by blast
    have call: "stack inner = csrf_call d inner (with_session x req)" for inner
      using Some f x stack by (simp add: session_call_def)
    show ?thesis
    proof (cases "csrf_header_value d (req_headers req) = Some (sess_csrf_token x)")
      case valid: True
      then obtain token where "req_headers req ''x-csrf-token'' = [token]" "header_to_str d token = Some (sess_csrf_token x)"
        by (auto simp: csrf_header_value_def split: list.splits option.splits if_splits)
      moreover have "stack inner = inner (with_session x req)" for inner
        using valid by (simp add: call csrf_call_def with_session_def constant_time_eq_iff)
      ultimately show ?thesis using Some f x by auto
    next
      case False
      then have "stack inner = error_into_response d (error_new 403 ''csrf_rejected'' ''CSRF validation failed'')" for inner
        using assms(1) by (auto simp: call csrf_call_def with_session_def constant_time_eq_iff split: option.splits)
      then show ?thesis by auto
    qed
  next
    case False
    then show ?thesis
      using assms Some f
      by (cases f) (auto simp: session_call_def csrf_call_def session_store_response_def split: option.splits if_splits)
  qed
qed

definition posting_request :: request where
  "posting_request = (sample_request ''POST'' ''/'')\<lparr>req_headers := no_headers(''cookie'' := [''a=b''])\<rparr>"

lemma csrf_guards_sessions_witness:
  "fst (session_call sample_deps sample_uuid memory_load sample_cookie
      (csrf_call sample_deps (\<lambda>_. string_into_response ''ok'')) () 0 0 posting_request
      \<lparr>mem_sessions = (\<lambda>_. None), mem_poisoned = False\<rparr>) = string_into_response ''ok'' \<or>
   resp_status (fst (session_call sample_deps sample_uuid memory_load sample_cookie
      (csrf_call sample_deps (\<lambda>_. string_into_response ''ok'')) () 0 0 posting_request
      \<lparr>mem_sessions = (\<lambda>_. None), mem_poisoned = False\<rparr>)) \<in> {403, 503}"
proof -
  have "\<not> is_safe_method (req_method posting_request)" "ext_session (req_extensions posting_request) = None"
    by (simp_all add: posting_request_def sample_request_def is_safe_method_def no_extensions_def)
  from csrf_guards_sessions [OF this refl, where d = sample_deps and u = sample_uuid and load = memory_load
      and config = sample_cookie and l = "()" and now = 0 and later = 0
      and s = "\<lparr>mem_sessions = (\<lambda>_. None), mem_poisoned = False\<rparr>"]
  show ?thesis by auto
qed

text \<open>C20. A session lives in Redis exactly as long as it should.  After a session was established successfully, loading its
  identifier gives the same session, principal, token and expiry included, as long as neither the expiry of the
  session nor the lifetime of the stored value has passed, and nothing afterwards.\<close>

theorem established_session_kept:
  assumes doc: "cache_documented api view elapse" "uuid_documented u"
      "session_json_documented json (fresh_session u config n p)"
    and ok: "session_ok u (fresh_session u config n p)"
    and est: "establish u (redis_session_save api u json namespace) config Answered n p s = (Inr issued, s')"
  shows "fst (redis_session_load api u json namespace Answered now (SessionId (ns_id n)) (elapse t s')) =
    Inr (if t < 1000 * (sess_expires (fresh_session u config n p) - ns_store_now n) \<and>
            now < sess_expires (fresh_session u config n p)
         then Some (fresh_session u config n p) else None) \<and>
    is_csrf_token issued = sess_csrf_token (fresh_session u config n p) \<and>
    is_set_cookie issued = set_cookie u config (SessionId (ns_id n))"
proof -
  let ?x = "fresh_session u config n p" and ?i = "SessionId (ns_id n)"
  let ?text = "concat (fst (sj_write json (session_serialize ?x)))"
  have i: "sess_id ?x = ?i" by (simp add: fresh_session_def session_new_def)
  have saved: "redis_session_save api u json namespace Answered (ns_store_now n) ?x s = (Inr (), s')"
    and issued: "is_csrf_token issued = sess_csrf_token ?x" "is_set_cookie issued = set_cookie u config ?i"
    using est by (auto simp: establish_def Let_def i split: prod.splits sum.splits)
  from redis_session_save_state [OF saved] obtain ttl where ttl: "remaining_ttl_seconds (ns_store_now n) ?x = Some ttl"
    "s' = cc_set_ex api (session_key u namespace ?i) ?text ttl s" "length ?text \<le> MAX_SERIALIZED_SESSION_BYTES"
    by (auto simp: i)
  have "ttl = sess_expires ?x - ns_store_now n" using ttl(1) by (auto simp: remaining_ttl_seconds_def split: if_splits)
  moreover have "cv_live (view (elapse t s')) (session_key u namespace ?i) = (if t < 1000 * ttl then Some ?text else None)"
    by (simp add: ttl(2) cache_documentedD(4,8) [OF doc(1)] cv_live_def cv_set_def)
  ultimately show ?thesis
    using ttl(3) issued session_reader_written [OF doc(2,3) ok]
    by (simp add: redis_session_load_eq [OF doc(1)] bounded_value_def loaded_session_def i is_expired_def)
qed

lemma established_session_kept_witness:
  "\<exists>issued s'. establish sample_uuid (redis_session_save view_cache sample_uuid sample_json ''s'') sample_cookie Answered
      sample_new sample_principal empty_cache = (Inr issued, s') \<and>
    fst (redis_session_load view_cache sample_uuid sample_json ''s'' Answered 120 (SessionId 1) (elapse_cache 20000 s')) =
      Inr (Some sample_session)"
proof -
  have x: "sess_expires sample_session = 160"
    by (simp add: sample_session_def fresh_session_def session_new_def sample_new_def sample_cookie_def saturating_add_def)
  have n: "ns_id sample_new = 1" "ns_store_now sample_new = 100" by (simp_all add: sample_new_def)
  have "fst (establish sample_uuid (redis_session_save view_cache sample_uuid sample_json ''s'') sample_cookie Answered
      sample_new sample_principal empty_cache) = Inr \<lparr>is_csrf_token = sess_csrf_token sample_session,
        is_set_cookie = set_cookie sample_uuid sample_cookie (sess_id sample_session)\<rparr>"
    using x n
    by (simp add: establish_def Let_def redis_session_save_def remaining_ttl_seconds_def set_json_bounded_def write_json_def
        store_value_def cache_call_def cache_encode_json_bounded_def validate_ttl_seconds_def sample_json_def
        to_vec_bounded_eq [where chunks = "[''{}'']" and ok = True] flip: sample_session_def)
  then obtain issued s' where est: "establish sample_uuid (redis_session_save view_cache sample_uuid sample_json ''s'')
      sample_cookie Answered sample_new sample_principal empty_cache = (Inr issued, s')" by (metis prod.collapse)
  note sample_session_ok [unfolded sample_session_def]
  from established_session_kept [OF view_cache_documented sample_uuid_documented this(2,1) est, where now = 120 and t = 20000]
    x n est show ?thesis by (simp flip: sample_session_def)
qed

text \<open>The cookie a browser sends back names the session it was issued for: a \<open>Cookie\<close> field with the pair of the issued
  cookie among any other cookies of other names gives the identifier of the session, and a field that repeats the name
  gives none.\<close>

theorem session_cookie_roundtrip:
  assumes u: "uuid_documented u" "session_id_from_uuid u i = Some session" and name: "valid_cookie_name (ck_name config)"
    and others: "\<forall>kv\<in>set (before @ after). cookie_pair_ok kv \<and> fst kv \<noteq> ck_name config"
    and pair: "pair = (ck_name config, session_id_text u session)"
    and header: "headers ''cookie'' = [field]" "header_to_str d field = Some (join_with ''; '' (map cookie_pair cookies))"
  shows "hd (split_on (CHR '';'') (set_cookie u config session)) = cookie_pair pair \<and>
    (cookies = before @ pair # after \<longrightarrow> request_session_id d u headers (ck_name config) = Some session) \<and>
    (cookies = before @ pair # pair # after \<longrightarrow> request_session_id d u headers (ck_name config) = None)"
proof -
  have session: "session = SessionId i" using u(2) by (simp add: session_id_from_uuid_def split: if_splits)
  have ok: "cookie_pair_ok pair"
    using name u(1) uuid_char_plain
    by (auto simp: pair cookie_pair_ok_def valid_cookie_name_def uuid_documented_def session_id_text_def list_all_iff)
  have parse: "session_id_parse u (session_id_text u session) = Some session"
    using u by (simp add: session_id_parse_def session_id_text_def session uuid_documented_def)
  have none: "filter (\<lambda>kv. fst kv = ck_name config) before = []" "filter (\<lambda>kv. fst kv = ck_name config) after = []"
    using others by (auto simp: filter_empty_conv)
  have "set_cookie u config session = cookie_pair pair @ CHR '';'' # '' Path=/; Max-Age='' @ show_nat (ck_ttl_seconds config) @
      cookie_attributes config" by (simp add: set_cookie_def cookie_pair_def pair)
  then have "hd (split_on (CHR '';'') (set_cookie u config session)) = cookie_pair pair"
    by (simp add: split_on_append_sep [OF cookie_pair_plain(2) [OF ok]])
  moreover have "cookie_values (ck_name config) (join_with ''; '' (map cookie_pair cookies)) =
      map snd (filter (\<lambda>kv. fst kv = ck_name config) cookies)" if "set cookies = set (before @ pair # after)"
    using that others ok by (intro cookie_values_pairs) auto
  ultimately show ?thesis
    using none header parse by (auto simp: request_session_id_def pair)
qed

lemma session_cookie_roundtrip_witness:
  "request_session_id sample_deps sample_uuid
     (no_headers(''cookie'' := [join_with ''; '' (map cookie_pair [(''a'', ''b''), (''sid'', session_id_text sample_uuid (SessionId 7))])]))
     ''sid'' = Some (SessionId 7)"
proof -
  have facts: "session_id_from_uuid sample_uuid 7 = Some (SessionId 7)" "valid_cookie_name (ck_name sample_cookie)"
    "\<forall>kv\<in>set ([(''a'', ''b'')] @ []). cookie_pair_ok kv \<and> fst kv \<noteq> ck_name sample_cookie"
    by (simp_all add: session_id_from_uuid_def sample_uuid_def sample_cookie_def valid_cookie_name_def cookie_name_char_def
        cookie_pair_ok_def plain_char_def ws1_def char_class_defs)
  let ?cookies = "[(''a'', ''b''), (''sid'', session_id_text sample_uuid (SessionId 7))]"
  have header: "(no_headers(''cookie'' := [join_with ''; '' (map cookie_pair ?cookies)])) ''cookie'' =
      [join_with ''; '' (map cookie_pair ?cookies)]"
    "header_to_str sample_deps (join_with ''; '' (map cookie_pair ?cookies)) = Some (join_with ''; '' (map cookie_pair ?cookies))"
    by (simp_all add: sample_deps_def)
  from session_cookie_roundtrip [where before = "[(''a'', ''b'')]" and after = "[]" and config = sample_cookie
      and headers = "no_headers(''cookie'' := [join_with ''; '' (map cookie_pair ?cookies)])" and cookies = ?cookies,
      OF sample_uuid_documented facts refl header]
  show ?thesis by (simp add: sample_cookie_def)
qed

end
