(* ===== verification/Jobs.thy ===== *)
theory Jobs
  imports Http "HOL-Library.List_Lexorder" "HOL-Library.Char_ord"
begin

text \<open>
  Durable background jobs (\<open>crates/rustee-jobs/src\<close>): the retry policy
  (\<open>delivery/retry.rs\<close>), the envelope with its codec, trace carrier and compatible decoding
  (\<open>envelope.rs\<close> and \<open>envelope/\<close>), the provider message and the client (\<open>publisher.rs\<close>), the typed
  dispatch (\<open>handler.rs\<close>) and the registry (\<open>registry.rs\<close>).

  A \<open>u16\<close> is a \<open>16 word\<close> and a UUID a \<open>128 word\<close>.  A handler is a function of the payload, the context
  and a world state it may change.  \<open>serde_json\<close> is the record \<open>job_json\<close>: the writer and the typed
  and untyped readers of one job type.
\<close>

section \<open>Retry policy\<close>

type_synonym u16 = "16 word"

record retry_policy =
  max_deliveries :: u16
  initial_backoff :: duration
  max_backoff :: duration

definition retry_policy_default :: retry_policy where
  "retry_policy_default =
     \<lparr>max_deliveries = 5, initial_backoff = from_secs 1, max_backoff = from_secs (5 * 60)\<rparr>"

datatype delivery_action =
    Acknowledge
  | Retry (retry_attempt: u16) (retry_delay: duration)
  | DeadLetter

definition retry_policy_is_valid :: "retry_policy \<Rightarrow> bool" where
  "retry_policy_is_valid p \<longleftrightarrow>
     max_deliveries p \<noteq> 0 \<and> initial_backoff p \<noteq> 0 \<and> initial_backoff p \<le> max_backoff p"

definition u16_saturating_sub :: "u16 \<Rightarrow> u16 \<Rightarrow> u16" where
  "u16_saturating_sub a b = (if a < b then 0 else a - b)"

definition u16_checked_add :: "u16 \<Rightarrow> u16 \<Rightarrow> u16 option" where
  "u16_checked_add a b = (if unat a + unat b < u16_bound then Some (a + b) else None)"

definition u16_saturating_add :: "u16 \<Rightarrow> u16 \<Rightarrow> u16" where
  "u16_saturating_add a b = (case u16_checked_add a b of Some c \<Rightarrow> c | None \<Rightarrow> - 1)"

definition after_failure :: "retry_policy \<Rightarrow> u16 \<Rightarrow> delivery_action" where
  "after_failure p attempt =
     (if \<not> retry_policy_is_valid p \<or> attempt = 0 \<or> attempt \<ge> max_deliveries p then DeadLetter
      else
        let exponent = unat (u16_saturating_sub attempt 1);
            multiplier = saturating_pow u32_bound 2 exponent;
            delay = min (duration_saturating_mul (initial_backoff p) multiplier) (max_backoff p) in
        Retry (u16_saturating_add attempt 1) delay)"

section \<open>Trace carrier\<close>

abbreviation MAX_TRACEPARENT_LEN :: nat where "MAX_TRACEPARENT_LEN \<equiv> 512"
abbreviation MAX_TRACESTATE_LEN :: nat where "MAX_TRACESTATE_LEN \<equiv> 512"

datatype envelope_error =
    EnvSerialize
  | EnvDeserialize
  | EnvTooLarge
  | EnvInvalidJobName
  | EnvUnexpectedJobName string string
  | EnvUnsupportedVersion u16 u16
  | EnvInvalidAttempt
  | EnvAttemptOverflow
  | EnvBlankIdempotencyKey
  | EnvIdempotencyKeyTooLarge
  | EnvInvalidTraceContext

record trace_context =
  traceparent :: string
  tracestate :: "string option"

record serialized_trace_context =
  ser_traceparent :: string
  ser_tracestate :: "string option"

definition is_ascii :: "string \<Rightarrow> bool" where
  "is_ascii s = list_all (\<lambda>c. code_of c < 128) s"

definition trace_validate :: "trace_context \<Rightarrow> (envelope_error, unit) result" where
  "trace_validate t =
     (if trim (traceparent t) = [] \<or> \<not> is_ascii (traceparent t) \<or> length (traceparent t) > MAX_TRACEPARENT_LEN \<or>
         (case tracestate t of None \<Rightarrow> False
          | Some v \<Rightarrow> trim v = [] \<or> \<not> is_ascii v \<or> length v > MAX_TRACESTATE_LEN)
      then Inl EnvInvalidTraceContext else Inr ())"

definition trace_new :: "string \<Rightarrow> string option \<Rightarrow> (envelope_error, trace_context) result" where
  "trace_new parent state =
     (let context = \<lparr>traceparent = parent, tracestate = state\<rparr> in
      bind_result (trace_validate context) (\<lambda>_. Inr context))"

definition trace_from_serialized :: "serialized_trace_context \<Rightarrow> (envelope_error, trace_context) result" where
  "trace_from_serialized s = trace_new (ser_traceparent s) (ser_tracestate s)"

section \<open>Envelope\<close>

abbreviation MAX_JOB_ENVELOPE_BYTES :: nat where "MAX_JOB_ENVELOPE_BYTES \<equiv> 1024 * 1024"
abbreviation MAX_JOB_NAME_BYTES :: nat where "MAX_JOB_NAME_BYTES \<equiv> 255"
abbreviation MAX_JOB_IDEMPOTENCY_KEY_BYTES :: nat where "MAX_JOB_IDEMPOTENCY_KEY_BYTES \<equiv> 255"

text \<open>The constants of the trait \<open>Job\<close>; the payload type is the type variable \<open>'j\<close>.\<close>

record job_type =
  job_NAME :: string
  job_VERSION :: u16

type_synonym job_id = "128 word"

record 'j job_envelope =
  env_id :: job_id
  env_name :: string
  env_version :: u16
  env_payload :: 'j
  env_idempotency_key :: "string option"
  env_enqueued_at_unix_ms :: nat
  env_attempt :: u16
  env_trace_context :: "trace_context option"

text \<open>\<open>SerializedJobEnvelope\<close>; \<open>RawJobEnvelope\<close> has the same fields with an untyped JSON payload.\<close>

record 'p serialized_job_envelope =
  ser_id :: job_id
  ser_name :: string
  ser_version :: u16
  ser_payload :: 'p
  ser_idempotency_key :: "string option"
  ser_enqueued_at_unix_ms :: nat
  ser_attempt :: u16
  ser_trace_context :: "serialized_trace_context option"

record ('j, 'v) job_json =
  write_envelope :: "'j job_envelope \<Rightarrow> bytes list \<times> bool"
  read_envelope :: "bytes \<Rightarrow> 'j serialized_job_envelope option"
  read_raw :: "bytes \<Rightarrow> 'v serialized_job_envelope option"
  from_value :: "'v \<Rightarrow> 'j option"

definition is_valid_job_name :: "string \<Rightarrow> bool" where
  "is_valid_job_name name \<longleftrightarrow>
     name \<noteq> [] \<and> length name \<le> MAX_JOB_NAME_BYTES \<and> CHR 0x00 \<notin> set name \<and> \<not> has_whitespace name"

definition validate_optional_bounded_identifier ::
  "string option \<Rightarrow> envelope_error \<Rightarrow> envelope_error \<Rightarrow> (envelope_error, unit) result" where
  "validate_optional_bounded_identifier v blank_error too_large_error =
     (case v of None \<Rightarrow> Inr ()
      | Some key \<Rightarrow>
          if trim key = [] then Inl blank_error
          else if length key > MAX_JOB_IDEMPOTENCY_KEY_BYTES then Inl too_large_error
          else Inr ())"

definition validate_metadata ::
  "job_type \<Rightarrow> string \<Rightarrow> string option \<Rightarrow> u16 \<Rightarrow> trace_context option \<Rightarrow> (envelope_error, unit) result" where
  "validate_metadata j name idempotency_key attempt trace =
     (if \<not> is_valid_job_name (job_NAME j) \<or> \<not> is_valid_job_name name then Inl EnvInvalidJobName
      else if name \<noteq> job_NAME j then Inl (EnvUnexpectedJobName (job_NAME j) name)
      else if attempt = 0 then Inl EnvInvalidAttempt
      else
        bind_result (validate_optional_bounded_identifier idempotency_key EnvBlankIdempotencyKey
            EnvIdempotencyKeyTooLarge) (\<lambda>_.
        (case trace of None \<Rightarrow> Inr () | Some t \<Rightarrow> trace_validate t)))"

definition envelope_validate :: "job_type \<Rightarrow> 'j job_envelope \<Rightarrow> (envelope_error, unit) result" where
  "envelope_validate j e =
     bind_result (validate_metadata j (env_name e) (env_idempotency_key e) (env_attempt e) (env_trace_context e)) (\<lambda>_.
     if env_version e \<noteq> job_VERSION j then Inl (EnvUnsupportedVersion (job_VERSION j) (env_version e)) else Inr ())"

definition transpose_trace ::
  "serialized_trace_context option \<Rightarrow> (envelope_error, trace_context option) result" where
  "transpose_trace t =
     (case t of None \<Rightarrow> Inr None | Some s \<Rightarrow> bind_result (trace_from_serialized s) (\<lambda>c. Inr (Some c)))"

definition envelope_from_serialized ::
  "job_type \<Rightarrow> 'j serialized_job_envelope \<Rightarrow> (envelope_error, 'j job_envelope) result" where
  "envelope_from_serialized j s =
     bind_result (transpose_trace (ser_trace_context s)) (\<lambda>trace.
     let envelope = \<lparr>env_id = ser_id s, env_name = ser_name s, env_version = ser_version s,
           env_payload = ser_payload s, env_idempotency_key = ser_idempotency_key s,
           env_enqueued_at_unix_ms = ser_enqueued_at_unix_ms s, env_attempt = ser_attempt s,
           env_trace_context = trace\<rparr> in
     bind_result (envelope_validate j envelope) (\<lambda>_. Inr envelope))"

definition envelope_with_metadata :: "job_type \<Rightarrow> job_id \<Rightarrow> 'j \<Rightarrow> nat \<Rightarrow> 'j job_envelope" where
  "envelope_with_metadata j i payload enqueued_at =
     \<lparr>env_id = i, env_name = job_NAME j, env_version = job_VERSION j, env_payload = payload,
      env_idempotency_key = None, env_enqueued_at_unix_ms = enqueued_at, env_attempt = 1,
      env_trace_context = None\<rparr>"

definition unix_time_ms :: "system_time \<Rightarrow> nat" where
  "unix_time_ms now = (let ms = nat now div nanos_per_milli in if ms < u64_bound then ms else u64_bound - 1)"

text \<open>\<open>JobEnvelope::new\<close> with the random identifier and the clock it reads.\<close>

definition envelope_new :: "job_type \<Rightarrow> job_id \<Rightarrow> system_time \<Rightarrow> 'j \<Rightarrow> 'j job_envelope" where
  "envelope_new j i now payload = envelope_with_metadata j i payload (unix_time_ms now)"

definition with_idempotency_key :: "string \<Rightarrow> 'j job_envelope \<Rightarrow> (envelope_error, 'j job_envelope) result" where
  "with_idempotency_key key e =
     bind_result (validate_optional_bounded_identifier (Some key) EnvBlankIdempotencyKey EnvIdempotencyKeyTooLarge)
       (\<lambda>_. Inr (e\<lparr>env_idempotency_key := Some key\<rparr>))"

definition with_trace_context :: "trace_context \<Rightarrow> 'j job_envelope \<Rightarrow> 'j job_envelope" where
  "with_trace_context t e = e\<lparr>env_trace_context := Some t\<rparr>"

definition codec_encode :: "('v \<Rightarrow> bytes list \<times> bool) \<Rightarrow> 'v \<Rightarrow> (envelope_error, bytes) result" where
  "codec_encode writer v =
     (case to_vec_bounded writer v MAX_JOB_ENVELOPE_BYTES of
        Inr encoded \<Rightarrow> Inr encoded
      | Inl TooLarge \<Rightarrow> Inl EnvTooLarge
      | Inl Serialize \<Rightarrow> Inl EnvSerialize)"

definition validate_envelope_bytes :: "bytes \<Rightarrow> (envelope_error, unit) result" where
  "validate_envelope_bytes b = (if length b > MAX_JOB_ENVELOPE_BYTES then Inl EnvTooLarge else Inr ())"

definition envelope_encode ::
  "('j, 'v) job_json \<Rightarrow> job_type \<Rightarrow> 'j job_envelope \<Rightarrow> (envelope_error, bytes) result" where
  "envelope_encode json j e =
     bind_result (envelope_validate j e) (\<lambda>_. codec_encode (write_envelope json) e)"

definition envelope_decode ::
  "('j, 'v) job_json \<Rightarrow> job_type \<Rightarrow> bytes \<Rightarrow> (envelope_error, 'j job_envelope) result" where
  "envelope_decode json j b =
     bind_result (validate_envelope_bytes b) (\<lambda>_.
     case read_envelope json b of None \<Rightarrow> Inl EnvDeserialize
     | Some serialized \<Rightarrow> envelope_from_serialized j serialized)"

definition envelope_next_attempt :: "'j job_envelope \<Rightarrow> (envelope_error, 'j job_envelope) result" where
  "envelope_next_attempt e =
     (case u16_checked_add (env_attempt e) 1 of None \<Rightarrow> Inl EnvAttemptOverflow
      | Some n \<Rightarrow> Inr (e\<lparr>env_attempt := n\<rparr>))"

definition with_attempt :: "u16 \<Rightarrow> 'j job_envelope \<Rightarrow> (envelope_error, 'j job_envelope) result" where
  "with_attempt attempt e =
     (if attempt = 0 then Inl EnvInvalidAttempt else Inr (e\<lparr>env_attempt := attempt\<rparr>))"

section \<open>Compatible decoding\<close>

datatype 'e compatible_decode_error = CompatEnvelope envelope_error | CompatPayload | CompatUpcaster 'e

definition map_error :: "('e \<Rightarrow> 'f) \<Rightarrow> ('e, 'a) result \<Rightarrow> ('f, 'a) result" where
  "map_error f r = (case r of Inl e \<Rightarrow> Inl (f e) | Inr x \<Rightarrow> Inr x)"

definition decode_compatible ::
  "('j, 'v) job_json \<Rightarrow> job_type \<Rightarrow> (u16 \<Rightarrow> 'v \<Rightarrow> ('e, 'j) result) \<Rightarrow> bytes \<Rightarrow>
   ('e compatible_decode_error, 'j job_envelope) result" where
  "decode_compatible json j upcast b =
     bind_result (map_error CompatEnvelope (validate_envelope_bytes b)) (\<lambda>_.
     bind_result (case read_raw json b of None \<Rightarrow> Inl (CompatEnvelope EnvDeserialize) | Some raw \<Rightarrow> Inr raw) (\<lambda>raw.
     bind_result (map_error CompatEnvelope (transpose_trace (ser_trace_context raw))) (\<lambda>trace.
     bind_result (map_error CompatEnvelope
       (validate_metadata j (ser_name raw) (ser_idempotency_key raw) (ser_attempt raw) trace)) (\<lambda>_.
     if ser_version raw > job_VERSION j
     then Inl (CompatEnvelope (EnvUnsupportedVersion (job_VERSION j) (ser_version raw)))
     else
       bind_result
         (if ser_version raw = job_VERSION j
          then (case from_value json (ser_payload raw) of None \<Rightarrow> Inl CompatPayload | Some p \<Rightarrow> Inr p)
          else map_error CompatUpcaster (upcast (ser_version raw) (ser_payload raw))) (\<lambda>payload.
       Inr \<lparr>env_id = ser_id raw, env_name = ser_name raw, env_version = job_VERSION j,
         env_payload = payload, env_idempotency_key = ser_idempotency_key raw,
         env_enqueued_at_unix_ms = ser_enqueued_at_unix_ms raw, env_attempt = ser_attempt raw,
         env_trace_context = trace\<rparr>)))))"

section \<open>Provider message and client\<close>

record job_message =
  msg_id :: job_id
  msg_name :: string
  msg_version :: u16
  msg_attempt :: u16
  msg_payload :: bytes

datatype job_message_error =
  MsgBlankName | MsgInvalidName | MsgInvalidAttempt | MsgEmptyPayload | MsgPayloadTooLarge

definition message_from_parts ::
  "job_id \<Rightarrow> string \<Rightarrow> u16 \<Rightarrow> u16 \<Rightarrow> bytes \<Rightarrow> (job_message_error, job_message) result" where
  "message_from_parts i name version attempt payload =
     (if trim name = [] then Inl MsgBlankName
      else if \<not> is_valid_job_name name then Inl MsgInvalidName
      else if attempt = 0 then Inl MsgInvalidAttempt
      else if payload = [] then Inl MsgEmptyPayload
      else if length payload > MAX_JOB_ENVELOPE_BYTES then Inl MsgPayloadTooLarge
      else Inr \<lparr>msg_id = i, msg_name = name, msg_version = version, msg_attempt = attempt, msg_payload = payload\<rparr>)"

definition envelope_message ::
  "('j, 'v) job_json \<Rightarrow> job_type \<Rightarrow> 'j job_envelope \<Rightarrow> (envelope_error, job_message) result" where
  "envelope_message json j e =
     bind_result (envelope_encode json j e) (\<lambda>payload.
     Inr \<lparr>msg_id = env_id e, msg_name = env_name e, msg_version = env_version e,
       msg_attempt = env_attempt e, msg_payload = payload\<rparr>)"

datatype 'e enqueue_error = EnqueueEnvelope envelope_error | EnqueueProvider 'e

definition enqueue ::
  "(job_message \<Rightarrow> 's \<Rightarrow> ('e, unit) result \<times> 's) \<Rightarrow> ('j, 'v) job_json \<Rightarrow> job_type \<Rightarrow> 'j job_envelope \<Rightarrow> 's \<Rightarrow>
   ('e enqueue_error, unit) result \<times> 's" where
  "enqueue publish json j e s =
     (case envelope_message json j e of
        Inl err \<Rightarrow> (Inl (EnqueueEnvelope err), s)
      | Inr message \<Rightarrow> (case publish message s of (r, s') \<Rightarrow> (map_error EnqueueProvider r, s')))"

section \<open>Typed dispatch\<close>

record job_context =
  ctx_id :: job_id
  ctx_name :: string
  ctx_version :: u16
  ctx_idempotency_key :: "string option"
  ctx_attempt :: u16
  ctx_trace_context :: "trace_context option"

type_synonym ('j, 'e, 's) job_handler = "'j \<Rightarrow> job_context \<Rightarrow> 's \<Rightarrow> ('e, unit) result \<times> 's"

definition context_from_envelope :: "'j job_envelope \<Rightarrow> job_context" where
  "context_from_envelope e =
     \<lparr>ctx_id = env_id e, ctx_name = env_name e, ctx_version = env_version e,
      ctx_idempotency_key = env_idempotency_key e, ctx_attempt = env_attempt e,
      ctx_trace_context = env_trace_context e\<rparr>"

definition job_dispatch ::
  "'j job_envelope \<Rightarrow> ('j, 'e, 's) job_handler \<Rightarrow> 's \<Rightarrow> ('e, delivery_action) result \<times> 's" where
  "job_dispatch e handler s =
     (case handler (env_payload e) (context_from_envelope e) s of
        (Inl err, s') \<Rightarrow> (Inl err, s')
      | (Inr _, s') \<Rightarrow> (Inr Acknowledge, s'))"

section \<open>Registry\<close>

datatype registration_error = RegInvalidJobName | RegDuplicateJobName

datatype registry_error =
    RegInvalidEnvelope
  | RegInvalidAttempt
  | RegUnknownJob
  | RegHandler job_id string

text \<open>A \<open>dyn RegisteredJobHandler\<close> is its dispatch function; the \<open>BTreeMap\<close> is the association list in
  key order.\<close>

type_synonym 's registered_handler =
  "bytes \<Rightarrow> u16 \<Rightarrow> 's \<Rightarrow> (registry_error, delivery_action) result \<times> 's"

type_synonym 's job_registry = "(string \<times> 's registered_handler) list"

fun btree_insert :: "string \<Rightarrow> 'a \<Rightarrow> (string \<times> 'a) list \<Rightarrow> (string \<times> 'a) list" where
  "btree_insert k v [] = [(k, v)]"
| "btree_insert k v ((k', v') # r) =
     (if k < k' then (k, v) # (k', v') # r
      else if k = k' then (k, v) # r
      else (k', v') # btree_insert k v r)"

definition registry_new :: "'s job_registry" where
  "registry_new = []"

definition insert_handler ::
  "job_type \<Rightarrow> 's registered_handler \<Rightarrow> 's job_registry \<Rightarrow> (registration_error, 's job_registry) result" where
  "insert_handler j handler reg =
     (if \<not> is_valid_job_name (job_NAME j) then Inl RegInvalidJobName
      else if map_of reg (job_NAME j) \<noteq> None then Inl RegDuplicateJobName
      else Inr (btree_insert (job_NAME j) handler reg))"

text \<open>The common end of both registered handlers: the attempt of the provider replaces the stored one.\<close>

definition dispatch_envelope ::
  "('j, 'e, 's) job_handler \<Rightarrow> (registry_error, 'j job_envelope) result \<Rightarrow> u16 \<Rightarrow> 's \<Rightarrow>
   (registry_error, delivery_action) result \<times> 's" where
  "dispatch_envelope handler decoded attempt s =
     (case bind_result decoded (\<lambda>e. map_error (\<lambda>_. RegInvalidAttempt) (with_attempt attempt e)) of
        Inl err \<Rightarrow> (Inl err, s)
      | Inr e \<Rightarrow>
          (case job_dispatch e handler s of
             (r, s') \<Rightarrow> (map_error (\<lambda>_. RegHandler (env_id e) (env_name e)) r, s')))"

definition strict_dispatch ::
  "('j, 'v) job_json \<Rightarrow> job_type \<Rightarrow> ('j, 'e, 's) job_handler \<Rightarrow> 's registered_handler" where
  "strict_dispatch json j handler payload attempt s =
     dispatch_envelope handler (map_error (\<lambda>_. RegInvalidEnvelope) (envelope_decode json j payload)) attempt s"

definition compatible_dispatch ::
  "('j, 'v) job_json \<Rightarrow> job_type \<Rightarrow> ('j, 'e, 's) job_handler \<Rightarrow> (u16 \<Rightarrow> 'v \<Rightarrow> ('u, 'j) result) \<Rightarrow>
   's registered_handler" where
  "compatible_dispatch json j handler upcast payload attempt s =
     dispatch_envelope handler (map_error (\<lambda>_. RegInvalidEnvelope) (decode_compatible json j upcast payload)) attempt s"

definition register ::
  "('j, 'v) job_json \<Rightarrow> job_type \<Rightarrow> ('j, 'e, 's) job_handler \<Rightarrow> 's job_registry \<Rightarrow>
   (registration_error, 's job_registry) result" where
  "register json j handler = insert_handler j (strict_dispatch json j handler)"

definition register_with_upcaster ::
  "('j, 'v) job_json \<Rightarrow> job_type \<Rightarrow> ('j, 'e, 's) job_handler \<Rightarrow> (u16 \<Rightarrow> 'v \<Rightarrow> ('u, 'j) result) \<Rightarrow>
   's job_registry \<Rightarrow> (registration_error, 's job_registry) result" where
  "register_with_upcaster json j handler upcast = insert_handler j (compatible_dispatch json j handler upcast)"

definition registered_names :: "'s job_registry \<Rightarrow> string list" where
  "registered_names reg = map fst reg"

text \<open>\<open>read_identity\<close> is \<open>serde_json::from_slice::<RegistryEnvelopeIdentity>\<close>, which reads the name only.\<close>

definition registry_dispatch ::
  "(bytes \<Rightarrow> string option) \<Rightarrow> 's job_registry \<Rightarrow> 's registered_handler" where
  "registry_dispatch read_identity reg payload attempt s =
     (if attempt = 0 then (Inl RegInvalidAttempt, s)
      else if payload = [] \<or> length payload > MAX_JOB_ENVELOPE_BYTES then (Inl RegInvalidEnvelope, s)
      else
        case read_identity payload of None \<Rightarrow> (Inl RegInvalidEnvelope, s)
        | Some name \<Rightarrow>
            (case map_of reg name of None \<Rightarrow> (Inl RegUnknownJob, s)
             | Some handler \<Rightarrow> handler payload attempt s))"

section \<open>Retry schedule\<close>

lemma u16_succ:
  assumes "(a :: u16) < b"
  shows "unat (a + 1) = unat a + 1" "u16_checked_add a 1 = Some (a + 1)" "a + 1 \<noteq> 0"
proof -
  have lt: "unat a < unat b" using assms by (simp add: word_less_nat_alt)
  then have bound: "unat a + 1 < u16_bound" using unsigned_less [where 'a = nat, of b] by simp
  then show n: "unat (a + 1) = unat a + 1" by (simp add: unat_word_ariths)
  from bound show "u16_checked_add a 1 = Some (a + 1)" by (simp add: u16_checked_add_def)
  from n show "a + 1 \<noteq> 0" by auto
qed

text \<open>The documented delay after the failed delivery number \<open>k\<close>: the initial delay, doubled for every
  further failure up to the largest \<open>u32\<close> factor, capped at the maximal delay.\<close>

definition backoff :: "retry_policy \<Rightarrow> nat \<Rightarrow> duration" where
  "backoff p k = min (initial_backoff p * min (2 ^ (k - 1)) (u32_bound - 1)) (max_backoff p)"

lemma after_failure_cases:
  assumes "max_backoff p \<le> duration_max"
  shows "after_failure p a =
    (if retry_policy_is_valid p \<and> a \<noteq> 0 \<and> a < max_deliveries p
     then Retry (a + 1) (backoff p (unat a)) else DeadLetter)"
proof (cases "retry_policy_is_valid p \<and> a \<noteq> 0 \<and> a < max_deliveries p")
  case True
  have "1 \<le> a" using True by (simp add: word_le_nat_alt unat_gt_0 Suc_le_eq)
  then have "unat (u16_saturating_sub a 1) = unat a - 1"
    by (simp add: u16_saturating_sub_def unat_sub not_less)
  with True assms u16_succ(2) [of a "max_deliveries p"] show ?thesis
    by (simp add: after_failure_def Let_def not_le u16_saturating_add_def saturating_pow_def backoff_def
        duration_saturating_mul_def min.assoc min_absorb2)
next
  case False
  then show ?thesis by (auto simp: after_failure_def not_le)
qed

lemma backoff_bounds:
  assumes "retry_policy_is_valid p"
  shows "initial_backoff p \<le> backoff p k" "backoff p k \<le> max_backoff p"
proof -
  have "1 \<le> min (2 ^ (k - 1)) (u32_bound - 1)" by simp
  then have "initial_backoff p * 1 \<le> initial_backoff p * min (2 ^ (k - 1)) (u32_bound - 1)"
    by (rule mult_le_mono2)
  then show "initial_backoff p \<le> backoff p k"
    using assms unfolding backoff_def retry_policy_is_valid_def by simp
qed (simp add: backoff_def)

lemma backoff_mono: "i \<le> j \<Longrightarrow> backoff p i \<le> backoff p j"
  unfolding backoff_def
  by (intro min.mono mult_le_mono order.refl power_increasing diff_le_mono) simp_all

text \<open>The deliveries of a job whose handler always fails, from a given attempt on: each attempt with the
  delay before the next one, none after the last.\<close>

function failing_deliveries :: "retry_policy \<Rightarrow> u16 \<Rightarrow> (u16 \<times> duration option) list" where
  "failing_deliveries p attempt =
     (case after_failure p attempt of
        Retry next delay \<Rightarrow> (attempt, Some delay) # failing_deliveries p next
      | _ \<Rightarrow> [(attempt, None)])"
  by pat_completeness auto
termination
proof (relation "measure (\<lambda>(p, a). unat (max_deliveries p) - unat a)")
  fix p a n d
  assume "after_failure p a = Retry n d"
  then have "a < max_deliveries p" "n = u16_saturating_add a 1"
    by (auto simp: after_failure_def Let_def not_le split: if_splits)
  then have "a < max_deliveries p" "unat n = unat a + 1"
    using u16_succ [of a "max_deliveries p"] by (auto simp: u16_saturating_add_def)
  then show "((p, n), p, a) \<in> measure (\<lambda>(p, a). unat (max_deliveries p) - unat a)"
    by (simp add: word_less_nat_alt)
qed simp

declare failing_deliveries.simps [simp del]

lemma failing_deliveries_from:
  assumes valid: "retry_policy_is_valid p" and cap: "max_backoff p \<le> duration_max"
    and a: "unat a = k" "0 < k" "k \<le> unat (max_deliveries p)"
  shows "failing_deliveries p a =
    map (\<lambda>i. (of_nat i, if i < unat (max_deliveries p) then Some (backoff p i) else None))
      [k..<Suc (unat (max_deliveries p))]"
  using a
proof (induction "unat (max_deliveries p) - k" arbitrary: a k)
  case 0
  then have "k = unat (max_deliveries p)" by simp
  with 0 valid cap show ?case
    by (subst failing_deliveries.simps)
      (simp add: after_failure_cases word_less_nat_alt word_unat_eq_iff)
next
  case (Suc n)
  then have lt: "a < max_deliveries p" "k < unat (max_deliveries p)" by (simp_all add: word_less_nat_alt)
  have next_a: "unat (a + 1) = Suc k" using u16_succ(1) [OF lt(1)] Suc.prems by simp
  have IH: "failing_deliveries p (a + 1) =
    map (\<lambda>i. (of_nat i, if i < unat (max_deliveries p) then Some (backoff p i) else None))
      [Suc k..<Suc (unat (max_deliveries p))]"
    by (rule Suc.hyps(1)) (use Suc.hyps(2) Suc.prems lt next_a in simp_all)
  have "a \<noteq> 0" using Suc.prems by auto
  with lt valid cap Suc.prems have "after_failure p a = Retry (a + 1) (backoff p k)"
    by (simp add: after_failure_cases)
  moreover have "[k..<Suc (unat (max_deliveries p))] = k # [Suc k..<Suc (unat (max_deliveries p))]"
    using lt by (simp add: upt_conv_Cons)
  moreover have "of_nat k = a" using Suc.prems(1) by auto
  ultimately show ?case using lt IH by (subst failing_deliveries.simps) simp
qed

text \<open>C11. Under a valid policy a job whose handler always fails is delivered exactly
  \<open>max_deliveries\<close> times, with the attempts 1, 2, \<dots>, and is then dead-lettered.  The delays between the
  deliveries are the doubled initial delay under both caps: they never decrease, are never below the
  initial and never above the maximal delay.  An invalid policy dead-letters at once.\<close>

theorem retry_schedule_exact:
  assumes "max_backoff p \<le> duration_max"
  shows "if retry_policy_is_valid p
    then map fst (failing_deliveries p 1) = map of_nat [1..<Suc (unat (max_deliveries p))] \<and>
      List.map_filter snd (failing_deliveries p 1) = map (backoff p) [1..<unat (max_deliveries p)] \<and>
      sorted (List.map_filter snd (failing_deliveries p 1)) \<and>
      (\<forall>d \<in> set (List.map_filter snd (failing_deliveries p 1)).
         initial_backoff p \<le> d \<and> d \<le> max_backoff p)
    else failing_deliveries p 1 = [(1, None)]"
proof (cases "retry_policy_is_valid p")
  case True
  then have "max_deliveries p \<noteq> 0" by (simp add: retry_policy_is_valid_def)
  then have pos: "1 \<le> unat (max_deliveries p)" by (simp add: Suc_le_eq unat_gt_0)
  have run: "failing_deliveries p 1 =
    map (\<lambda>i. (of_nat i, if i < unat (max_deliveries p) then Some (backoff p i) else None))
      ([1..<unat (max_deliveries p)] @ [unat (max_deliveries p)])"
    using failing_deliveries_from [OF True assms, of 1 1] pos by simp
  have filt: "List.map_filter snd (map (\<lambda>i. (g i, if i < m then Some (f i) else None)) ns) = map f ns"
    if "\<forall>i \<in> set ns. i < m" for f :: "nat \<Rightarrow> duration" and g :: "nat \<Rightarrow> u16" and m :: nat and ns
    using that by (induction ns) (auto simp: List.map_filter_def)
  have filter_append_map_filter: "List.map_filter f (xs @ ys) = List.map_filter f xs @ List.map_filter f ys"
    for f :: "u16 \<times> duration option \<Rightarrow> duration option" and xs ys by (simp add: List.map_filter_def)
  have delays: "List.map_filter snd (failing_deliveries p 1) = map (backoff p) [1..<unat (max_deliveries p)]"
    unfolding run map_append filter_append_map_filter by (subst filt) (auto simp: List.map_filter_def)
  have "sorted (map (backoff p) [1..<unat (max_deliveries p)])"
    by (simp add: sorted_wrt_map sorted_wrt_upt backoff_mono sorted_wrt_mono_rel [OF _ sorted_wrt_upt])
  with True pos run delays backoff_bounds [OF True] show ?thesis by (auto simp: o_def)
next
  case False
  with assms show ?thesis by (subst failing_deliveries.simps) (simp add: after_failure_cases)
qed

lemma retry_schedule_exact_witness:
  "failing_deliveries \<lparr>max_deliveries = 3, initial_backoff = from_secs 2, max_backoff = from_secs 3\<rparr> 1 =
     [(1, Some (from_secs 2)), (2, Some (from_secs 3)), (3, None)] \<and>
   map fst (failing_deliveries \<lparr>max_deliveries = 3, initial_backoff = from_secs 2, max_backoff = from_secs 3\<rparr> 1) =
     [1, 2, 3]"
proof -
  let ?p = "\<lparr>max_deliveries = 3, initial_backoff = from_secs 2, max_backoff = from_secs 3\<rparr> :: retry_policy"
  have v: "retry_policy_is_valid ?p" "max_backoff ?p \<le> duration_max"
    by (simp_all add: retry_policy_is_valid_def duration_defs)
  have run: "failing_deliveries ?p 1 = [(1, Some (from_secs 2)), (2, Some (from_secs 3)), (3, None)]"
    by (subst failing_deliveries_from [OF v, of 1 1]) (simp_all add: backoff_def duration_defs upt_rec)
  show ?thesis using run retry_schedule_exact [OF v(2)] v(1) by simp
qed

section \<open>Well-formed envelopes\<close>

definition trace_wf :: "trace_context \<Rightarrow> bool" where
  "trace_wf t \<longleftrightarrow>
     trim (traceparent t) \<noteq> [] \<and> is_ascii (traceparent t) \<and> length (traceparent t) \<le> MAX_TRACEPARENT_LEN \<and>
     (\<forall>v. tracestate t = Some v \<longrightarrow> trim v \<noteq> [] \<and> is_ascii v \<and> length v \<le> MAX_TRACESTATE_LEN)"

definition envelope_wf :: "job_type \<Rightarrow> 'j job_envelope \<Rightarrow> bool" where
  "envelope_wf j e \<longleftrightarrow>
     is_valid_job_name (job_NAME j) \<and> env_name e = job_NAME j \<and> env_version e = job_VERSION j \<and>
     env_attempt e \<noteq> 0 \<and>
     (\<forall>k. env_idempotency_key e = Some k \<longrightarrow> trim k \<noteq> [] \<and> length k \<le> MAX_JOB_IDEMPOTENCY_KEY_BYTES) \<and>
     (\<forall>t. env_trace_context e = Some t \<longrightarrow> trace_wf t)"

lemma trace_validate_iff: "trace_validate t = Inr u \<longleftrightarrow> trace_wf t"
  by (auto simp: trace_validate_def trace_wf_def not_less split: option.splits)

lemma trace_new_Inr:
  "trace_new parent state = Inr t \<longleftrightarrow> t = \<lparr>traceparent = parent, tracestate = state\<rparr> \<and> trace_wf t"
  by (auto simp: trace_new_def Let_def bind_result_eq_Inr trace_validate_iff)

lemma bounded_identifier_Inr:
  "validate_optional_bounded_identifier v b l = Inr u \<longleftrightarrow>
   (\<forall>k. v = Some k \<longrightarrow> trim k \<noteq> [] \<and> length k \<le> MAX_JOB_IDEMPOTENCY_KEY_BYTES)"
  by (auto simp: validate_optional_bounded_identifier_def not_less split: option.splits)

lemma validate_metadata_Inr:
  "validate_metadata j name key attempt trace = Inr u \<longleftrightarrow>
   is_valid_job_name (job_NAME j) \<and> name = job_NAME j \<and> attempt \<noteq> 0 \<and>
   (\<forall>k. key = Some k \<longrightarrow> trim k \<noteq> [] \<and> length k \<le> MAX_JOB_IDEMPOTENCY_KEY_BYTES) \<and>
   (\<forall>t. trace = Some t \<longrightarrow> trace_wf t)"
  by (auto simp: validate_metadata_def bind_result_eq_Inr bounded_identifier_Inr trace_validate_iff
      split: option.splits)

lemma envelope_validate_iff: "envelope_validate j e = Inr u \<longleftrightarrow> envelope_wf j e"
  by (auto simp: envelope_validate_def bind_result_eq_Inr validate_metadata_Inr envelope_wf_def)

lemma transpose_trace_Inr:
  "transpose_trace st = Inr trace \<longleftrightarrow>
   (case st of None \<Rightarrow> trace = None
    | Some x \<Rightarrow> \<exists>t. trace = Some t \<and> t = \<lparr>traceparent = ser_traceparent x, tracestate = ser_tracestate x\<rparr> \<and> trace_wf t)"
  by (auto simp: transpose_trace_def bind_result_eq_Inr trace_from_serialized_def trace_new_Inr split: option.splits)

lemma envelope_from_serialized_wf: "envelope_from_serialized j x = Inr e \<Longrightarrow> envelope_wf j e"
  by (auto simp: envelope_from_serialized_def bind_result_eq_Inr Let_def envelope_validate_iff)

lemma envelope_decode_wf:
  "envelope_decode json j b = Inr e \<Longrightarrow> envelope_wf j e \<and> length b \<le> MAX_JOB_ENVELOPE_BYTES"
  by (auto simp: envelope_decode_def bind_result_eq_Inr validate_envelope_bytes_def
      split: option.splits if_splits dest: envelope_from_serialized_wf)

lemma map_error_Inr [simp]: "map_error f r = Inr x \<longleftrightarrow> r = Inr x"
  by (auto simp: map_error_def split: sum.splits)

lemma decode_compatible_wf:
  "decode_compatible json j upcast b = Inr e \<Longrightarrow> envelope_wf j e \<and> length b \<le> MAX_JOB_ENVELOPE_BYTES"
  by (auto simp: decode_compatible_def bind_result_eq_Inr validate_metadata_Inr validate_envelope_bytes_def envelope_wf_def
      split: option.splits if_splits)

lemma envelope_encode_Inr:
  "envelope_encode json j e = Inr b \<longleftrightarrow>
   envelope_wf j e \<and> length b \<le> MAX_JOB_ENVELOPE_BYTES \<and>
   (\<exists>chunks. write_envelope json e = (chunks, True) \<and> b = concat chunks)"
proof -
  obtain chunks ok where w: "write_envelope json e = (chunks, ok)" by force
  show ?thesis
    unfolding envelope_encode_def bind_result_eq_Inr envelope_validate_iff codec_encode_def
      to_vec_bounded_eq [of "write_envelope json" e, OF w] by (auto simp: w)
qed

text \<open>Every envelope the library hands out is well formed: it carries the name and the version of its
  job type, a positive attempt, and only bounded, non-blank metadata.  Both decoders deliver only such
  envelopes, all builders keep the property, the attempt counter cannot wrap to zero, and only such
  envelopes are encoded.\<close>

theorem envelopes_well_formed:
  "(envelope_decode json j b = Inr e \<longrightarrow> envelope_wf j e) \<and>
   (decode_compatible json j upcast b = Inr e \<longrightarrow> envelope_wf j e) \<and>
   (is_valid_job_name (job_NAME j) \<longrightarrow> envelope_wf j (envelope_new j i now payload)) \<and>
   (envelope_wf j e \<longrightarrow> with_idempotency_key key e = Inr e' \<longrightarrow> envelope_wf j e') \<and>
   (envelope_wf j e \<longrightarrow> trace_new parent state = Inr t \<longrightarrow> envelope_wf j (with_trace_context t e)) \<and>
   (envelope_wf j e \<longrightarrow> envelope_next_attempt e = Inr e' \<longrightarrow>
      envelope_wf j e' \<and> unat (env_attempt e') = unat (env_attempt e) + 1) \<and>
   (envelope_wf j e \<longrightarrow> with_attempt attempt e = Inr e' \<longrightarrow> envelope_wf j e') \<and>
   (envelope_encode json j e = Inr b \<longrightarrow> envelope_wf j e \<and> length b \<le> MAX_JOB_ENVELOPE_BYTES)"
proof (intro conjI impI)
  assume wf: "envelope_wf j e" and step: "envelope_next_attempt e = Inr e'"
  then obtain n where n: "u16_checked_add (env_attempt e) 1 = Some n" "e' = e\<lparr>env_attempt := n\<rparr>"
    by (auto simp: envelope_next_attempt_def split: option.splits)
  then have "unat (env_attempt e) + 1 < u16_bound" "n = env_attempt e + 1"
    by (auto simp: u16_checked_add_def split: if_splits)
  then have succ: "unat n = unat (env_attempt e) + 1" by (simp add: unat_word_ariths)
  then have "n \<noteq> 0" by auto
  with wf n show "envelope_wf j e'" by (simp add: envelope_wf_def)
  from succ n show "unat (env_attempt e') = unat (env_attempt e) + 1" by simp
qed (auto simp: envelope_decode_wf decode_compatible_wf envelope_encode_Inr envelope_new_def envelope_with_metadata_def
    with_idempotency_key_def with_trace_context_def with_attempt_def bind_result_eq_Inr bounded_identifier_Inr trace_new_Inr
    envelope_wf_def split: if_splits dest: envelope_decode_wf decode_compatible_wf)

section \<open>Encoding and decoding\<close>

text \<open>The fields that \<open>serde\<close> writes for an envelope, with the payload in the form the reader gives it.\<close>

definition serialized_of :: "'p \<Rightarrow> 'j job_envelope \<Rightarrow> 'p serialized_job_envelope" where
  "serialized_of p e =
     \<lparr>ser_id = env_id e, ser_name = env_name e, ser_version = env_version e, ser_payload = p,
      ser_idempotency_key = env_idempotency_key e, ser_enqueued_at_unix_ms = env_enqueued_at_unix_ms e,
      ser_attempt = env_attempt e,
      ser_trace_context = map_option (\<lambda>t. \<lparr>ser_traceparent = traceparent t, ser_tracestate = tracestate t\<rparr>)
        (env_trace_context e)\<rparr>"

text \<open>What the round trip relies on: the JSON text of an envelope is not empty, and both readers give back
  the fields that were written.\<close>

definition serde_faithful :: "('j, 'v) job_json \<Rightarrow> bool" where
  "serde_faithful json \<longleftrightarrow>
     (\<forall>e chunks. write_envelope json e = (chunks, True) \<longrightarrow>
        concat chunks \<noteq> [] \<and>
        read_envelope json (concat chunks) = Some (serialized_of (env_payload e) e) \<and>
        (\<exists>v. read_raw json (concat chunks) = Some (serialized_of v e) \<and> from_value json v = Some (env_payload e)))"

lemma transpose_trace_serialized:
  assumes "\<forall>t. trace = Some t \<longrightarrow> trace_wf t"
  shows "transpose_trace (map_option (\<lambda>t. \<lparr>ser_traceparent = traceparent t, ser_tracestate = tracestate t\<rparr>) trace)
    = Inr trace"
  using assms by (cases trace) (auto simp: transpose_trace_Inr)

lemma envelope_from_serialized_of:
  assumes "envelope_wf j e"
  shows "envelope_from_serialized j (serialized_of (env_payload e) e) = Inr e"
proof -
  have "transpose_trace (ser_trace_context (serialized_of (env_payload e) e)) = Inr (env_trace_context e)"
    using assms by (simp add: serialized_of_def transpose_trace_serialized envelope_wf_def)
  moreover have "envelope_validate j e = Inr ()" using assms by (simp add: envelope_validate_iff)
  ultimately show ?thesis
    by (cases e) (simp add: envelope_from_serialized_def serialized_of_def Let_def)
qed

lemma valid_job_name_trim: "is_valid_job_name name \<Longrightarrow> trim name \<noteq> []"
  by (auto simp: is_valid_job_name_def trim_no_whitespace)

lemma envelope_roundtrip:
  assumes "serde_faithful json" "envelope_encode json j e = Inr b"
  shows "envelope_decode json j b = Inr e" "decode_compatible json j upcast b = Inr e" "b \<noteq> []"
proof -
  obtain chunks where e: "envelope_wf j e" "write_envelope json e = (chunks, True)" "b = concat chunks"
    "length b \<le> MAX_JOB_ENVELOPE_BYTES" using assms(2) by (auto simp: envelope_encode_Inr)
  obtain v where r: "b \<noteq> []" "read_envelope json b = Some (serialized_of (env_payload e) e)"
    "read_raw json b = Some (serialized_of v e)" "from_value json v = Some (env_payload e)"
    using assms(1) e unfolding serde_faithful_def by blast
  show "b \<noteq> []" by (rule r)
  show "envelope_decode json j b = Inr e"
    using e(4) r(2) envelope_from_serialized_of [OF e(1)]
    by (simp add: envelope_decode_def validate_envelope_bytes_def)
  have "transpose_trace (ser_trace_context (serialized_of v e)) = Inr (env_trace_context e)"
    using e(1) by (simp add: serialized_of_def transpose_trace_serialized envelope_wf_def)
  moreover have "validate_metadata j (env_name e) (env_idempotency_key e) (env_attempt e) (env_trace_context e) = Inr ()"
    "env_version e = job_VERSION j"
    using e(1) by (simp_all add: validate_metadata_Inr envelope_wf_def)
  ultimately show "decode_compatible json j upcast b = Inr e"
    using e(4) r(3,4)
    by (simp add: decode_compatible_def validate_envelope_bytes_def map_error_def serialized_of_def)
qed

lemma message_of_encoded:
  assumes "serde_faithful json" "envelope_message json j e = Inr m"
  shows "message_from_parts (msg_id m) (msg_name m) (msg_version m) (msg_attempt m) (msg_payload m) = Inr m"
proof -
  obtain b where b: "envelope_encode json j e = Inr b"
    "m = \<lparr>msg_id = env_id e, msg_name = env_name e, msg_version = env_version e, msg_attempt = env_attempt e, msg_payload = b\<rparr>"
    using assms(2) by (auto simp: envelope_message_def bind_result_eq_Inr)
  have "envelope_wf j e" "length b \<le> MAX_JOB_ENVELOPE_BYTES" using b(1) by (simp_all add: envelope_encode_Inr)
  with envelope_roundtrip(3) [OF assms(1) b(1)] b(2) show ?thesis
    by (auto simp: message_from_parts_def envelope_wf_def valid_job_name_trim)
qed

text \<open>C37. An encoded envelope is decoded to itself, by the strict decoder and by the compatible one whatever
  its upcaster, and the provider message built from it is accepted by the check a durable relay makes when
  it restores the message from storage.\<close>

theorem job_envelope_roundtrip:
  assumes "serde_faithful json" "envelope_message json j e = Inr m"
  shows "envelope_decode json j (msg_payload m) = Inr e \<and>
    decode_compatible json j upcast (msg_payload m) = Inr e \<and>
    message_from_parts (msg_id m) (msg_name m) (msg_version m) (msg_attempt m) (msg_payload m) = Inr m \<and>
    msg_id m = env_id e \<and> msg_name m = job_NAME j \<and> msg_attempt m = env_attempt e"
proof -
  obtain b where b: "envelope_encode json j e = Inr b" "msg_payload m = b" "msg_id m = env_id e"
    "msg_name m = env_name e" "msg_attempt m = env_attempt e"
    using assms(2) by (auto simp: envelope_message_def bind_result_eq_Inr)
  moreover have "env_name e = job_NAME j" using b(1) by (simp add: envelope_encode_Inr envelope_wf_def)
  ultimately show ?thesis
    using envelope_roundtrip [OF assms(1) b(1)] message_of_encoded [OF assms] by simp
qed

text \<open>A job type, an envelope and a JSON codec on which the properties are evaluated.\<close>

definition sample_job :: job_type where
  "sample_job = \<lparr>job_NAME = ''mail'', job_VERSION = 1\<rparr>"

definition sample_envelope :: "string job_envelope" where
  "sample_envelope = envelope_with_metadata sample_job 7 ''hello'' 1000"

definition sample_json :: "(string, string) job_json" where
  "sample_json =
     \<lparr>write_envelope = (\<lambda>e. if e = sample_envelope then ([''{'', ''}''], True) else ([], False)),
      read_envelope = (\<lambda>b. if b = ''{}'' then Some (serialized_of ''hello'' sample_envelope) else None),
      read_raw = (\<lambda>b. if b = ''{}'' then Some (serialized_of ''hello'' sample_envelope) else None),
      from_value = Some\<rparr>"

lemma sample_job_name: "is_valid_job_name ''mail''"
  by (simp add: is_valid_job_name_def ws1_def ws2_def ws3_def in_codes_def)

lemma sample_json_faithful: "serde_faithful sample_json"
  by (auto simp: serde_faithful_def sample_json_def sample_envelope_def envelope_with_metadata_def split: if_splits)

lemma sample_encoded: "envelope_encode sample_json sample_job sample_envelope = Inr ''{}''"
proof -
  have "envelope_wf sample_job sample_envelope"
    by (simp add: envelope_wf_def sample_envelope_def sample_job_def envelope_with_metadata_def sample_job_name)
  then show ?thesis by (simp add: envelope_encode_Inr) (simp add: sample_json_def)
qed

lemma job_envelope_roundtrip_witness:
  "envelope_message sample_json sample_job sample_envelope =
     Inr \<lparr>msg_id = 7, msg_name = ''mail'', msg_version = 1, msg_attempt = 1, msg_payload = ''{}''\<rparr> \<and>
   envelope_decode sample_json sample_job ''{}'' = Inr sample_envelope \<and>
   decode_compatible sample_json sample_job (\<lambda>_ _. Inl ()) ''{}'' = Inr sample_envelope"
proof -
  have m: "envelope_message sample_json sample_job sample_envelope =
      Inr \<lparr>msg_id = 7, msg_name = ''mail'', msg_version = 1, msg_attempt = 1, msg_payload = ''{}''\<rparr>"
    by (simp add: envelope_message_def sample_encoded)
      (simp add: sample_envelope_def sample_job_def envelope_with_metadata_def)
  show ?thesis using job_envelope_roundtrip [OF sample_json_faithful m, of "\<lambda>_ _. Inl ()"] m by simp
qed

lemma envelopes_well_formed_witness:
  "envelope_wf sample_job sample_envelope \<and>
   envelope_next_attempt sample_envelope = Inr (sample_envelope\<lparr>env_attempt := 2\<rparr>) \<and>
   envelope_wf sample_job (sample_envelope\<lparr>env_attempt := 2\<rparr>)"
proof -
  have step: "envelope_next_attempt sample_envelope = Inr (sample_envelope\<lparr>env_attempt := 2\<rparr>)"
    by (simp add: envelope_next_attempt_def sample_envelope_def envelope_with_metadata_def u16_checked_add_def)
  note typed = envelopes_well_formed [where json = sample_json and j = sample_job and b = "''{}''" and
    e = sample_envelope and e' = "sample_envelope\<lparr>env_attempt := 2\<rparr>" and upcast = "\<lambda>_ _. Inl ()" and
    payload = "''hello''"]
  have "envelope_wf sample_job sample_envelope" using typed sample_encoded by blast
  with step typed show ?thesis by blast
qed

section \<open>Registered handlers\<close>

lemma map_of_btree_insert: "map_of (btree_insert k v m) = (map_of m)(k \<mapsto> v)"
  by (induction k v m rule: btree_insert.induct) auto

lemma set_btree_insert: "fst ` set (btree_insert k v m) = insert k (fst ` set m)"
  by (induction k v m rule: btree_insert.induct) auto

lemma sorted_btree_insert:
  "sorted_wrt (<) (map fst m) \<Longrightarrow> sorted_wrt (<) (map fst (btree_insert k v m))"
proof (induction k v m rule: btree_insert.induct)
  case (2 k v k' v' r)
  have "fst x = k \<or> fst x \<in> fst ` set r" if "x \<in> set (btree_insert k v r)" for x
    using set_btree_insert [of k v r] that by auto
  with 2 show ?case by (fastforce dest: order.strict_trans)
qed simp

text \<open>Registration steps: any handler under any job type.\<close>

inductive registry_extends :: "'s job_registry \<Rightarrow> 's job_registry \<Rightarrow> bool" where
  same: "registry_extends reg reg"
| more: "registry_extends reg reg' \<Longrightarrow> insert_handler j h reg' = Inr reg'' \<Longrightarrow> registry_extends reg reg''"

lemma insert_handler_Inr:
  "insert_handler j h reg = Inr reg' \<longleftrightarrow>
   is_valid_job_name (job_NAME j) \<and> map_of reg (job_NAME j) = None \<and> reg' = btree_insert (job_NAME j) h reg"
  by (auto simp: insert_handler_def)

lemma registry_extends_keeps:
  "registry_extends reg reg' \<Longrightarrow> map_of reg name = Some h \<Longrightarrow> map_of reg' name = Some h"
  by (induction rule: registry_extends.induct) (auto simp: insert_handler_Inr map_of_btree_insert)

lemma registry_extends_sorted:
  "registry_extends reg reg' \<Longrightarrow> sorted_wrt (<) (registered_names reg) \<Longrightarrow> sorted_wrt (<) (registered_names reg')"
  by (induction rule: registry_extends.induct)
    (auto simp: insert_handler_Inr registered_names_def sorted_btree_insert)

text \<open>The registry's reader of the name agrees with what the writer of a job type wrote.\<close>

definition identity_faithful :: "(bytes \<Rightarrow> string option) \<Rightarrow> ('j, 'v) job_json \<Rightarrow> bool" where
  "identity_faithful read_identity json \<longleftrightarrow>
     (\<forall>e chunks. write_envelope json e = (chunks, True) \<longrightarrow> read_identity (concat chunks) = Some (env_name e))"

text \<open>What a delivery of an envelope to a handler gives: an acknowledgement, or the identity of the failed job.\<close>

definition delivery_result ::
  "('j, 'e, 's) job_handler \<Rightarrow> 'j job_envelope \<Rightarrow> u16 \<Rightarrow> 's \<Rightarrow> (registry_error, delivery_action) result \<times> 's" where
  "delivery_result handler e attempt s =
     (case handler (env_payload e) ((context_from_envelope e)\<lparr>ctx_attempt := attempt\<rparr>) s of
        (Inr _, s') \<Rightarrow> (Inr Acknowledge, s')
      | (Inl _, s') \<Rightarrow> (Inl (RegHandler (env_id e) (env_name e)), s'))"

lemma dispatch_envelope_result:
  assumes "attempt \<noteq> 0"
  shows "dispatch_envelope handler (Inr e) attempt s = delivery_result handler e attempt s"
proof -
  have ctx: "context_from_envelope (e\<lparr>env_attempt := attempt\<rparr>) = (context_from_envelope e)\<lparr>ctx_attempt := attempt\<rparr>"
    by (simp add: context_from_envelope_def)
  obtain r s' where h: "handler (env_payload e) ((context_from_envelope e)\<lparr>ctx_attempt := attempt\<rparr>) s = (r, s')"
    by force
  have w: "with_attempt attempt e = Inr (e\<lparr>env_attempt := attempt\<rparr>)" using assms by (simp add: with_attempt_def)
  show ?thesis
    by (cases r) (simp_all add: dispatch_envelope_def delivery_result_def job_dispatch_def map_error_def w ctx h)
qed

lemma registry_dispatch_encoded:
  assumes "serde_faithful json" "identity_faithful read_identity json"
    and "envelope_encode json j e = Inr b" "attempt \<noteq> 0"
    and "map_of reg (job_NAME j) = Some h"
    and "h = strict_dispatch json j handler \<or> h = compatible_dispatch json j handler upcast"
  shows "registry_dispatch read_identity reg b attempt s = delivery_result handler e attempt s"
proof -
  obtain chunks where e: "envelope_wf j e" "write_envelope json e = (chunks, True)" "b = concat chunks"
    "length b \<le> MAX_JOB_ENVELOPE_BYTES" using assms(3) by (auto simp: envelope_encode_Inr)
  have rid: "read_identity b = Some (job_NAME j)"
    using assms(2) e unfolding identity_faithful_def by (auto simp: envelope_wf_def)
  note rt = envelope_roundtrip [OF assms(1,3)]
  have "h b attempt s = delivery_result handler e attempt s"
    using assms(6) rt(1) rt(2) [of upcast] dispatch_envelope_result [OF assms(4)]
    by (auto simp: strict_dispatch_def compatible_dispatch_def map_error_def)
  with assms(4,5) e(4) rt(3) rid show ?thesis by (simp add: registry_dispatch_def)
qed

text \<open>C19. A job encoded by a client is delivered by the registry to the handler registered for its type,
  strictly or with an upcaster, whatever was registered before and after it: the handler gets the
  original payload and metadata with the attempt number of the provider, exactly once, and its outcome decides
  the action.  The names are kept strictly sorted, and a second registration of a name is refused.\<close>

theorem registry_delivers:
  assumes "serde_faithful json" "identity_faithful read_identity json"
    and "registry_extends registry_new reg"
    and "register json j handler reg = Inr reg1 \<or> register_with_upcaster json j handler upcast reg = Inr reg1"
    and "registry_extends reg1 reg2"
    and "envelope_encode json j e = Inr b" "attempt \<noteq> 0"
  shows "registry_dispatch read_identity reg2 b attempt s = delivery_result handler e attempt s \<and>
    sorted_wrt (<) (registered_names reg2) \<and> job_NAME j \<in> set (registered_names reg2) \<and>
    register json j other reg2 = Inl RegDuplicateJobName"
proof -
  obtain h where h: "insert_handler j h reg = Inr reg1"
    "h = strict_dispatch json j handler \<or> h = compatible_dispatch json j handler upcast"
    using assms(4) by (auto simp: register_def register_with_upcaster_def)
  then have "map_of reg1 (job_NAME j) = Some h" by (simp add: insert_handler_Inr map_of_btree_insert)
  then have lookup: "map_of reg2 (job_NAME j) = Some h" by (rule registry_extends_keeps [OF assms(5)])
  have "sorted_wrt (<) (registered_names registry_new)" by (simp add: registry_new_def registered_names_def)
  then have "sorted_wrt (<) (registered_names reg)" by (rule registry_extends_sorted [OF assms(3)])
  then have "sorted_wrt (<) (registered_names reg1)"
    by (rule registry_extends_sorted [OF registry_extends.more [OF registry_extends.same h(1)]])
  then have "sorted_wrt (<) (registered_names reg2)" by (rule registry_extends_sorted [OF assms(5)])
  moreover have "job_NAME j \<in> set (registered_names reg2)"
    using lookup by (auto simp: registered_names_def dest!: map_of_SomeD intro: rev_image_eqI)
  moreover have "register json j other reg2 = Inl RegDuplicateJobName"
    using lookup h(1) by (simp add: register_def insert_handler_def split: if_splits)
  ultimately show ?thesis
    using registry_dispatch_encoded [OF assms(1,2,6,7) lookup h(2)] by simp
qed

text \<open>A handler that records what it was given.\<close>

definition recording_handler :: "(string, unit, (string \<times> u16) list) job_handler" where
  "recording_handler payload context log = (Inr (), (payload, ctx_attempt context) # log)"

lemma registry_delivers_witness:
  "register sample_json sample_job recording_handler registry_new =
     Inr [(''mail'', strict_dispatch sample_json sample_job recording_handler)] \<and>
   registry_dispatch (\<lambda>b. if b = ''{}'' then Some ''mail'' else None)
     [(''mail'', strict_dispatch sample_json sample_job recording_handler)] ''{}'' 3 [] =
     (Inr Acknowledge, [(''hello'', 3)])"
proof -
  let ?reg = "[(''mail'', strict_dispatch sample_json sample_job recording_handler)]"
    and ?rid = "\<lambda>b. if b = ''{}'' then Some ''mail'' else None"
  have reg: "register sample_json sample_job recording_handler registry_new = Inr ?reg"
    by (simp add: register_def insert_handler_def registry_new_def sample_job_def sample_job_name)
  have rid: "identity_faithful ?rid sample_json"
    by (auto simp: identity_faithful_def sample_json_def sample_envelope_def sample_job_def envelope_with_metadata_def
        split: if_splits)
  have "registry_dispatch ?rid ?reg ''{}'' 3 [] = delivery_result recording_handler sample_envelope 3 []"
    by (rule conjunct1 [OF registry_delivers [where upcast = "\<lambda>_ _. Inl ()", OF sample_json_faithful rid
        registry_extends.same disjI1 [OF reg] registry_extends.same sample_encoded, of 3 "[]" recording_handler]]) simp
  moreover have "delivery_result recording_handler sample_envelope 3 [] = (Inr Acknowledge, [(''hello'', 3)])"
    by (simp add: delivery_result_def recording_handler_def sample_envelope_def envelope_with_metadata_def)
  ultimately show ?thesis using reg by simp
qed

end
