(* ===== verification/JobsRedis.thy ===== *)
theory JobsRedis
  imports Jobs "HOL-Library.Multiset"
begin

text \<open>
  The Redis Streams provider for jobs (\<open>crates/rustee-jobs-redis/src\<close>): worker configuration
  (\<open>config.rs\<close>), publishing (\<open>publisher.rs\<close>), reading and reclaiming deliveries (\<open>worker/receiver.rs\<close>),
  the Lua settlement scripts (\<open>worker/settlement.rs\<close>), the processing of one delivery (\<open>delivery.rs\<close>) and the
  steps of the worker loop (\<open>worker/runner.rs\<close>).

  The Redis server is the record \<open>streams_api\<close>: the commands the provider issues, on an abstract server
  state.  A command that is cut off by its deadline may or may not have reached the server, so every
  call takes a \<open>redis_link\<close> that says what happened to it.
\<close>

section \<open>Configuration\<close>

datatype config_error =
    CfgInvalidKey | CfgInvalidGroupOrConsumer | CfgDeadLetterMatchesSource | CfgZeroDuration
  | CfgDurationOutOfRange | CfgOperationTimeoutNotLongerThanBlock | CfgInvalidBatchSize

record worker_config =
  wc_stream :: string
  wc_group :: string
  wc_consumer :: string
  wc_dead_letter_stream :: string
  wc_retry_schedule_key :: string
  wc_retry_payload_key :: string
  wc_retry_attempt_key :: string
  wc_block_timeout_ms :: nat
  wc_operation_timeout :: duration
  wc_reclaim_interval :: duration
  wc_reclaim_idle_ms :: nat
  wc_batch_size :: nat

abbreviation MAX_BATCH_SIZE :: nat where "MAX_BATCH_SIZE \<equiv> 1000"

definition validate_key :: "string \<Rightarrow> (config_error, unit) result" where
  "validate_key v = (if trim v = [] \<or> length v > 512 \<or> has_whitespace v then Inl CfgInvalidKey else Inr ())"

definition validate_group_or_consumer :: "string \<Rightarrow> (config_error, unit) result" where
  "validate_group_or_consumer v =
     (if trim v = [] \<or> length v > 255 \<or> has_whitespace v then Inl CfgInvalidGroupOrConsumer else Inr ())"

definition retry_key :: "string \<Rightarrow> string \<Rightarrow> string \<Rightarrow> string" where
  "retry_key stream gr record_kind =
     ''rustee:jobs:retry:v1'' @ '':'' @ show_nat (length stream) @ '':'' @ stream @ '':''
       @ show_nat (length gr) @ '':'' @ gr @ '':'' @ record_kind"

definition validate_operation_timeout :: "duration \<Rightarrow> (config_error, unit) result" where
  "validate_operation_timeout t = (if t = 0 then Inl CfgZeroDuration else Inr ())"

definition duration_to_millis :: "duration \<Rightarrow> (config_error, nat) result" where
  "duration_to_millis d =
     (if subsec_nanos d mod 1000000 \<noteq> 0 then Inl CfgDurationOutOfRange
      else if as_millis d < usize_bound then Inr (as_millis d) else Inl CfgDurationOutOfRange)"

definition nonzero_duration_to_millis :: "duration \<Rightarrow> (config_error, nat) result" where
  "nonzero_duration_to_millis d =
     (if d = 0 then Inl CfgZeroDuration
      else bind_result (duration_to_millis d) (\<lambda>ms. if ms = 0 then Inl CfgDurationOutOfRange else Inr ms))"

definition worker_config_new ::
  "string \<Rightarrow> string \<Rightarrow> string \<Rightarrow> string \<Rightarrow> (config_error, worker_config) result" where
  "worker_config_new stream gr consumer dead_letter_stream =
     bind_result (validate_key stream) (\<lambda>_.
     bind_result (validate_group_or_consumer gr) (\<lambda>_.
     bind_result (validate_group_or_consumer consumer) (\<lambda>_.
     bind_result (validate_key dead_letter_stream) (\<lambda>_.
     if stream = dead_letter_stream then Inl CfgDeadLetterMatchesSource
     else
       bind_result (nonzero_duration_to_millis (from_millis 250)) (\<lambda>block_ms.
       bind_result (nonzero_duration_to_millis (from_secs 30)) (\<lambda>idle_ms.
       Inr \<lparr>wc_stream = stream, wc_group = gr, wc_consumer = consumer,
         wc_dead_letter_stream = dead_letter_stream,
         wc_retry_schedule_key = retry_key stream gr ''schedule'',
         wc_retry_payload_key = retry_key stream gr ''payload'',
         wc_retry_attempt_key = retry_key stream gr ''attempt'',
         wc_block_timeout_ms = block_ms, wc_operation_timeout = from_secs 5,
         wc_reclaim_interval = from_secs 1, wc_reclaim_idle_ms = idle_ms, wc_batch_size = 64\<rparr>))))))"

definition config_validate_operation_timeout :: "worker_config \<Rightarrow> (config_error, unit) result" where
  "config_validate_operation_timeout c =
     bind_result (validate_operation_timeout (wc_operation_timeout c)) (\<lambda>_.
     if wc_operation_timeout c \<le> from_millis (wc_block_timeout_ms c)
     then Inl CfgOperationTimeoutNotLongerThanBlock else Inr ())"

definition with_block_timeout :: "duration \<Rightarrow> worker_config \<Rightarrow> (config_error, worker_config) result" where
  "with_block_timeout t c =
     bind_result (nonzero_duration_to_millis t) (\<lambda>ms.
     let c' = c\<lparr>wc_block_timeout_ms := ms\<rparr> in
     bind_result (config_validate_operation_timeout c') (\<lambda>_. Inr c'))"

definition with_operation_timeout :: "duration \<Rightarrow> worker_config \<Rightarrow> (config_error, worker_config) result" where
  "with_operation_timeout t c =
     bind_result (validate_operation_timeout t) (\<lambda>_.
     let c' = c\<lparr>wc_operation_timeout := t\<rparr> in
     bind_result (config_validate_operation_timeout c') (\<lambda>_. Inr c'))"

definition with_reclaim_interval :: "duration \<Rightarrow> worker_config \<Rightarrow> (config_error, worker_config) result" where
  "with_reclaim_interval t c = (if t = 0 then Inl CfgZeroDuration else Inr (c\<lparr>wc_reclaim_interval := t\<rparr>))"

definition with_reclaim_idle :: "duration \<Rightarrow> worker_config \<Rightarrow> (config_error, worker_config) result" where
  "with_reclaim_idle t c =
     bind_result (nonzero_duration_to_millis t) (\<lambda>ms. Inr (c\<lparr>wc_reclaim_idle_ms := ms\<rparr>))"

definition with_batch_size :: "nat \<Rightarrow> worker_config \<Rightarrow> (config_error, worker_config) result" where
  "with_batch_size n c =
     (if \<not> (1 \<le> n \<and> n \<le> MAX_BATCH_SIZE) then Inl CfgInvalidBatchSize else Inr (c\<lparr>wc_batch_size := n\<rparr>))"

section \<open>Server commands\<close>

datatype redis_streams_error =
    RsPublish | RsReadiness | RsConsumerGroup | RsReceive | RsReclaim | RsClaimedEntryMissing
  | RsDeliveryMetadata | RsDeliveryOwnershipLost | RsAcknowledge | RsRetrySchedule | RsRetryPromotion
  | RsRetryPolicy | RsDeadLetter | RsWorkerTask | RsDrainTimeout

type_synonym fields = "(string \<times> bytes) list"
type_synonym stream_entry = "string \<times> fields"

record autoclaim_reply =
  ac_claimed :: "stream_entry list"
  ac_deleted_ids :: "string list"
  ac_invalid_entries :: bool

text \<open>\<open>XPENDING\<close> for one entry is the pair of its owner and its delivery count, when it is pending;
  with a consumer argument the reply is empty unless that consumer is the owner.\<close>

record 's streams_api =
  xadd :: "string \<Rightarrow> fields \<Rightarrow> 's \<Rightarrow> string \<times> 's"
  xreadgroup :: "string \<Rightarrow> string \<Rightarrow> string \<Rightarrow> nat \<Rightarrow> nat \<Rightarrow> 's \<Rightarrow> stream_entry list \<times> 's"
  xautoclaim :: "string \<Rightarrow> string \<Rightarrow> string \<Rightarrow> nat \<Rightarrow> nat \<Rightarrow> 's \<Rightarrow> autoclaim_reply \<times> 's"
  xpending :: "string \<Rightarrow> string \<Rightarrow> string \<Rightarrow> 's \<Rightarrow> (string \<times> nat) option"
  xack :: "string \<Rightarrow> string \<Rightarrow> string \<Rightarrow> 's \<Rightarrow> nat \<times> 's"
  xinfo_groups :: "string \<Rightarrow> 's \<Rightarrow> string list option"
  xinfo_stream :: "string \<Rightarrow> 's \<Rightarrow> bool"
  server_time :: "'s \<Rightarrow> nat \<times> nat"
  hset :: "string \<Rightarrow> string \<Rightarrow> bytes \<Rightarrow> 's \<Rightarrow> 's"
  hget :: "string \<Rightarrow> string \<Rightarrow> 's \<Rightarrow> bytes option"
  hexists :: "string \<Rightarrow> string \<Rightarrow> 's \<Rightarrow> nat"
  hdel :: "string \<Rightarrow> string \<Rightarrow> 's \<Rightarrow> 's"
  zadd :: "string \<Rightarrow> nat \<Rightarrow> string \<Rightarrow> 's \<Rightarrow> 's"
  zrangebyscore :: "string \<Rightarrow> nat \<Rightarrow> nat \<Rightarrow> 's \<Rightarrow> string list"
  zrem :: "string \<Rightarrow> string \<Rightarrow> 's \<Rightarrow> 's"
  write_u16 :: "u16 \<Rightarrow> bytes"
  read_u16 :: "bytes \<Rightarrow> u16 option"

text \<open>\<open>bounded\<close>: the answer of the server, or an error when the deadline passed first.\<close>

definition bounded :: "redis_link \<Rightarrow> ('s \<Rightarrow> ('e, 'a) result \<times> 's) \<Rightarrow> 's \<Rightarrow> (unit, 'a) result \<times> 's" where
  "bounded link operation s =
     (case link of
        Answered \<Rightarrow> (case operation s of (r, s') \<Rightarrow> (map_error (\<lambda>_. ()) r, s'))
      | ReplyLost \<Rightarrow> (Inl (), snd (operation s))
      | NotSent \<Rightarrow> (Inl (), s))"

section \<open>Publishing and readiness\<close>

definition redis_publish ::
  "'s streams_api \<Rightarrow> string \<Rightarrow> redis_link \<Rightarrow> job_message \<Rightarrow> 's \<Rightarrow> (redis_streams_error, unit) result \<times> 's" where
  "redis_publish api stream link message s =
     (case bounded link (\<lambda>s. case xadd api stream
          [(''payload'', msg_payload message), (''attempt'', write_u16 api (msg_attempt message))] s of
          (i, s') \<Rightarrow> (Inr i :: (unit, string) result, s')) s of
        (Inr _, s') \<Rightarrow> (Inr (), s')
      | (Inl _, s') \<Rightarrow> (Inl RsPublish, s'))"

definition worker_readiness :: "'s streams_api \<Rightarrow> worker_config \<Rightarrow> 's \<Rightarrow> (redis_streams_error, unit) result" where
  "worker_readiness api c s =
     (case xinfo_groups api (wc_stream c) s of None \<Rightarrow> Inl RsReadiness
      | Some groups \<Rightarrow>
          if wc_group c \<notin> set groups then Inl RsConsumerGroup
          else if xinfo_stream api (wc_dead_letter_stream c) s then Inr () else Inl RsReadiness)"

section \<open>Receiving\<close>

record delivery =
  del_consumer :: string
  del_entry_id :: string
  del_payload :: bytes
  del_attempt :: "u16 option"

text \<open>\<open>delivery_from_entry\<close>; a delivery remembers its worker, of which settlement uses the consumer.\<close>

definition attempt_after_redeliveries :: "u16 \<Rightarrow> nat option \<Rightarrow> u16 option" where
  "attempt_after_redeliveries base_attempt pending_deliveries =
     (case pending_deliveries of None \<Rightarrow> Some base_attempt
      | Some deliveries \<Rightarrow>
          if deliveries = 0 then None
          else if deliveries - 1 < u16_bound then u16_checked_add base_attempt (of_nat (deliveries - 1))
          else None)"

definition delivery_from_entry ::
  "'s streams_api \<Rightarrow> worker_config \<Rightarrow> stream_entry \<Rightarrow> nat option \<Rightarrow> delivery" where
  "delivery_from_entry api c entry pending_deliveries =
     (let payload = (case map_of (snd entry) ''payload'' of None \<Rightarrow> [] | Some p \<Rightarrow> p);
          attempt =
            (case Option.bind (map_of (snd entry) ''attempt'') (read_u16 api) of None \<Rightarrow> None
             | Some base \<Rightarrow>
                 (case attempt_after_redeliveries base pending_deliveries of None \<Rightarrow> None
                  | Some a \<Rightarrow> if a > 0 then Some a else None)) in
      \<lparr>del_consumer = wc_consumer c, del_entry_id = fst entry, del_payload = payload, del_attempt = attempt\<rparr>)"

definition read_new ::
  "'s streams_api \<Rightarrow> worker_config \<Rightarrow> nat \<Rightarrow> redis_link \<Rightarrow> 's \<Rightarrow> (redis_streams_error, delivery list) result \<times> 's" where
  "read_new api c capacity link s =
     (case bounded link (\<lambda>s. case xreadgroup api (wc_stream c) (wc_group c) (wc_consumer c)
            (min capacity (wc_batch_size c)) (wc_block_timeout_ms c) s of
          (entries, s') \<Rightarrow> (Inr entries :: (unit, stream_entry list) result, s')) s of
        (Inl _, s') \<Rightarrow> (Inl RsReceive, s')
      | (Inr entries, s') \<Rightarrow> (Inr (map (\<lambda>entry. delivery_from_entry api c entry None) entries), s'))"

definition pending_delivery_count ::
  "'s streams_api \<Rightarrow> worker_config \<Rightarrow> redis_link \<Rightarrow> string \<Rightarrow> 's \<Rightarrow> (redis_streams_error, nat) result" where
  "pending_delivery_count api c link entry_id s =
     (if link \<noteq> Answered then Inl RsReclaim
      else case xpending api (wc_stream c) (wc_group c) entry_id s of
             None \<Rightarrow> Inl RsDeliveryMetadata
           | Some (_, times_delivered) \<Rightarrow> Inr times_delivered)"

fun reclaim_deliveries ::
  "'s streams_api \<Rightarrow> worker_config \<Rightarrow> redis_link list \<Rightarrow> stream_entry list \<Rightarrow> 's \<Rightarrow>
   (redis_streams_error, delivery list) result" where
  "reclaim_deliveries api c links [] s = Inr []"
| "reclaim_deliveries api c links (entry # entries) s =
     bind_result (pending_delivery_count api c (case links of [] \<Rightarrow> Answered | l # _ \<Rightarrow> l) (fst entry) s) (\<lambda>n.
     bind_result (reclaim_deliveries api c (tl links) entries s) (\<lambda>ds.
     Inr (delivery_from_entry api c entry (Some n) # ds)))"

definition reclaim_pending ::
  "'s streams_api \<Rightarrow> worker_config \<Rightarrow> nat \<Rightarrow> redis_link \<Rightarrow> redis_link list \<Rightarrow> 's \<Rightarrow>
   (redis_streams_error, delivery list) result \<times> 's" where
  "reclaim_pending api c max_count link links s =
     (case bounded link (\<lambda>s. case xautoclaim api (wc_stream c) (wc_group c) (wc_consumer c)
            (wc_reclaim_idle_ms c) max_count s of
          (reply, s') \<Rightarrow> (Inr reply :: (unit, autoclaim_reply) result, s')) s of
        (Inl _, s') \<Rightarrow> (Inl RsReclaim, s')
      | (Inr reply, s') \<Rightarrow>
          if ac_deleted_ids reply \<noteq> [] \<or> ac_invalid_entries reply then (Inl RsClaimedEntryMissing, s')
          else (reclaim_deliveries api c links (ac_claimed reply) s', s'))"

section \<open>Settlement scripts\<close>

text \<open>The Lua values the scripts handle.  Only \<open>false\<close> and \<open>nil\<close> are falsy, a missing hash field is
  \<open>false\<close>, and a \<open>redis.call\<close> with an argument that is neither a string nor a number raises an error,
  which ends the script and keeps the effects it had.\<close>

datatype lua_value = LuaFalse | LuaNumber nat | LuaString bytes

definition lua_not :: "lua_value \<Rightarrow> bool" where
  "lua_not v \<longleftrightarrow> v = LuaFalse"

definition lua_hexists :: "'s streams_api \<Rightarrow> string \<Rightarrow> string \<Rightarrow> 's \<Rightarrow> lua_value" where
  "lua_hexists api key field s = LuaNumber (hexists api key field s)"

definition lua_hget :: "'s streams_api \<Rightarrow> string \<Rightarrow> string \<Rightarrow> 's \<Rightarrow> lua_value" where
  "lua_hget api key field s = (case hget api key field s of None \<Rightarrow> LuaFalse | Some v \<Rightarrow> LuaString v)"

definition pending_owned :: "'s streams_api \<Rightarrow> string \<Rightarrow> string \<Rightarrow> string \<Rightarrow> string \<Rightarrow> 's \<Rightarrow> bool" where
  "pending_owned api stream gr entry_id consumer s =
     (case xpending api stream gr entry_id s of None \<Rightarrow> False | Some (owner, _) \<Rightarrow> owner = consumer)"

definition ack_if_owned_script ::
  "'s streams_api \<Rightarrow> string \<Rightarrow> string \<Rightarrow> string \<Rightarrow> string \<Rightarrow> 's \<Rightarrow> nat \<times> 's" where
  "ack_if_owned_script api stream gr entry_id consumer s =
     (if \<not> pending_owned api stream gr entry_id consumer s then (0, s)
      else xack api stream gr entry_id s)"

definition schedule_retry_script ::
  "'s streams_api \<Rightarrow> string \<Rightarrow> string \<Rightarrow> string \<Rightarrow> string \<Rightarrow> string \<Rightarrow> string \<Rightarrow> string \<Rightarrow> string \<Rightarrow> nat \<Rightarrow>
   bytes \<Rightarrow> bytes \<Rightarrow> 's \<Rightarrow> nat \<times> 's" where
  "schedule_retry_script api stream schedule_key payload_key attempt_key gr entry_id consumer retry_id
      delay_ms payload next_attempt s =
     (if \<not> pending_owned api stream gr entry_id consumer s then (0, s)
      else
        let (secs, micros) = server_time api s;
            due = secs * 1000 + micros div 1000 + delay_ms;
            s1 = hset api payload_key retry_id payload s;
            s2 = hset api attempt_key retry_id next_attempt s1;
            s3 = zadd api schedule_key due retry_id s2 in
        xack api stream gr entry_id s3)"

definition dead_letter_if_owned_script ::
  "'s streams_api \<Rightarrow> string \<Rightarrow> string \<Rightarrow> string \<Rightarrow> string \<Rightarrow> string \<Rightarrow> bytes \<Rightarrow> bytes \<Rightarrow> 's \<Rightarrow> nat \<times> 's" where
  "dead_letter_if_owned_script api stream dead_letter_stream gr entry_id consumer payload attempt s =
     (if \<not> pending_owned api stream gr entry_id consumer s then (0, s)
      else
        let (_, s1) = xadd api dead_letter_stream
              [(''payload'', payload), (''attempt'', attempt), (''source_entry_id'', entry_id)] s in
        xack api stream gr entry_id s1)"

definition promote_check :: "'s streams_api \<Rightarrow> string \<Rightarrow> string \<Rightarrow> string list \<Rightarrow> 's \<Rightarrow> bool" where
  "promote_check api payload_key attempt_key ids s =
     list_all (\<lambda>i. \<not> (lua_not (lua_hexists api payload_key i s) \<or> lua_not (lua_hexists api attempt_key i s))) ids"

fun promote_loop ::
  "'s streams_api \<Rightarrow> string \<Rightarrow> string \<Rightarrow> string \<Rightarrow> string \<Rightarrow> string list \<Rightarrow> 's \<Rightarrow> (unit, unit) result \<times> 's" where
  "promote_loop api stream schedule_key payload_key attempt_key [] s = (Inr (), s)"
| "promote_loop api stream schedule_key payload_key attempt_key (i # ids) s =
     (case (lua_hget api payload_key i s, lua_hget api attempt_key i s) of
        (LuaString payload, LuaString attempt) \<Rightarrow>
          (let (_, s1) = xadd api stream [(''payload'', payload), (''attempt'', attempt)] s;
               s2 = hdel api payload_key i s1;
               s3 = hdel api attempt_key i s2;
               s4 = zrem api schedule_key i s3 in
           promote_loop api stream schedule_key payload_key attempt_key ids s4)
      | _ \<Rightarrow> (Inl (), s))"

definition promote_due_retries_script ::
  "'s streams_api \<Rightarrow> string \<Rightarrow> string \<Rightarrow> string \<Rightarrow> string \<Rightarrow> nat \<Rightarrow> 's \<Rightarrow> (unit, nat) result \<times> 's" where
  "promote_due_retries_script api stream schedule_key payload_key attempt_key max_count s =
     (let (secs, micros) = server_time api s;
          now_ms = secs * 1000 + micros div 1000;
          ids = zrangebyscore api schedule_key now_ms max_count s in
      if \<not> promote_check api payload_key attempt_key ids s then (Inl (), s)
      else
        case promote_loop api stream schedule_key payload_key attempt_key ids s of
          (Inl _, s') \<Rightarrow> (Inl (), s')
        | (Inr _, s') \<Rightarrow> (Inr (length ids), s'))"

section \<open>Settlement operations\<close>

text \<open>The reply of a settlement script: an error of the operation, or whether the delivery was still owned.\<close>

definition settled_reply ::
  "redis_streams_error \<Rightarrow> (unit, nat) result \<times> 's \<Rightarrow> (redis_streams_error, unit) result \<times> 's" where
  "settled_reply err r =
     (case r of (Inl _, s') \<Rightarrow> (Inl err, s')
      | (Inr n, s') \<Rightarrow> (if n = 1 then Inr () else Inl RsDeliveryOwnershipLost, s'))"

definition acknowledge ::
  "'s streams_api \<Rightarrow> worker_config \<Rightarrow> redis_link \<Rightarrow> delivery \<Rightarrow> 's \<Rightarrow> (redis_streams_error, unit) result \<times> 's" where
  "acknowledge api c link d s =
     settled_reply RsAcknowledge (bounded link (\<lambda>s.
       case ack_if_owned_script api (wc_stream c) (wc_group c) (del_entry_id d) (del_consumer d) s of
         (n, s') \<Rightarrow> (Inr n :: (unit, nat) result, s')) s)"

definition schedule_retry ::
  "'s streams_api \<Rightarrow> worker_config \<Rightarrow> redis_link \<Rightarrow> delivery \<Rightarrow> u16 \<Rightarrow> duration \<Rightarrow> 's \<Rightarrow>
   (redis_streams_error, unit) result \<times> 's" where
  "schedule_retry api c link d next_attempt delay s =
     (case nonzero_duration_to_millis delay of
        Inl _ \<Rightarrow> (Inl RsRetrySchedule, s)
      | Inr delay_ms \<Rightarrow>
          settled_reply RsRetrySchedule (bounded link (\<lambda>s.
            case schedule_retry_script api (wc_stream c) (wc_retry_schedule_key c) (wc_retry_payload_key c)
                   (wc_retry_attempt_key c) (wc_group c) (del_entry_id d) (del_consumer d) (del_entry_id d)
                   delay_ms (del_payload d) (write_u16 api next_attempt) s of
              (n, s') \<Rightarrow> (Inr n :: (unit, nat) result, s')) s))"

definition dead_letter ::
  "'s streams_api \<Rightarrow> worker_config \<Rightarrow> redis_link \<Rightarrow> delivery \<Rightarrow> 's \<Rightarrow> (redis_streams_error, unit) result \<times> 's" where
  "dead_letter api c link d s =
     settled_reply RsDeadLetter (bounded link (\<lambda>s.
       case dead_letter_if_owned_script api (wc_stream c) (wc_dead_letter_stream c) (wc_group c) (del_entry_id d)
              (del_consumer d) (del_payload d)
              (write_u16 api (case del_attempt d of None \<Rightarrow> 1 | Some a \<Rightarrow> a)) s of
         (n, s') \<Rightarrow> (Inr n :: (unit, nat) result, s')) s)"

definition promote_due_retries ::
  "'s streams_api \<Rightarrow> worker_config \<Rightarrow> nat \<Rightarrow> redis_link \<Rightarrow> 's \<Rightarrow> (redis_streams_error, unit) result \<times> 's" where
  "promote_due_retries api c max_count link s =
     (case bounded link (promote_due_retries_script api (wc_stream c) (wc_retry_schedule_key c)
            (wc_retry_payload_key c) (wc_retry_attempt_key c) max_count) s of
        (Inl _, s') \<Rightarrow> (Inl RsRetryPromotion, s')
      | (Inr _, s') \<Rightarrow> (Inr (), s'))"

section \<open>Processing one delivery\<close>

datatype delivery_outcome = OutAcknowledged | OutRetried | OutDeadLettered | OutUnsettled

definition settle_action ::
  "'s streams_api \<Rightarrow> worker_config \<Rightarrow> redis_link \<Rightarrow> delivery \<Rightarrow> delivery_action \<Rightarrow> 's \<Rightarrow>
   (redis_streams_error, delivery_outcome) result \<times> 's" where
  "settle_action api c link d action s =
     (case action of
        Acknowledge \<Rightarrow>
          (case acknowledge api c link d s of (r, s') \<Rightarrow> (bind_result r (\<lambda>_. Inr OutAcknowledged), s'))
      | Retry next_attempt delay \<Rightarrow>
          (case schedule_retry api c link d next_attempt delay s of (r, s') \<Rightarrow> (bind_result r (\<lambda>_. Inr OutRetried), s'))
      | DeadLetter \<Rightarrow>
          (case dead_letter api c link d s of (r, s') \<Rightarrow> (bind_result r (\<lambda>_. Inr OutDeadLettered), s')))"

text \<open>The part of \<open>process_registry_delivery\<close> before settlement: the action chosen for a delivery, with the
  attempt the observer is told.  A delivery without a usable attempt is dead-lettered unseen.\<close>

definition choose_action ::
  "(bytes \<Rightarrow> string option) \<Rightarrow> 'w job_registry \<Rightarrow> retry_policy \<Rightarrow> delivery \<Rightarrow> 'w \<Rightarrow> (u16 \<times> delivery_action) \<times> 'w" where
  "choose_action read_identity reg policy d w =
     (case del_attempt d of
        None \<Rightarrow> ((1, DeadLetter), w)
      | Some attempt \<Rightarrow>
          (case registry_dispatch read_identity reg (del_payload d) attempt w of
             (Inr action, w') \<Rightarrow> ((attempt, action), w')
           | (Inl (RegHandler _ _), w') \<Rightarrow> ((attempt, after_failure policy attempt), w')
           | (Inl _, w') \<Rightarrow> ((attempt, DeadLetter), w')))"

definition process_registry_delivery ::
  "'s streams_api \<Rightarrow> worker_config \<Rightarrow> redis_link \<Rightarrow> (bytes \<Rightarrow> string option) \<Rightarrow> 'w job_registry \<Rightarrow> retry_policy \<Rightarrow>
   delivery \<Rightarrow> 'w \<Rightarrow> 's \<Rightarrow> ((redis_streams_error, u16 \<times> delivery_outcome) result \<times> 'w) \<times> 's" where
  "process_registry_delivery api c link read_identity reg policy d w s =
     (case choose_action read_identity reg policy d w of
        ((attempt, action), w') \<Rightarrow>
          (case settle_action api c link d action s of
             (r, s') \<Rightarrow> ((bind_result r (\<lambda>outcome. Inr (attempt, outcome)), w'), s')))"

text \<open>\<open>process_delivery\<close> for one typed handler.\<close>

definition choose_typed_action ::
  "('j, 'v) job_json \<Rightarrow> job_type \<Rightarrow> ('j, 'e, 'w) job_handler \<Rightarrow> retry_policy \<Rightarrow> delivery \<Rightarrow> 'w \<Rightarrow>
   (redis_streams_error, u16 \<times> delivery_action) result \<times> 'w" where
  "choose_typed_action json j handler policy d w =
     (case del_attempt d of
        None \<Rightarrow> (Inr (1, DeadLetter), w)
      | Some attempt \<Rightarrow>
          (case envelope_decode json j (del_payload d) of
             Inl _ \<Rightarrow> (Inr (attempt, DeadLetter), w)
           | Inr e \<Rightarrow>
               (case with_attempt attempt e of
                  Inl _ \<Rightarrow> (Inl RsDeliveryMetadata, w)
                | Inr e' \<Rightarrow>
                    (case job_dispatch e' handler w of
                       (Inr action, w') \<Rightarrow> (Inr (attempt, action), w')
                     | (Inl _, w') \<Rightarrow> (Inr (attempt, after_failure policy attempt), w')))))"

definition process_delivery ::
  "'s streams_api \<Rightarrow> worker_config \<Rightarrow> redis_link \<Rightarrow> ('j, 'v) job_json \<Rightarrow> job_type \<Rightarrow> ('j, 'e, 'w) job_handler \<Rightarrow>
   retry_policy \<Rightarrow> delivery \<Rightarrow> 'w \<Rightarrow> 's \<Rightarrow> ((redis_streams_error, u16 \<times> delivery_outcome) result \<times> 'w) \<times> 's" where
  "process_delivery api c link json j handler policy d w s =
     (case choose_typed_action json j handler policy d w of
        (Inl e, w') \<Rightarrow> ((Inl e, w'), s)
      | (Inr (attempt, action), w') \<Rightarrow>
          (case settle_action api c link d action s of
             (r, s') \<Rightarrow> ((bind_result r (\<lambda>outcome. Inr (attempt, outcome)), w'), s')))"

section \<open>The worker loop\<close>

definition validate_retry_policy :: "retry_policy \<Rightarrow> (redis_streams_error, unit) result" where
  "validate_retry_policy p =
     (if retry_policy_is_valid p \<and> \<not> isl (nonzero_duration_to_millis (initial_backoff p)) \<and>
         \<not> isl (nonzero_duration_to_millis (max_backoff p))
      then Inr () else Inl RsRetryPolicy)"

text \<open>The maintenance branch: promote due retries, then reclaim abandoned deliveries.\<close>

definition maintenance_tick ::
  "'s streams_api \<Rightarrow> worker_config \<Rightarrow> nat \<Rightarrow> redis_link \<Rightarrow> redis_link \<Rightarrow> redis_link list \<Rightarrow> 's \<Rightarrow>
   (redis_streams_error, delivery list) result \<times> 's" where
  "maintenance_tick api c available promote_link claim_link count_links s =
     (case promote_due_retries api c (min available (wc_batch_size c)) promote_link s of
        (Inl e, s') \<Rightarrow> (Inl e, s')
      | (Inr _, s') \<Rightarrow> reclaim_pending api c (min available (wc_batch_size c)) claim_link count_links s')"

end
