(* ===== verification/JobsFleet.thy ===== *)
theory JobsFleet
  imports JobsRedis
begin

text \<open>
  Any number of Redis Streams workers on one stream: the documented effect of the server commands on the part
  of the server state that belongs to a worker route, the events of a fleet of workers and producers, and
  what the settlement scripts guarantee for the jobs that are under way.
\<close>

section \<open>Documented server behaviour\<close>

text \<open>
  The observable state of one route: the entries of the source stream in order, how many of them were
  delivered to the group, the pending entries with owner, delivery time and delivery count, the dead-letter entries,
  the retry schedule with its two hashes, and the clock in microseconds.
\<close>

record streams_view =
  sv_entries :: "stream_entry list"
  sv_delivered :: nat
  sv_pending :: "string \<Rightarrow> (string \<times> nat \<times> nat) option"
  sv_dead :: "fields list"
  sv_schedule :: "(string \<times> nat) list"
  sv_payloads :: "string \<Rightarrow> bytes option"
  sv_attempts :: "string \<Rightarrow> bytes option"
  sv_now :: nat

abbreviation entry_ids :: "stream_entry list \<Rightarrow> string set" where
  "entry_ids es \<equiv> fst ` set es"

definition zset_put :: "string \<Rightarrow> nat \<Rightarrow> (string \<times> nat) list \<Rightarrow> (string \<times> nat) list" where
  "zset_put m score z = filter (\<lambda>(m', _). m' \<noteq> m) z @ [(m, score)]"

definition zset_remove :: "string \<Rightarrow> (string \<times> nat) list \<Rightarrow> (string \<times> nat) list" where
  "zset_remove m z = filter (\<lambda>(m', _). m' \<noteq> m) z"

definition claim_pending ::
  "string \<Rightarrow> nat \<Rightarrow> string set \<Rightarrow> (string \<Rightarrow> (string \<times> nat \<times> nat) option) \<Rightarrow> string \<Rightarrow> (string \<times> nat \<times> nat) option" where
  "claim_pending consumer now ids pending =
     (\<lambda>i. if i \<in> ids then map_option (\<lambda>(owner, t, n). (consumer, now, n + 1)) (pending i) else pending i)"

definition append_documented ::
  "'s streams_api \<Rightarrow> ('s \<Rightarrow> streams_view) \<Rightarrow> worker_config \<Rightarrow> bool" where
  "append_documented api view c \<longleftrightarrow>
     (\<forall>f s i s'. xadd api (wc_stream c) f s = (i, s') \<longrightarrow>
        i \<notin> entry_ids (sv_entries (view s)) \<and>
        view s' = (view s)\<lparr>sv_entries := sv_entries (view s) @ [(i, f)]\<rparr>) \<and>
     (\<forall>f s. view (snd (xadd api (wc_dead_letter_stream c) f s)) =
        (view s)\<lparr>sv_dead := sv_dead (view s) @ [f]\<rparr>)"

definition group_documented ::
  "'s streams_api \<Rightarrow> ('s \<Rightarrow> streams_view) \<Rightarrow> worker_config \<Rightarrow> bool" where
  "group_documented api view c \<longleftrightarrow>
     (\<forall>consumer n block s es s'. xreadgroup api (wc_stream c) (wc_group c) consumer n block s = (es, s') \<longrightarrow>
        es = take n (drop (sv_delivered (view s)) (sv_entries (view s))) \<and>
        view s' = (view s)\<lparr>sv_delivered := sv_delivered (view s) + length es,
          sv_pending := (\<lambda>i. if i \<in> entry_ids es then Some (consumer, sv_now (view s), 1) else sv_pending (view s) i)\<rparr>) \<and>
     (\<forall>consumer idle n s r s'. xautoclaim api (wc_stream c) (wc_group c) consumer idle n s = (r, s') \<longrightarrow>
        length (ac_claimed r) \<le> n \<and> set (ac_claimed r) \<subseteq> set (sv_entries (view s)) \<and>
        (\<forall>i \<in> entry_ids (ac_claimed r). \<exists>owner t k. sv_pending (view s) i = Some (owner, t, k) \<and>
           t + idle * 1000 \<le> sv_now (view s)) \<and>
        view s' = (view s)\<lparr>sv_pending :=
          claim_pending consumer (sv_now (view s)) (entry_ids (ac_claimed r)) (sv_pending (view s))\<rparr>) \<and>
     (\<forall>i s. xpending api (wc_stream c) (wc_group c) i s =
        map_option (\<lambda>(owner, t, n). (owner, n)) (sv_pending (view s) i)) \<and>
     (\<forall>i s. fst (xack api (wc_stream c) (wc_group c) i s) = (if sv_pending (view s) i = None then 0 else 1) \<and>
        view (snd (xack api (wc_stream c) (wc_group c) i s)) =
          (view s)\<lparr>sv_pending := (sv_pending (view s))(i := None)\<rparr>)"

definition retry_documented ::
  "'s streams_api \<Rightarrow> ('s \<Rightarrow> streams_view) \<Rightarrow> worker_config \<Rightarrow> bool" where
  "retry_documented api view c \<longleftrightarrow>
     (\<forall>f x s. view (hset api (wc_retry_payload_key c) f x s) = (view s)\<lparr>sv_payloads := (sv_payloads (view s))(f \<mapsto> x)\<rparr>) \<and>
     (\<forall>f x s. view (hset api (wc_retry_attempt_key c) f x s) = (view s)\<lparr>sv_attempts := (sv_attempts (view s))(f \<mapsto> x)\<rparr>) \<and>
     (\<forall>f s. hget api (wc_retry_payload_key c) f s = sv_payloads (view s) f) \<and>
     (\<forall>f s. hget api (wc_retry_attempt_key c) f s = sv_attempts (view s) f) \<and>
     (\<forall>f s. view (hdel api (wc_retry_payload_key c) f s) = (view s)\<lparr>sv_payloads := (sv_payloads (view s))(f := None)\<rparr>) \<and>
     (\<forall>f s. view (hdel api (wc_retry_attempt_key c) f s) = (view s)\<lparr>sv_attempts := (sv_attempts (view s))(f := None)\<rparr>) \<and>
     (\<forall>m score s. view (zadd api (wc_retry_schedule_key c) score m s) =
        (view s)\<lparr>sv_schedule := zset_put m score (sv_schedule (view s))\<rparr>) \<and>
     (\<forall>m s. view (zrem api (wc_retry_schedule_key c) m s) =
        (view s)\<lparr>sv_schedule := zset_remove m (sv_schedule (view s))\<rparr>) \<and>
     (\<forall>limit n s. distinct (zrangebyscore api (wc_retry_schedule_key c) limit n s) \<and>
        set (zrangebyscore api (wc_retry_schedule_key c) limit n s) \<subseteq>
          {m. \<exists>score \<le> limit. (m, score) \<in> set (sv_schedule (view s))} \<and>
        length (zrangebyscore api (wc_retry_schedule_key c) limit n s) =
          min n (card {m. \<exists>score \<le> limit. (m, score) \<in> set (sv_schedule (view s))}))"

definition clock_documented ::
  "'s streams_api \<Rightarrow> ('s \<Rightarrow> streams_view) \<Rightarrow> (nat \<Rightarrow> 's \<Rightarrow> 's) \<Rightarrow> bool" where
  "clock_documented api view elapse \<longleftrightarrow>
     (\<forall>s. server_time api s = (sv_now (view s) div 1000000, sv_now (view s) mod 1000000)) \<and>
     (\<forall>t s. view (elapse t s) = (view s)\<lparr>sv_now := sv_now (view s) + t\<rparr>) \<and>
     (\<forall>a. read_u16 api (write_u16 api a) = Some a)"

section \<open>Events\<close>

text \<open>
  The deliveries held by the workers of the fleet, each with the action chosen for it once its handler has
  run.  Handling and settling are separate events, so another worker may reclaim the entry in between.
  A delivery may be abandoned, when its handler panics or its task is cancelled, and a worker may crash with
  all its deliveries; what their handlers had done until then is part of the event.
\<close>

record ('s, 'w) fleet_env =
  fe_api :: "'s streams_api"
  fe_config :: worker_config
  fe_elapse :: "nat \<Rightarrow> 's \<Rightarrow> 's"
  fe_identity :: "bytes \<Rightarrow> string option"
  fe_registry :: "'w job_registry"
  fe_policy :: retry_policy

record ('s, 'w) fleet =
  fl_server :: 's
  fl_world :: 'w
  fl_held :: "(delivery \<times> (u16 \<times> delivery_action) option) list"

datatype 'w fleet_event =
    Publish job_message redis_link
  | ReadNew string nat redis_link
  | Tick string nat redis_link redis_link "redis_link list"
  | Handle nat
  | Settle nat redis_link
  | Abandon nat 'w
  | Crash string 'w
  | Elapse nat

definition received :: "(redis_streams_error, delivery list) result \<Rightarrow> (delivery \<times> (u16 \<times> delivery_action) option) list" where
  "received r = (case r of Inl _ \<Rightarrow> [] | Inr ds \<Rightarrow> map (\<lambda>d. (d, None)) ds)"

fun fleet_step :: "('s, 'w) fleet_env \<Rightarrow> 'w fleet_event \<Rightarrow> ('s, 'w) fleet \<Rightarrow> ('s, 'w) fleet" where
  "fleet_step env (Publish message link) fl =
     fl\<lparr>fl_server := snd (redis_publish (fe_api env) (wc_stream (fe_config env)) link message (fl_server fl))\<rparr>"
| "fleet_step env (ReadNew consumer capacity link) fl =
     (case read_new (fe_api env) ((fe_config env)\<lparr>wc_consumer := consumer\<rparr>) capacity link (fl_server fl) of
        (r, s') \<Rightarrow> fl\<lparr>fl_server := s', fl_held := fl_held fl @ received r\<rparr>)"
| "fleet_step env (Tick consumer available promote_link claim_link links) fl =
     (case maintenance_tick (fe_api env) ((fe_config env)\<lparr>wc_consumer := consumer\<rparr>) available promote_link claim_link
            links (fl_server fl) of
        (r, s') \<Rightarrow> fl\<lparr>fl_server := s', fl_held := fl_held fl @ received r\<rparr>)"
| "fleet_step env (Handle i) fl =
     (if i < length (fl_held fl) \<and> snd (fl_held fl ! i) = None then
        (case choose_action (fe_identity env) (fe_registry env) (fe_policy env) (fst (fl_held fl ! i)) (fl_world fl) of
           (choice, w') \<Rightarrow>
             fl\<lparr>fl_world := w', fl_held := (fl_held fl)[i := (fst (fl_held fl ! i), Some choice)]\<rparr>)
      else fl)"
| "fleet_step env (Settle i link) fl =
     (if i < length (fl_held fl) then
        (case fl_held fl ! i of
           (d, None) \<Rightarrow> fl
         | (d, Some (attempt, action)) \<Rightarrow>
             fl\<lparr>fl_server := snd (settle_action (fe_api env) (fe_config env) link d action (fl_server fl)),
                fl_held := take i (fl_held fl) @ drop (i + 1) (fl_held fl)\<rparr>)
      else fl)"
| "fleet_step env (Abandon i w) fl = fl\<lparr>fl_world := w, fl_held := take i (fl_held fl) @ drop (i + 1) (fl_held fl)\<rparr>"
| "fleet_step env (Crash consumer w) fl =
     fl\<lparr>fl_world := w, fl_held := filter (\<lambda>(d, _). del_consumer d \<noteq> consumer) (fl_held fl)\<rparr>"
| "fleet_step env (Elapse t) fl = fl\<lparr>fl_server := fe_elapse env t (fl_server fl)\<rparr>"

fun fleet_run :: "('s, 'w) fleet_env \<Rightarrow> 'w fleet_event list \<Rightarrow> ('s, 'w) fleet \<Rightarrow> ('s, 'w) fleet" where
  "fleet_run env [] fl = fl"
| "fleet_run env (e # es) fl = fleet_run env es (fleet_step env e fl)"

text \<open>The payload that an event adds to the stream, and the one whose acknowledgement it carries out.\<close>

fun published_by :: "'w fleet_event \<Rightarrow> bytes multiset" where
  "published_by (Publish message link) = (if link = NotSent then {#} else {#msg_payload message#})"
| "published_by _ = {#}"

fun acknowledged_by :: "('s, 'w) fleet_env \<Rightarrow> 'w fleet_event \<Rightarrow> ('s, 'w) fleet \<Rightarrow> bytes multiset" where
  "acknowledged_by env (Settle i link) fl =
     (if i < length (fl_held fl) \<and> link \<noteq> NotSent \<and>
         (case snd (fl_held fl ! i) of Some (_, Acknowledge) \<Rightarrow> True | _ \<Rightarrow> False) \<and>
         pending_owned (fe_api env) (wc_stream (fe_config env)) (wc_group (fe_config env))
           (del_entry_id (fst (fl_held fl ! i))) (del_consumer (fst (fl_held fl ! i))) (fl_server fl)
      then {#del_payload (fst (fl_held fl ! i))#} else {#})"
| "acknowledged_by env _ fl = {#}"

fun run_published :: "'w fleet_event list \<Rightarrow> bytes multiset" where
  "run_published [] = {#}"
| "run_published (e # es) = published_by e + run_published es"

fun run_acknowledged :: "('s, 'w) fleet_env \<Rightarrow> 'w fleet_event list \<Rightarrow> ('s, 'w) fleet \<Rightarrow> bytes multiset" where
  "run_acknowledged env [] fl = {#}"
| "run_acknowledged env (e # es) fl = acknowledged_by env e fl + run_acknowledged env es (fleet_step env e fl)"

section \<open>Jobs under way\<close>

definition entry_payload :: "fields \<Rightarrow> bytes" where
  "entry_payload f = (case map_of f ''payload'' of None \<Rightarrow> [] | Some p \<Rightarrow> p)"

definition is_pending :: "streams_view \<Rightarrow> string \<Rightarrow> bool" where
  "is_pending v i \<longleftrightarrow> sv_pending v i \<noteq> None"

text \<open>The payloads in the stream that are not yet delivered or still pending, in the retry store, and in the
  dead-letter stream.\<close>

definition live :: "streams_view \<Rightarrow> bytes multiset" where
  "live v = image_mset (entry_payload \<circ> snd)
     (filter_mset (\<lambda>e. is_pending v (fst e)) (mset (take (sv_delivered v) (sv_entries v))) +
      mset (drop (sv_delivered v) (sv_entries v)))"

definition retrying :: "streams_view \<Rightarrow> bytes multiset" where
  "retrying v = image_mset (\<lambda>(i, _). the (sv_payloads v i)) (mset (sv_schedule v))"

definition dead :: "streams_view \<Rightarrow> bytes multiset" where
  "dead v = image_mset entry_payload (mset (sv_dead v))"

definition outstanding :: "streams_view \<Rightarrow> bytes multiset" where
  "outstanding v = live v + retrying v + dead v"

definition streams_inv :: "streams_view \<Rightarrow> bool" where
  "streams_inv v \<longleftrightarrow>
     distinct (map fst (sv_entries v)) \<and> sv_delivered v \<le> length (sv_entries v) \<and>
     (\<forall>i. is_pending v i \<longrightarrow> i \<in> entry_ids (take (sv_delivered v) (sv_entries v))) \<and>
     distinct (map fst (sv_schedule v)) \<and>
     (\<forall>i \<in> fst ` set (sv_schedule v). i \<in> entry_ids (take (sv_delivered v) (sv_entries v)) \<and> \<not> is_pending v i \<and>
        sv_payloads v i \<noteq> None \<and> sv_attempts v i \<noteq> None)"

definition held_inv :: "streams_view \<Rightarrow> (delivery \<times> 'a) list \<Rightarrow> bool" where
  "held_inv v held \<longleftrightarrow>
     (\<forall>(d, _) \<in> set held. \<exists>f. (del_entry_id d, f) \<in> set (take (sv_delivered v) (sv_entries v)) \<and>
        entry_payload f = del_payload d)"

section \<open>Effects on the jobs under way\<close>

lemma streams_invD:
  assumes "streams_inv v"
  shows "distinct (map fst (sv_entries v))" "sv_delivered v \<le> length (sv_entries v)"
    "is_pending v i \<Longrightarrow> i \<in> entry_ids (take (sv_delivered v) (sv_entries v))"
    "distinct (map fst (sv_schedule v))"
    "i \<in> fst ` set (sv_schedule v) \<Longrightarrow> i \<in> entry_ids (take (sv_delivered v) (sv_entries v)) \<and> \<not> is_pending v i \<and>
       sv_payloads v i \<noteq> None \<and> sv_attempts v i \<noteq> None"
proof -
  note inv = assms [unfolded streams_inv_def]
  show "distinct (map fst (sv_entries v))" "sv_delivered v \<le> length (sv_entries v)"
    "is_pending v i \<Longrightarrow> i \<in> entry_ids (take (sv_delivered v) (sv_entries v))"
    "distinct (map fst (sv_schedule v))" using inv by blast+
  assume "i \<in> fst ` set (sv_schedule v)"
  then show "i \<in> entry_ids (take (sv_delivered v) (sv_entries v)) \<and> \<not> is_pending v i \<and>
      sv_payloads v i \<noteq> None \<and> sv_attempts v i \<noteq> None"
    using inv by (elim conjE) (rule bspec)
qed

lemma held_inv_prefix:
  assumes "held_inv v held" "take (sv_delivered v') (sv_entries v') = take (sv_delivered v) (sv_entries v) @ es"
  shows "held_inv v' held"
  using assms by (fastforce simp: held_inv_def)

lemma distinct_ids_unique:
  assumes "distinct (map fst es)" "(i, f) \<in> set es" "(i, g) \<in> set es"
  shows "f = g"
  using assms by (metis map_of_is_SomeI option.inject)

subsection \<open>Appending\<close>

lemma append_effect:
  fixes f :: fields
  assumes "streams_inv v" "i \<notin> entry_ids (sv_entries v)"
  defines "v' \<equiv> v\<lparr>sv_entries := sv_entries v @ [(i, f)]\<rparr>"
  shows "streams_inv v'" "live v' = add_mset (entry_payload f) (live v)" "retrying v' = retrying v" "dead v' = dead v"
    "take (sv_delivered v') (sv_entries v') = take (sv_delivered v) (sv_entries v) @ []"
proof -
  have n: "sv_delivered v \<le> length (sv_entries v)" by (rule streams_invD(2) [OF assms(1)])
  then show t: "take (sv_delivered v') (sv_entries v') = take (sv_delivered v) (sv_entries v) @ []"
    by (simp add: v'_def)
  have pend: "is_pending v' k = is_pending v k" for k by (simp add: is_pending_def v'_def)
  from n show "live v' = add_mset (entry_payload f) (live v)" unfolding live_def pend by (simp add: v'_def)
  show "retrying v' = retrying v" "dead v' = dead v" by (simp_all add: retrying_def dead_def v'_def)
  from assms(1,2) n t show "streams_inv v'" unfolding streams_inv_def pend by (simp add: v'_def)
qed

subsection \<open>Acknowledging\<close>

lemma split_by_id:
  "distinct (map fst xs) \<Longrightarrow> (i, f) \<in> set xs \<Longrightarrow> \<exists>R. mset xs = add_mset (i, f) R \<and> (\<forall>x \<in># R. fst x \<noteq> i)"
proof (induction xs)
  case (Cons x xs)
  show ?case
  proof (cases "x = (i, f)")
    case True
    with Cons.prems show ?thesis by (intro exI [of _ "mset xs"]) (auto simp: rev_image_eqI)
  next
    case False
    with Cons obtain R where "mset xs = add_mset (i, f) R" "\<forall>x \<in># R. fst x \<noteq> i" by auto
    moreover have "fst x \<noteq> i" using Cons.prems False by (auto simp: rev_image_eqI)
    ultimately show ?thesis by (intro exI [of _ "add_mset x R"]) auto
  qed
qed simp

lemma is_pending_ack: "is_pending (v\<lparr>sv_pending := (sv_pending v)(i := None)\<rparr>) k \<longleftrightarrow> k \<noteq> i \<and> is_pending v k"
  by (simp add: is_pending_def)

lemma ack_effect:
  assumes inv: "streams_inv v" and e: "(i, f) \<in> set (take (sv_delivered v) (sv_entries v))" and p: "is_pending v i"
  defines "v' \<equiv> v\<lparr>sv_pending := (sv_pending v)(i := None)\<rparr>"
  shows "streams_inv v'" "live v = add_mset (entry_payload f) (live v')" "retrying v' = retrying v" "dead v' = dead v"
proof -
  let ?T = "take (sv_delivered v) (sv_entries v)"
  have dist: "distinct (map fst ?T)"
    using streams_invD(1) [OF inv] by (simp add: take_map [symmetric] distinct_take)
  obtain R where R: "mset ?T = add_mset (i, f) R" "\<forall>x \<in># R. fst x \<noteq> i"
    using split_by_id [OF dist e] by (elim exE conjE)
  have pend: "is_pending v' k \<longleftrightarrow> k \<noteq> i \<and> is_pending v k" for k unfolding v'_def by (rule is_pending_ack)
  have "filter_mset (\<lambda>x. is_pending v' (fst x)) (mset ?T) = filter_mset (\<lambda>x. is_pending v' (fst x)) R"
    unfolding R(1) by (simp add: pend)
  also have "\<dots> = filter_mset (\<lambda>x. is_pending v (fst x)) R"
    using R(2) by (intro filter_mset_cong refl) (simp add: pend)
  finally have "filter_mset (\<lambda>x. is_pending v' (fst x)) (mset ?T) = filter_mset (\<lambda>x. is_pending v (fst x)) R" .
  moreover have "filter_mset (\<lambda>x. is_pending v (fst x)) (mset ?T) = add_mset (i, f) (filter_mset (\<lambda>x. is_pending v (fst x)) R)"
    unfolding R(1) using p by simp
  moreover have "sv_delivered v' = sv_delivered v" "sv_entries v' = sv_entries v" by (simp_all add: v'_def)
  ultimately show "live v = add_mset (entry_payload f) (live v')" by (simp add: live_def)
  show "retrying v' = retrying v" "dead v' = dead v" by (simp_all add: retrying_def dead_def v'_def)
  from inv show "streams_inv v'" unfolding streams_inv_def pend by (simp add: v'_def)
qed

subsection \<open>Delivering\<close>

lemma read_effect:
  fixes consumer :: string
  assumes inv: "streams_inv v" and es: "es = take n (drop (sv_delivered v) (sv_entries v))"
  defines "v' \<equiv> v\<lparr>sv_delivered := sv_delivered v + length es,
    sv_pending := (\<lambda>i. if i \<in> entry_ids es then Some (consumer, sv_now v, 1) else sv_pending v i)\<rparr>"
  shows "streams_inv v'" "live v' = live v" "retrying v' = retrying v" "dead v' = dead v"
    "take (sv_delivered v') (sv_entries v') = take (sv_delivered v) (sv_entries v) @ es"
proof -
  let ?T = "take (sv_delivered v) (sv_entries v)"
  have es': "take (length es) (drop (sv_delivered v) (sv_entries v)) = es" unfolding es by (simp add: min_def)
  then show t: "take (sv_delivered v') (sv_entries v') = ?T @ es" by (simp add: v'_def take_add)
  have d: "drop (sv_delivered v) (sv_entries v) = es @ drop (sv_delivered v') (sv_entries v')"
  proof -
    from es' have "drop (sv_delivered v) (sv_entries v) = es @ drop (length es) (drop (sv_delivered v) (sv_entries v))"
      by (metis append_take_drop_id)
    then show ?thesis by (simp add: v'_def add.commute)
  qed
  have all: "sv_entries v = ?T @ es @ drop (sv_delivered v') (sv_entries v')"
    using d by (metis append_take_drop_id)
  have apart: "entry_ids ?T \<inter> entry_ids es = {}"
    using streams_invD(1) [OF inv] by (subst (asm) all) auto
  have pend: "is_pending v' i \<longleftrightarrow> i \<in> entry_ids es \<or> is_pending v i" for i by (simp add: is_pending_def v'_def)
  have "filter_mset (\<lambda>x. is_pending v' (fst x)) (mset (?T @ es)) =
      filter_mset (\<lambda>x. is_pending v (fst x)) (mset ?T) + mset es"
  proof -
    have "filter_mset (\<lambda>x. is_pending v' (fst x)) (mset ?T) =
        filter_mset (\<lambda>x. is_pending v (fst x)) (mset ?T)"
      using apart by (intro filter_mset_cong refl) (auto simp: pend)
    moreover have "filter_mset (\<lambda>x. is_pending v' (fst x)) (mset es) = filter_mset (\<lambda>_. True) (mset es)"
      by (intro filter_mset_cong refl) (auto simp: pend)
    ultimately show ?thesis by simp
  qed
  then show "live v' = live v" unfolding live_def t d by (simp add: ac_simps)
  show "retrying v' = retrying v" "dead v' = dead v" by (simp_all add: retrying_def dead_def v'_def)
  have "sv_delivered v' \<le> length (sv_entries v')" using streams_invD(2) [OF inv] es by (simp add: v'_def)
  moreover have "i \<notin> entry_ids es" if "i \<in> fst ` set (sv_schedule v)" for i
    using streams_invD(5) [OF inv that] apart by blast
  ultimately show "streams_inv v'"
    using inv t pend unfolding streams_inv_def by (simp add: v'_def image_Un)
qed

lemma claim_effect:
  fixes consumer :: string and t :: nat and ids :: "string set"
  assumes inv: "streams_inv v"
  defines "v' \<equiv> v\<lparr>sv_pending := claim_pending consumer t ids (sv_pending v)\<rparr>"
  shows "streams_inv v'" "live v' = live v" "retrying v' = retrying v" "dead v' = dead v"
proof -
  have p: "is_pending v' i \<longleftrightarrow> is_pending v i" for i by (simp add: v'_def claim_pending_def is_pending_def)
  show "live v' = live v" unfolding live_def p by (simp add: v'_def)
  show "retrying v' = retrying v" "dead v' = dead v" by (simp_all add: retrying_def dead_def v'_def)
  show "streams_inv v'" using inv unfolding streams_inv_def p by (simp add: v'_def)
qed

subsection \<open>Retry store and dead letters\<close>

lemma zset_put_fresh: "m \<notin> fst ` set z \<Longrightarrow> zset_put m score z = z @ [(m, score)]"
  by (auto simp: zset_put_def filter_id_conv rev_image_eqI)

lemma schedule_effect:
  fixes p a :: bytes and due :: nat
  assumes inv: "streams_inv v" and pend: "is_pending v i"
  defines "v' \<equiv> v\<lparr>sv_payloads := (sv_payloads v)(i \<mapsto> p), sv_attempts := (sv_attempts v)(i \<mapsto> a),
    sv_schedule := zset_put i due (sv_schedule v), sv_pending := (sv_pending v)(i := None)\<rparr>"
  shows "streams_inv v'" "live v' = live (v\<lparr>sv_pending := (sv_pending v)(i := None)\<rparr>)"
    "retrying v' = add_mset p (retrying v)" "dead v' = dead v"
proof -
  have fresh: "i \<notin> fst ` set (sv_schedule v)" using streams_invD(5) [OF inv, of i] pend by blast
  then have put: "sv_schedule v' = sv_schedule v @ [(i, due)]" by (simp add: v'_def zset_put_fresh)
  have "image_mset (\<lambda>(k, _). the (sv_payloads v' k)) (mset (sv_schedule v)) =
      image_mset (\<lambda>(k, _). the (sv_payloads v k)) (mset (sv_schedule v))"
    using fresh by (intro image_mset_cong) (force simp: v'_def)
  then show "retrying v' = add_mset p (retrying v)" by (simp add: retrying_def put) (simp add: v'_def)
  show "live v' = live (v\<lparr>sv_pending := (sv_pending v)(i := None)\<rparr>)"
    by (simp add: live_def v'_def is_pending_def)
  show "dead v' = dead v" by (simp add: dead_def v'_def)
  have pend': "is_pending v' k \<longleftrightarrow> k \<noteq> i \<and> is_pending v k" for k by (simp add: is_pending_def v'_def)
  have "i \<in> entry_ids (take (sv_delivered v) (sv_entries v))" by (rule streams_invD(3) [OF inv pend])
  moreover have "sv_entries v' = sv_entries v" "sv_delivered v' = sv_delivered v" by (simp_all add: v'_def)
  ultimately show "streams_inv v'"
    using inv fresh pend' unfolding streams_inv_def put by (simp add: v'_def)
qed

lemma unschedule_effect:
  assumes inv: "streams_inv v" and sched: "i \<in> fst ` set (sv_schedule v)" and p: "sv_payloads v i = Some p"
  defines "v' \<equiv> v\<lparr>sv_payloads := (sv_payloads v)(i := None), sv_attempts := (sv_attempts v)(i := None),
    sv_schedule := zset_remove i (sv_schedule v)\<rparr>"
  shows "streams_inv v'" "live v' = live v" "retrying v = add_mset p (retrying v')" "dead v' = dead v"
    "fst ` set (sv_schedule v') = fst ` set (sv_schedule v) - {i}"
    "\<And>k. k \<noteq> i \<Longrightarrow> sv_payloads v' k = sv_payloads v k"
proof -
  have dist: "distinct (map fst (sv_schedule v))" by (rule streams_invD(4) [OF inv])
  obtain score where sc: "(i, score) \<in> set (sv_schedule v)" using sched by auto
  obtain R where R: "mset (sv_schedule v) = add_mset (i, score) R" "\<forall>x \<in># R. fst x \<noteq> i"
    using split_by_id [OF dist sc] by (elim exE conjE)
  have "mset (zset_remove i (sv_schedule v)) = filter_mset (\<lambda>(k, _). k \<noteq> i) (mset (sv_schedule v))"
    by (simp add: zset_remove_def)
  also have "\<dots> = filter_mset (\<lambda>(k, _). k \<noteq> i) R" unfolding R(1) by simp
  also have "\<dots> = filter_mset (\<lambda>_. True) R" using R(2) by (intro filter_mset_cong refl) auto
  finally have "sv_schedule v' = zset_remove i (sv_schedule v)" "mset (zset_remove i (sv_schedule v)) = R"
    by (simp_all add: v'_def)
  moreover have "image_mset (\<lambda>(k, _). the (sv_payloads v k)) R = image_mset (\<lambda>(k, _). the (sv_payloads v' k)) R"
    using R(2) by (intro image_mset_cong) (force simp: v'_def)
  ultimately show "retrying v = add_mset p (retrying v')" using p by (simp add: retrying_def R(1))
  show "live v' = live v" "dead v' = dead v" by (simp_all add: live_def dead_def v'_def is_pending_def)
  show set: "fst ` set (sv_schedule v') = fst ` set (sv_schedule v) - {i}" by (force simp: v'_def zset_remove_def)
  show "\<And>k. k \<noteq> i \<Longrightarrow> sv_payloads v' k = sv_payloads v k" by (simp add: v'_def)
  have "distinct (map fst (sv_schedule v'))"
    using dist by (simp add: v'_def zset_remove_def distinct_map_filter)
  moreover have "sv_attempts v' k = sv_attempts v k" "sv_payloads v' k = sv_payloads v k" if "k \<noteq> i" for k
    using that by (simp_all add: v'_def)
  moreover have "sv_entries v' = sv_entries v" "sv_delivered v' = sv_delivered v" "is_pending v' k = is_pending v k" for k
    by (simp_all add: v'_def is_pending_def)
  ultimately show "streams_inv v'" using inv unfolding streams_inv_def set by auto
qed

lemma dead_effect:
  fixes f :: fields
  assumes "streams_inv v"
  defines "v' \<equiv> v\<lparr>sv_dead := sv_dead v @ [f]\<rparr>"
  shows "streams_inv v'" "live v' = live v" "retrying v' = retrying v" "dead v' = add_mset (entry_payload f) (dead v)"
  using assms by (simp_all add: streams_inv_def live_def retrying_def dead_def is_pending_def)

section \<open>Effects of the operations\<close>

definition fleet_documented :: "('s, 'w) fleet_env \<Rightarrow> ('s \<Rightarrow> streams_view) \<Rightarrow> bool" where
  "fleet_documented env view \<longleftrightarrow>
     append_documented (fe_api env) view (fe_config env) \<and> group_documented (fe_api env) view (fe_config env) \<and>
     retry_documented (fe_api env) view (fe_config env) \<and> clock_documented (fe_api env) view (fe_elapse env)"

lemma snd_bounded: "snd (bounded link operation s) = (if link = NotSent then s else snd (operation s))"
  by (cases link) (auto simp: bounded_def split: prod.splits)

lemma snd_settled_reply [simp]: "snd (settled_reply err r) = snd r"
  by (auto simp: settled_reply_def split: prod.splits sum.splits)

lemma snd_case_prod_Inr: "snd (case r of (x, s') \<Rightarrow> (f x, s')) = snd r"
  by (cases r) simp

text \<open>The commands as equations on the observable state.\<close>

lemma documentedD:
  assumes "fleet_documented env view"
  defines "api \<equiv> fe_api env" and "c \<equiv> fe_config env"
  shows "xadd api (wc_stream c) f s = (i, s') \<Longrightarrow> i \<notin> entry_ids (sv_entries (view s)) \<and>
      view s' = (view s)\<lparr>sv_entries := sv_entries (view s) @ [(i, f)]\<rparr>"
    and "view (snd (xadd api (wc_dead_letter_stream c) f s)) = (view s)\<lparr>sv_dead := sv_dead (view s) @ [f]\<rparr>"
    and "xpending api (wc_stream c) (wc_group c) i s = map_option (\<lambda>(owner, t, n). (owner, n)) (sv_pending (view s) i)"
    and "view (snd (xack api (wc_stream c) (wc_group c) i s)) = (view s)\<lparr>sv_pending := (sv_pending (view s))(i := None)\<rparr>"
    and "view (hset api (wc_retry_payload_key c) h x s) = (view s)\<lparr>sv_payloads := (sv_payloads (view s))(h \<mapsto> x)\<rparr>"
    and "view (hset api (wc_retry_attempt_key c) h x s) = (view s)\<lparr>sv_attempts := (sv_attempts (view s))(h \<mapsto> x)\<rparr>"
    and "hget api (wc_retry_payload_key c) h s = sv_payloads (view s) h"
    and "hget api (wc_retry_attempt_key c) h s = sv_attempts (view s) h"
    and "view (hdel api (wc_retry_payload_key c) h s) = (view s)\<lparr>sv_payloads := (sv_payloads (view s))(h := None)\<rparr>"
    and "view (hdel api (wc_retry_attempt_key c) h s) = (view s)\<lparr>sv_attempts := (sv_attempts (view s))(h := None)\<rparr>"
    and "view (zadd api (wc_retry_schedule_key c) score m s) = (view s)\<lparr>sv_schedule := zset_put m score (sv_schedule (view s))\<rparr>"
    and "view (zrem api (wc_retry_schedule_key c) m s) = (view s)\<lparr>sv_schedule := zset_remove m (sv_schedule (view s))\<rparr>"
    and "view (fe_elapse env t s) = (view s)\<lparr>sv_now := sv_now (view s) + t\<rparr>"
    and "server_time api s = (sv_now (view s) div 1000000, sv_now (view s) mod 1000000)"
    and "read_u16 api (write_u16 api a) = Some a"
  using assms(1)
  unfolding fleet_documented_def append_documented_def group_documented_def retry_documented_def clock_documented_def
    api_def c_def by simp_all

lemma documented_read:
  assumes "fleet_documented env view"
    and "xreadgroup (fe_api env) (wc_stream (fe_config env)) (wc_group (fe_config env)) consumer n block s = (es, s')"
  shows "es = take n (drop (sv_delivered (view s)) (sv_entries (view s))) \<and>
    view s' = (view s)\<lparr>sv_delivered := sv_delivered (view s) + length es,
      sv_pending := (\<lambda>i. if i \<in> entry_ids es then Some (consumer, sv_now (view s), 1) else sv_pending (view s) i)\<rparr>"
  using assms(1) unfolding fleet_documented_def group_documented_def
  by (elim conjE) (drule spec, drule spec, drule spec, drule spec, drule spec, drule spec, erule mp, rule assms(2))

lemma documented_claim:
  assumes "fleet_documented env view"
    and "xautoclaim (fe_api env) (wc_stream (fe_config env)) (wc_group (fe_config env)) consumer idle n s = (r, s')"
  shows "length (ac_claimed r) \<le> n \<and> set (ac_claimed r) \<subseteq> set (sv_entries (view s)) \<and>
    (\<forall>i \<in> entry_ids (ac_claimed r). \<exists>owner t k. sv_pending (view s) i = Some (owner, t, k) \<and>
       t + idle * 1000 \<le> sv_now (view s)) \<and>
    view s' = (view s)\<lparr>sv_pending :=
      claim_pending consumer (sv_now (view s)) (entry_ids (ac_claimed r)) (sv_pending (view s))\<rparr>"
  using assms(1) unfolding fleet_documented_def group_documented_def
  by (elim conjE) (drule spec, drule spec, drule spec, drule spec, drule spec, drule spec, erule mp, rule assms(2))

lemma documented_due:
  assumes "fleet_documented env view"
    and "zrangebyscore (fe_api env) (wc_retry_schedule_key (fe_config env)) limit n s = ids"
  shows "distinct ids \<and> set ids \<subseteq> {m. \<exists>score \<le> limit. (m, score) \<in> set (sv_schedule (view s))} \<and>
    length ids = min n (card {m. \<exists>score \<le> limit. (m, score) \<in> set (sv_schedule (view s))})"
  using assms(1) unfolding fleet_documented_def retry_documented_def assms(2) [symmetric]
  by (elim conjE) (drule spec, drule spec, drule spec, assumption)

lemma pending_owned_is_pending:
  assumes "fleet_documented env view"
    and "pending_owned (fe_api env) (wc_stream (fe_config env)) (wc_group (fe_config env)) i consumer s"
  shows "is_pending (view s) i"
  using assms(2) by (auto simp: pending_owned_def documentedD(3) [OF assms(1)] is_pending_def split: option.splits)

subsection \<open>Settling\<close>

text \<open>What settling a delivery does to the observable state, when the entry is still owned and the command
  reaches the server.\<close>

definition settled_view :: "('s, 'w) fleet_env \<Rightarrow> delivery \<Rightarrow> delivery_action \<Rightarrow> streams_view \<Rightarrow> streams_view" where
  "settled_view env d action v =
     (let i = del_entry_id d; acked = v\<lparr>sv_pending := (sv_pending v)(i := None)\<rparr> in
      case action of
        Acknowledge \<Rightarrow> acked
      | Retry next_attempt delay \<Rightarrow>
          (case nonzero_duration_to_millis delay of Inl _ \<Rightarrow> v
           | Inr ms \<Rightarrow>
               v\<lparr>sv_payloads := (sv_payloads v)(i \<mapsto> del_payload d),
                 sv_attempts := (sv_attempts v)(i \<mapsto> write_u16 (fe_api env) next_attempt),
                 sv_schedule := zset_put i (sv_now v div 1000 + ms) (sv_schedule v),
                 sv_pending := (sv_pending v)(i := None)\<rparr>)
      | DeadLetter \<Rightarrow>
          acked\<lparr>sv_dead := sv_dead v @ [[(''payload'', del_payload d),
            (''attempt'', write_u16 (fe_api env) (case del_attempt d of None \<Rightarrow> 1 | Some a \<Rightarrow> a)),
            (''source_entry_id'', i)]]\<rparr>)"

lemma micros_to_millis: "(t div 1000000) * 1000 + t mod 1000000 div 1000 = t div (1000 :: nat)"
proof -
  have "t = 1000 * (t div 1000000 * 1000) + t mod 1000000" using div_mult_mod_eq [of t 1000000] by simp
  then have "t div 1000 = (1000 * (t div 1000000 * 1000) + t mod 1000000) div 1000" by (rule arg_cong)
  also have "\<dots> = (t div 1000000) * 1000 + t mod 1000000 div 1000" by (rule div_mult_self4) simp
  finally show ?thesis by (rule sym)
qed

lemma script_views:
  assumes doc: "fleet_documented env view"
  defines "api \<equiv> fe_api env" and "c \<equiv> fe_config env"
  shows "view (snd (ack_if_owned_script api (wc_stream c) (wc_group c) i consumer s)) =
      (if pending_owned api (wc_stream c) (wc_group c) i consumer s
       then (view s)\<lparr>sv_pending := (sv_pending (view s))(i := None)\<rparr> else view s)"
    and "view (snd (schedule_retry_script api (wc_stream c) (wc_retry_schedule_key c) (wc_retry_payload_key c)
        (wc_retry_attempt_key c) (wc_group c) i consumer i ms p a s)) =
      (if pending_owned api (wc_stream c) (wc_group c) i consumer s
       then (view s)\<lparr>sv_payloads := (sv_payloads (view s))(i \<mapsto> p), sv_attempts := (sv_attempts (view s))(i \<mapsto> a),
         sv_schedule := zset_put i (sv_now (view s) div 1000 + ms) (sv_schedule (view s)),
         sv_pending := (sv_pending (view s))(i := None)\<rparr>
       else view s)"
    and "view (snd (dead_letter_if_owned_script api (wc_stream c) (wc_dead_letter_stream c) (wc_group c) i consumer p a s)) =
      (if pending_owned api (wc_stream c) (wc_group c) i consumer s
       then (view s)\<lparr>sv_pending := (sv_pending (view s))(i := None),
         sv_dead := sv_dead (view s) @ [[(''payload'', p), (''attempt'', a), (''source_entry_id'', i)]]\<rparr>
       else view s)"
  unfolding api_def c_def
  by (simp_all add: ack_if_owned_script_def schedule_retry_script_def dead_letter_if_owned_script_def
      documentedD(2,4,5,6,11,14) [OF doc] micros_to_millis case_prod_unfold)

lemma settle_action_view:
  assumes doc: "fleet_documented env view"
  shows "view (snd (settle_action (fe_api env) (fe_config env) link d action s)) =
    (if link \<noteq> NotSent \<and> pending_owned (fe_api env) (wc_stream (fe_config env)) (wc_group (fe_config env))
          (del_entry_id d) (del_consumer d) s
     then settled_view env d action (view s) else view s)"
proof (cases action)
  case Acknowledge
  then show ?thesis
    by (simp add: settle_action_def acknowledge_def snd_case_prod_Inr snd_bounded script_views(1) [OF doc] settled_view_def Let_def)
next
  case (Retry next_attempt delay)
  then show ?thesis
    by (cases "nonzero_duration_to_millis delay")
      (simp_all add: settle_action_def schedule_retry_def snd_case_prod_Inr snd_bounded script_views(2) [OF doc] settled_view_def Let_def)
next
  case DeadLetter
  then show ?thesis
    by (simp add: settle_action_def dead_letter_def snd_case_prod_Inr snd_bounded script_views(3) [OF doc] settled_view_def Let_def)
qed

lemma settled_effect:
  assumes inv: "streams_inv v" and pend: "is_pending v (del_entry_id d)"
    and e: "(del_entry_id d, f) \<in> set (take (sv_delivered v) (sv_entries v))" "entry_payload f = del_payload d"
  shows "streams_inv (settled_view env d action v) \<and>
    outstanding v = outstanding (settled_view env d action v) +
      (case action of Acknowledge \<Rightarrow> {#del_payload d#} | _ \<Rightarrow> {#}) \<and>
    sv_entries (settled_view env d action v) = sv_entries v \<and> sv_delivered (settled_view env d action v) = sv_delivered v"
proof (cases action)
  case Acknowledge
  with ack_effect [OF inv e(1) pend] e(2) show ?thesis by (simp add: settled_view_def Let_def outstanding_def)
next
  case (Retry next_attempt delay)
  with schedule_effect [OF inv pend] ack_effect [OF inv e(1) pend] e(2) show ?thesis
    by (cases "nonzero_duration_to_millis delay") (simp_all add: settled_view_def Let_def outstanding_def inv)
next
  case DeadLetter
  note acked = ack_effect [OF inv e(1) pend]
  from DeadLetter acked e(2) dead_effect [OF acked(1)] show ?thesis
    by (simp add: settled_view_def Let_def outstanding_def entry_payload_def)
qed

subsection \<open>Promoting\<close>

text \<open>The guard of the promotion script does not reject anything: the reply of \<open>HEXISTS\<close> is a number, and every
  number is true.\<close>

lemma promote_check_True: "promote_check api payload_key attempt_key ids s"
  by (simp add: promote_check_def lua_not_def lua_hexists_def list_all_def)

lemma promote_one_effect:
  assumes doc: "fleet_documented env view" and inv: "streams_inv (view s)"
    and sched: "i \<in> fst ` set (sv_schedule (view s))"
  obtains p a s4 k where "sv_payloads (view s) i = Some p" "sv_attempts (view s) i = Some a"
    "promote_loop (fe_api env) (wc_stream (fe_config env)) (wc_retry_schedule_key (fe_config env))
       (wc_retry_payload_key (fe_config env)) (wc_retry_attempt_key (fe_config env)) (i # ids) s =
     promote_loop (fe_api env) (wc_stream (fe_config env)) (wc_retry_schedule_key (fe_config env))
       (wc_retry_payload_key (fe_config env)) (wc_retry_attempt_key (fe_config env)) ids s4"
    "view s4 = (view s)\<lparr>sv_entries := sv_entries (view s) @ [(k, [(''payload'', p), (''attempt'', a)])],
       sv_payloads := (sv_payloads (view s))(i := None), sv_attempts := (sv_attempts (view s))(i := None),
       sv_schedule := zset_remove i (sv_schedule (view s))\<rparr>"
    "k \<notin> entry_ids (sv_entries (view s))"
    "streams_inv (view s4)" "outstanding (view s4) = outstanding (view s)"
    "fst ` set (sv_schedule (view s4)) = fst ` set (sv_schedule (view s)) - {i}"
proof -
  obtain p a where pa: "sv_payloads (view s) i = Some p" "sv_attempts (view s) i = Some a"
    using streams_invD(5) [OF inv sched] by blast
  obtain k s1 where add: "xadd (fe_api env) (wc_stream (fe_config env)) [(''payload'', p), (''attempt'', a)] s = (k, s1)"
    by force
  note v1 = documentedD(1) [OF doc add]
  note eff1 = append_effect [OF inv conjunct1 [OF v1], of "[(''payload'', p), (''attempt'', a)]"]
  let ?c = "fe_config env" and ?api = "fe_api env"
  let ?s4 = "zrem ?api (wc_retry_schedule_key ?c) i (hdel ?api (wc_retry_attempt_key ?c) i
    (hdel ?api (wc_retry_payload_key ?c) i s1))"
  have loop: "promote_loop ?api (wc_stream ?c) (wc_retry_schedule_key ?c) (wc_retry_payload_key ?c)
      (wc_retry_attempt_key ?c) (i # ids) s =
    promote_loop ?api (wc_stream ?c) (wc_retry_schedule_key ?c) (wc_retry_payload_key ?c)
      (wc_retry_attempt_key ?c) ids ?s4"
    by (simp add: lua_hget_def documentedD(7,8) [OF doc] pa add Let_def)
  have v4: "view ?s4 = (view s1)\<lparr>sv_payloads := (sv_payloads (view s1))(i := None),
      sv_attempts := (sv_attempts (view s1))(i := None), sv_schedule := zset_remove i (sv_schedule (view s1))\<rparr>"
    by (simp add: documentedD(9,10,12) [OF doc])
  have inv1: "streams_inv (view s1)" using eff1(1) v1 by simp
  have keep: "i \<in> fst ` set (sv_schedule (view s1))" "sv_payloads (view s1) i = Some p"
    using v1 sched pa by simp_all
  note eff2 = unschedule_effect [OF inv1 keep]
  have "streams_inv (view ?s4)" using eff2(1) v4 by simp
  moreover have "outstanding (view ?s4) = outstanding (view s)"
    using eff1(2-4) eff2(2-4) v1 v4 by (simp add: outstanding_def entry_payload_def)
  moreover have "fst ` set (sv_schedule (view ?s4)) = fst ` set (sv_schedule (view s)) - {i}"
    using eff2(5) v1 v4 by simp
  moreover have "view ?s4 = (view s)\<lparr>sv_entries := sv_entries (view s) @ [(k, [(''payload'', p), (''attempt'', a)])],
       sv_payloads := (sv_payloads (view s))(i := None), sv_attempts := (sv_attempts (view s))(i := None),
       sv_schedule := zset_remove i (sv_schedule (view s))\<rparr>"
    using v1 v4 by simp
  ultimately show thesis using that [of p a ?s4 k] pa loop v1 by blast
qed

lemma promote_loop_effect:
  assumes doc: "fleet_documented env view"
  shows "streams_inv (view s) \<Longrightarrow> distinct ids \<Longrightarrow> set ids \<subseteq> fst ` set (sv_schedule (view s)) \<Longrightarrow>
    promote_loop (fe_api env) (wc_stream (fe_config env)) (wc_retry_schedule_key (fe_config env))
      (wc_retry_payload_key (fe_config env)) (wc_retry_attempt_key (fe_config env)) ids s = (r, s') \<Longrightarrow>
    r = Inr () \<and> streams_inv (view s') \<and> outstanding (view s') = outstanding (view s) \<and>
    sv_delivered (view s') = sv_delivered (view s) \<and> (\<exists>es. sv_entries (view s') = sv_entries (view s) @ es)"
proof (induction ids arbitrary: s)
  case Nil
  then show ?case by simp
next
  case (Cons i ids)
  have sched: "i \<in> fst ` set (sv_schedule (view s))" using Cons.prems(3) by simp
  obtain p a s4 k where one: "promote_loop (fe_api env) (wc_stream (fe_config env)) (wc_retry_schedule_key (fe_config env))
       (wc_retry_payload_key (fe_config env)) (wc_retry_attempt_key (fe_config env)) (i # ids) s =
     promote_loop (fe_api env) (wc_stream (fe_config env)) (wc_retry_schedule_key (fe_config env))
       (wc_retry_payload_key (fe_config env)) (wc_retry_attempt_key (fe_config env)) ids s4"
    "view s4 = (view s)\<lparr>sv_entries := sv_entries (view s) @ [(k, [(''payload'', p), (''attempt'', a)])],
       sv_payloads := (sv_payloads (view s))(i := None), sv_attempts := (sv_attempts (view s))(i := None),
       sv_schedule := zset_remove i (sv_schedule (view s))\<rparr>"
    "streams_inv (view s4)" "outstanding (view s4) = outstanding (view s)"
    "fst ` set (sv_schedule (view s4)) = fst ` set (sv_schedule (view s)) - {i}"
    using promote_one_effect [OF doc Cons.prems(1) sched, where ids = ids] by metis
  have "distinct ids" "set ids \<subseteq> fst ` set (sv_schedule (view s4))"
    using Cons.prems(2,3) one(5) by auto
  from Cons.IH [OF one(3) this] Cons.prems(4) one show ?case by auto
qed

lemma promote_effect:
  fixes n :: nat
  assumes doc: "fleet_documented env view" and inv: "streams_inv (view s)"
  defines "s' \<equiv> snd (promote_due_retries_script (fe_api env) (wc_stream (fe_config env)) (wc_retry_schedule_key (fe_config env))
      (wc_retry_payload_key (fe_config env)) (wc_retry_attempt_key (fe_config env)) n s)"
  shows "streams_inv (view s') \<and> outstanding (view s') = outstanding (view s) \<and>
    sv_delivered (view s') = sv_delivered (view s) \<and> (\<exists>es. sv_entries (view s') = sv_entries (view s) @ es)"
proof -
  let ?c = "fe_config env" and ?api = "fe_api env"
  obtain ids where ids: "zrangebyscore ?api (wc_retry_schedule_key ?c) (sv_now (view s) div 1000) n s = ids" by blast
  obtain r s1 where loop: "promote_loop ?api (wc_stream ?c) (wc_retry_schedule_key ?c) (wc_retry_payload_key ?c)
      (wc_retry_attempt_key ?c) ids s = (r, s1)" by force
  have s': "s' = s1"
    by (cases r) (simp_all add: s'_def promote_due_retries_script_def documentedD(14) [OF doc] micros_to_millis ids
        promote_check_True loop)
  have "distinct ids" "set ids \<subseteq> fst ` set (sv_schedule (view s))"
    using documented_due [OF doc ids] by force+
  from promote_loop_effect [OF doc inv this loop] show ?thesis by (simp add: s')
qed

section \<open>Conservation\<close>

definition fleet_inv :: "('s \<Rightarrow> streams_view) \<Rightarrow> ('s, 'w) fleet \<Rightarrow> bool" where
  "fleet_inv view fl \<longleftrightarrow> streams_inv (view (fl_server fl)) \<and> held_inv (view (fl_server fl)) (fl_held fl)"

lemma held_inv_append: "held_inv v (xs @ ys) \<longleftrightarrow> held_inv v xs \<and> held_inv v ys"
  by (auto simp: held_inv_def)

lemma held_inv_Nil: "held_inv v []"
  by (simp add: held_inv_def)

lemma held_inv_subset: "held_inv v xs \<Longrightarrow> set ys \<subseteq> set xs \<Longrightarrow> held_inv v ys"
  unfolding held_inv_def by blast

lemma held_inv_same:
  "held_inv v xs \<Longrightarrow> sv_entries v' = sv_entries v \<Longrightarrow> sv_delivered v' = sv_delivered v \<Longrightarrow> held_inv v' xs"
  by (simp add: held_inv_def)

lemma held_inv_extend:
  assumes "held_inv v xs" "streams_inv v" "sv_delivered v' = sv_delivered v" "sv_entries v' = sv_entries v @ es"
  shows "held_inv v' xs"
  using assms streams_invD(2) [OF assms(2)] by (simp add: held_inv_def)

lemma delivery_from_entry_fields [simp]:
  "del_entry_id (delivery_from_entry api c entry n) = fst entry"
  "del_payload (delivery_from_entry api c entry n) = entry_payload (snd entry)"
  "del_consumer (delivery_from_entry api c entry n) = wc_consumer c"
  by (simp_all add: delivery_from_entry_def Let_def entry_payload_def)

lemma held_inv_deliveries:
  assumes "\<And>d. d \<in> set ds \<Longrightarrow> \<exists>entry n. d = delivery_from_entry api c entry n \<and> entry \<in> set (take (sv_delivered v) (sv_entries v))"
  shows "held_inv v (map (\<lambda>d. (d, None)) ds)"
proof -
  have "\<exists>f. (del_entry_id d, f) \<in> set (take (sv_delivered v) (sv_entries v)) \<and> entry_payload f = del_payload d"
    if d: "d \<in> set ds" for d
  proof -
    obtain entry n where "d = delivery_from_entry api c entry n" "entry \<in> set (take (sv_delivered v) (sv_entries v))"
      using assms [OF d] by (elim exE conjE)
    then show ?thesis by (intro exI [of _ "snd entry"]) simp
  qed
  then show ?thesis by (simp add: held_inv_def)
qed

lemma read_new_effect:
  assumes doc: "fleet_documented env view" and inv: "streams_inv (view s)"
    and step: "read_new (fe_api env) ((fe_config env)\<lparr>wc_consumer := consumer\<rparr>) capacity link s = (r, s')"
  shows "streams_inv (view s') \<and> outstanding (view s') = outstanding (view s) \<and>
    (\<exists>es. take (sv_delivered (view s')) (sv_entries (view s')) = take (sv_delivered (view s)) (sv_entries (view s)) @ es) \<and>
    held_inv (view s') (received r)"
proof -
  let ?c = "fe_config env" and ?api = "fe_api env"
  obtain es s1 where rd: "xreadgroup ?api (wc_stream ?c) (wc_group ?c) consumer (min capacity (wc_batch_size ?c))
      (wc_block_timeout_ms ?c) s = (es, s1)" by force
  note D = documented_read [OF doc rd]
  note eff = read_effect [OF inv conjunct1 [OF D], of consumer]
  have v1: "streams_inv (view s1)" "outstanding (view s1) = outstanding (view s)"
    "take (sv_delivered (view s1)) (sv_entries (view s1)) = take (sv_delivered (view s)) (sv_entries (view s)) @ es"
    using eff D by (simp_all add: outstanding_def)
  have held: "held_inv (view s1) (map (\<lambda>d. (d, None)) (map (\<lambda>entry. delivery_from_entry ?api (?c\<lparr>wc_consumer := consumer\<rparr>) entry None) es))"
    by (rule held_inv_deliveries) (use v1(3) in auto)
  show ?thesis
  proof (cases link)
    case Answered
    with step rd have "r = Inr (map (\<lambda>entry. delivery_from_entry ?api (?c\<lparr>wc_consumer := consumer\<rparr>) entry None) es)" "s' = s1"
      by (auto simp: read_new_def bounded_def map_error_def)
    with v1 held show ?thesis by (auto simp: received_def)
  next
    case ReplyLost
    with step rd have "r = Inl RsReceive" "s' = s1" by (auto simp: read_new_def bounded_def)
    with v1 show ?thesis by (auto simp: received_def held_inv_Nil)
  next
    case NotSent
    with step have "r = Inl RsReceive" "s' = s" by (auto simp: read_new_def bounded_def)
    with inv show ?thesis by (auto simp: received_def held_inv_Nil)
  qed
qed

lemma reclaim_deliveries_from:
  "reclaim_deliveries api c links entries s = Inr ds \<Longrightarrow> d \<in> set ds \<Longrightarrow>
   \<exists>entry n. d = delivery_from_entry api c entry n \<and> entry \<in> set entries"
proof (induction api c links entries s arbitrary: ds rule: reclaim_deliveries.induct)
  case (2 api c links entry entries s)
  note IH = 2(1)
  obtain n ds' where n: "pending_delivery_count api c (case links of [] \<Rightarrow> Answered | l # _ \<Rightarrow> l) (fst entry) s = Inr n"
    and ds': "reclaim_deliveries api c (tl links) entries s = Inr ds'" "ds = delivery_from_entry api c entry (Some n) # ds'"
    using 2(2) by (auto simp: bind_result_eq_Inr)
  from ds'(2) 2(3) consider "d = delivery_from_entry api c entry (Some n)" | "d \<in> set ds'" by auto
  then show ?case
  proof cases
    case 2
    from IH [OF ds'(1) this] show ?thesis by auto
  qed (intro exI conjI, assumption, simp)
qed simp

lemma reclaim_effect:
  assumes doc: "fleet_documented env view" and inv: "streams_inv (view s)"
    and step: "reclaim_pending (fe_api env) ((fe_config env)\<lparr>wc_consumer := consumer\<rparr>) n link links s = (r, s')"
  shows "streams_inv (view s') \<and> outstanding (view s') = outstanding (view s) \<and>
    sv_delivered (view s') = sv_delivered (view s) \<and> sv_entries (view s') = sv_entries (view s) \<and>
    held_inv (view s') (received r)"
proof -
  let ?c = "fe_config env" and ?api = "fe_api env"
  let ?cc = "?c\<lparr>wc_consumer := consumer\<rparr>"
  obtain reply s1 where cl: "xautoclaim ?api (wc_stream ?c) (wc_group ?c) consumer (wc_reclaim_idle_ms ?c) n s = (reply, s1)"
    by force
  note D = documented_claim [OF doc cl]
  note eff = claim_effect [OF inv, of consumer "sv_now (view s)" "entry_ids (ac_claimed reply)"]
  have v1: "streams_inv (view s1)" "outstanding (view s1) = outstanding (view s)"
    "sv_delivered (view s1) = sv_delivered (view s)" "sv_entries (view s1) = sv_entries (view s)"
    using eff D by (simp_all add: outstanding_def)
  have entry: "entry \<in> set (take (sv_delivered (view s)) (sv_entries (view s)))" if "entry \<in> set (ac_claimed reply)" for entry
  proof -
    have "is_pending (view s) (fst entry)" using D that unfolding is_pending_def by blast
    then have "fst entry \<in> entry_ids (take (sv_delivered (view s)) (sv_entries (view s)))" by (rule streams_invD(3) [OF inv])
    then obtain f where f: "(fst entry, f) \<in> set (take (sv_delivered (view s)) (sv_entries (view s)))" by force
    then have "(fst entry, f) \<in> set (sv_entries (view s))" by (rule in_set_takeD)
    moreover have "(fst entry, snd entry) \<in> set (sv_entries (view s))" using D that by auto
    ultimately have "f = snd entry" by (rule distinct_ids_unique [OF streams_invD(1) [OF inv]])
    with f show ?thesis by simp
  qed
  have held: "held_inv (view s1) (received (reclaim_deliveries ?api ?cc links (ac_claimed reply) s1))"
  proof (cases "reclaim_deliveries ?api ?cc links (ac_claimed reply) s1")
    case (Inr ds)
    have "held_inv (view s1) (map (\<lambda>d. (d, None)) ds)"
      by (rule held_inv_deliveries) (use reclaim_deliveries_from [OF Inr] entry v1 in fastforce)
    with Inr show ?thesis by (simp add: received_def)
  qed (simp add: received_def held_inv_Nil)
  show ?thesis
  proof (cases link)
    case Answered
    with step cl have "s' = s1" "r = (if ac_deleted_ids reply \<noteq> [] \<or> ac_invalid_entries reply then Inl RsClaimedEntryMissing
        else reclaim_deliveries ?api ?cc links (ac_claimed reply) s1)"
      by (auto simp: reclaim_pending_def bounded_def map_error_def split: if_splits)
    with v1 held show ?thesis by (simp add: received_def [of "Inl _"] held_inv_Nil)
  next
    case ReplyLost
    with step cl have "r = Inl RsReclaim" "s' = s1" by (auto simp: reclaim_pending_def bounded_def)
    with v1 show ?thesis by (simp add: received_def held_inv_Nil)
  next
    case NotSent
    with step have "r = Inl RsReclaim" "s' = s" by (auto simp: reclaim_pending_def bounded_def)
    with inv show ?thesis by (simp add: received_def held_inv_Nil)
  qed
qed

lemma publish_effect:
  fixes link :: redis_link and message :: job_message
  assumes doc: "fleet_documented env view" and inv: "streams_inv (view s)"
  defines "s' \<equiv> snd (redis_publish (fe_api env) (wc_stream (fe_config env)) link message s)"
  shows "streams_inv (view s') \<and> outstanding (view s') = outstanding (view s) + published_by (Publish message link) \<and>
    sv_delivered (view s') = sv_delivered (view s) \<and> (\<exists>es. sv_entries (view s') = sv_entries (view s) @ es)"
proof -
  let ?c = "fe_config env" and ?api = "fe_api env"
  let ?f = "[(''payload'', msg_payload message), (''attempt'', write_u16 ?api (msg_attempt message))]"
  obtain i s1 where add: "xadd ?api (wc_stream ?c) ?f s = (i, s1)" by force
  note v1 = documentedD(1) [OF doc add]
  note eff = append_effect [OF inv conjunct1 [OF v1], of ?f]
  have pub: "snd (redis_publish ?api (wc_stream ?c) link message s) = (if link = NotSent then s else s1)"
    by (cases link) (simp_all add: redis_publish_def bounded_def add map_error_def)
  show ?thesis
  proof (cases "link = NotSent")
    case True
    with inv pub show ?thesis by (simp add: s'_def)
  next
    case False
    with pub have "s' = s1" by (simp add: s'_def)
    with False eff v1 show ?thesis by (simp add: outstanding_def entry_payload_def)
  qed
qed

lemma tick_effect:
  assumes doc: "fleet_documented env view" and inv: "streams_inv (view s)"
    and step: "maintenance_tick (fe_api env) ((fe_config env)\<lparr>wc_consumer := consumer\<rparr>) available l1 l2 ls s = (r, s')"
  shows "streams_inv (view s') \<and> outstanding (view s') = outstanding (view s) \<and>
    sv_delivered (view s') = sv_delivered (view s) \<and> (\<exists>es. sv_entries (view s') = sv_entries (view s) @ es) \<and>
    held_inv (view s') (received r)"
proof -
  let ?cc = "(fe_config env)\<lparr>wc_consumer := consumer\<rparr>"
  obtain q s1 where pr: "promote_due_retries (fe_api env) ?cc (min available (wc_batch_size ?cc)) l1 s = (q, s1)" by force
  then have "s1 = snd (promote_due_retries (fe_api env) ?cc (min available (wc_batch_size ?cc)) l1 s)" by simp
  also have "\<dots> = (if l1 = NotSent then s else snd (promote_due_retries_script (fe_api env) (wc_stream (fe_config env))
      (wc_retry_schedule_key (fe_config env)) (wc_retry_payload_key (fe_config env)) (wc_retry_attempt_key (fe_config env))
      (min available (wc_batch_size ?cc)) s))"
    unfolding snd_bounded [symmetric] by (simp add: promote_due_retries_def split: prod.splits sum.splits)
  finally have s1: "streams_inv (view s1)" "outstanding (view s1) = outstanding (view s)"
    "sv_delivered (view s1) = sv_delivered (view s)" "\<exists>es. sv_entries (view s1) = sv_entries (view s) @ es"
    using promote_effect [OF doc inv, of "min available (wc_batch_size ?cc)"] inv by (simp_all split: if_splits)
  show ?thesis
  proof (cases q)
    case (Inl e)
    with step pr have "r = Inl e" "s' = s1" by (simp_all add: maintenance_tick_def)
    with s1 show ?thesis by (simp add: received_def held_inv_Nil)
  next
    case (Inr u)
    with step pr have rc: "reclaim_pending (fe_api env) ?cc (min available (wc_batch_size ?cc)) l2 ls s1 = (r, s')"
      by (simp add: maintenance_tick_def)
    from reclaim_effect [OF doc s1(1) rc] s1 show ?thesis by simp
  qed
qed

lemma settle_effect:
  fixes link :: redis_link and action :: delivery_action
  assumes doc: "fleet_documented env view" and inv: "streams_inv (view s)" and held: "held_inv (view s) [(d, x)]"
  defines "s' \<equiv> snd (settle_action (fe_api env) (fe_config env) link d action s)"
  shows "streams_inv (view s') \<and>
    outstanding (view s) = outstanding (view s') +
      (if link \<noteq> NotSent \<and> action = Acknowledge \<and>
          pending_owned (fe_api env) (wc_stream (fe_config env)) (wc_group (fe_config env)) (del_entry_id d) (del_consumer d) s
       then {#del_payload d#} else {#}) \<and>
    sv_delivered (view s') = sv_delivered (view s) \<and> sv_entries (view s') = sv_entries (view s)"
proof (cases "link \<noteq> NotSent \<and> pending_owned (fe_api env) (wc_stream (fe_config env)) (wc_group (fe_config env))
    (del_entry_id d) (del_consumer d) s")
  case True
  obtain f where f: "(del_entry_id d, f) \<in> set (take (sv_delivered (view s)) (sv_entries (view s)))"
    "entry_payload f = del_payload d" using held by (auto simp: held_inv_def)
  have "is_pending (view s) (del_entry_id d)" using True pending_owned_is_pending [OF doc] by blast
  from settled_effect [OF inv this f, of env action] True show ?thesis
    unfolding s'_def settle_action_view [OF doc] by (cases action) simp_all
next
  case False
  then have "view s' = view s" unfolding s'_def settle_action_view [OF doc] by auto
  with inv False show ?thesis by auto
qed

lemma fleet_step_effect:
  assumes doc: "fleet_documented env view" and inv: "fleet_inv view fl"
  shows "fleet_inv view (fleet_step env e fl) \<and>
    outstanding (view (fl_server (fleet_step env e fl))) + acknowledged_by env e fl =
      outstanding (view (fl_server fl)) + published_by e"
proof -
  have si: "streams_inv (view (fl_server fl))" and hi: "held_inv (view (fl_server fl)) (fl_held fl)"
    using inv by (simp_all add: fleet_inv_def)
  show ?thesis
  proof (cases e)
    case (Publish message link)
    from publish_effect [OF doc si, of link message] Publish show ?thesis
      by (auto simp: fleet_inv_def intro: held_inv_extend [OF hi si])
  next
    case (ReadNew consumer capacity link)
    obtain r s' where st: "read_new (fe_api env) ((fe_config env)\<lparr>wc_consumer := consumer\<rparr>) capacity link (fl_server fl) = (r, s')"
      by force
    from read_new_effect [OF doc si st] obtain es where
      "take (sv_delivered (view s')) (sv_entries (view s')) =
        take (sv_delivered (view (fl_server fl))) (sv_entries (view (fl_server fl))) @ es" by blast
    from held_inv_prefix [OF hi this] read_new_effect [OF doc si st] ReadNew st show ?thesis
      by (simp add: fleet_inv_def held_inv_append)
  next
    case (Tick consumer available l1 l2 ls)
    obtain r s' where st: "maintenance_tick (fe_api env) ((fe_config env)\<lparr>wc_consumer := consumer\<rparr>) available l1 l2 ls
        (fl_server fl) = (r, s')" by force
    from tick_effect [OF doc si st] Tick st show ?thesis
      by (auto simp: fleet_inv_def held_inv_append intro: held_inv_extend [OF hi si])
  next
    case (Handle i)
    have "held_inv (view (fl_server fl)) ((fl_held fl)[i := (fst (fl_held fl ! i), x)])" if "i < length (fl_held fl)" for x
      using hi nth_mem [OF that] unfolding held_inv_def
      by (cases "fl_held fl ! i") (auto dest!: subsetD [OF set_update_subset_insert])
    with Handle inv show ?thesis by (auto simp: fleet_inv_def split: prod.splits)
  next
    case (Settle i link)
    show ?thesis
    proof (cases "i < length (fl_held fl) \<and> snd (fl_held fl ! i) \<noteq> None")
      case True
      then obtain d attempt action where h: "fl_held fl ! i = (d, Some (attempt, action))" by (cases "fl_held fl ! i") auto
      have "held_inv (view (fl_server fl)) [(d, Some (attempt, action))]"
        by (rule held_inv_subset [OF hi]) (use True h nth_mem in fastforce)
      note eff = settle_effect [OF doc si this, of link action]
      have rest: "held_inv (view (fl_server fl)) (take i (fl_held fl) @ drop (i + 1) (fl_held fl))"
        by (rule held_inv_subset [OF hi]) (auto dest: in_set_takeD in_set_dropD)
      show ?thesis using Settle True h eff held_inv_same [OF rest]
        by (cases action) (simp_all add: fleet_inv_def)
    next
      case False
      with Settle inv show ?thesis by (cases "fl_held fl ! i") (auto split: option.splits)
    qed
  next
    case (Abandon i w)
    have "held_inv (view (fl_server fl)) (take i (fl_held fl) @ drop (i + 1) (fl_held fl))"
      by (rule held_inv_subset [OF hi]) (auto dest: in_set_takeD in_set_dropD)
    with Abandon si show ?thesis by (simp add: fleet_inv_def)
  next
    case (Crash consumer w)
    have "held_inv (view (fl_server fl)) (filter (\<lambda>(d, _). del_consumer d \<noteq> consumer) (fl_held fl))"
      by (rule held_inv_subset [OF hi]) auto
    with Crash si show ?thesis by (simp add: fleet_inv_def)
  next
    case (Elapse t)
    have "outstanding (v\<lparr>sv_now := u\<rparr>) = outstanding v" "streams_inv (v\<lparr>sv_now := u\<rparr>) = streams_inv v"
      "held_inv (v\<lparr>sv_now := u\<rparr>) (fl_held fl) = held_inv v (fl_held fl)" for v u
      by (simp_all add: outstanding_def live_def retrying_def dead_def streams_inv_def is_pending_def held_inv_def)
    with Elapse inv show ?thesis by (simp add: fleet_inv_def documentedD(13) [OF doc])
  qed
qed

lemma fleet_run_append: "fleet_run env (es @ es') fl = fleet_run env es' (fleet_run env es fl)"
  by (induction es arbitrary: fl) simp_all

lemma fleet_run_effect:
  assumes "fleet_documented env view" "fleet_inv view fl"
  shows "fleet_inv view (fleet_run env events fl) \<and>
    outstanding (view (fl_server (fleet_run env events fl))) + run_acknowledged env events fl =
      outstanding (view (fl_server fl)) + run_published events"
  using assms(2)
proof (induction events arbitrary: fl)
  case (Cons e es)
  have step: "fleet_inv view (fleet_step env e fl)"
    "outstanding (view (fl_server (fleet_step env e fl))) + acknowledged_by env e fl =
      outstanding (view (fl_server fl)) + published_by e"
    using fleet_step_effect [OF assms(1) Cons.prems, of e] by blast+
  from Cons.IH [OF step(1)] step(2) show ?case by (simp add: ac_simps)
qed simp

text \<open>C2. No job is lost and none is made up, in any interleaving of producers, workers, handler runs, settlements,
  crashes, reclaims and promotions, and whatever happens to the replies of the server: the payloads in the
  stream, the retry store and the dead-letter stream together with the acknowledged ones are, with
  multiplicities, the payloads that were there at the start and those that were published.\<close>

theorem jobs_conserved:
  assumes "fleet_documented env view" "fleet_inv view fl"
  shows "fleet_inv view (fleet_run env events fl) \<and>
    outstanding (view (fl_server (fleet_run env events fl))) + run_acknowledged env events fl =
      outstanding (view (fl_server fl)) + run_published events"
  by (rule fleet_run_effect [OF assms])

section \<open>A server with the documented behaviour\<close>

text \<open>A server whose state is the observable state itself, on which properties are evaluated.\<close>

definition fresh_id :: "stream_entry list \<Rightarrow> string" where
  "fresh_id es = replicate (Suc (sum_list (map (length \<circ> fst) es))) CHR ''x''"

definition idle_entries :: "nat \<Rightarrow> streams_view \<Rightarrow> stream_entry list" where
  "idle_entries idle v = filter (\<lambda>e. case sv_pending v (fst e) of None \<Rightarrow> False | Some (_, t, _) \<Rightarrow> t + idle * 1000 \<le> sv_now v)
     (sv_entries v)"

definition model_api :: "worker_config \<Rightarrow> streams_view streams_api" where
  "model_api c =
     \<lparr>xadd = (\<lambda>key f v. if key = wc_stream c
          then (fresh_id (sv_entries v), v\<lparr>sv_entries := sv_entries v @ [(fresh_id (sv_entries v), f)]\<rparr>)
          else ([], v\<lparr>sv_dead := sv_dead v @ [f]\<rparr>)),
      xreadgroup = (\<lambda>key gr consumer n block v.
          let es = take n (drop (sv_delivered v) (sv_entries v)) in
          (es, v\<lparr>sv_delivered := sv_delivered v + length es,
             sv_pending := (\<lambda>i. if i \<in> entry_ids es then Some (consumer, sv_now v, 1) else sv_pending v i)\<rparr>)),
      xautoclaim = (\<lambda>key gr consumer idle n v.
          let es = take n (idle_entries idle v) in
          (\<lparr>ac_claimed = es, ac_deleted_ids = [], ac_invalid_entries = False\<rparr>,
           v\<lparr>sv_pending := claim_pending consumer (sv_now v) (entry_ids es) (sv_pending v)\<rparr>)),
      xpending = (\<lambda>key gr i v. map_option (\<lambda>(owner, t, n). (owner, n)) (sv_pending v i)),
      xack = (\<lambda>key gr i v. (if sv_pending v i = None then 0 else 1, v\<lparr>sv_pending := (sv_pending v)(i := None)\<rparr>)),
      xinfo_groups = (\<lambda>key v. Some [wc_group c]),
      xinfo_stream = (\<lambda>key v. True),
      server_time = (\<lambda>v. (sv_now v div 1000000, sv_now v mod 1000000)),
      hset = (\<lambda>key f x v. if key = wc_retry_payload_key c then v\<lparr>sv_payloads := (sv_payloads v)(f \<mapsto> x)\<rparr>
          else v\<lparr>sv_attempts := (sv_attempts v)(f \<mapsto> x)\<rparr>),
      hget = (\<lambda>key f v. if key = wc_retry_payload_key c then sv_payloads v f else sv_attempts v f),
      hexists = (\<lambda>key f v. if (if key = wc_retry_payload_key c then sv_payloads v f else sv_attempts v f) = None then 0 else 1),
      hdel = (\<lambda>key f v. if key = wc_retry_payload_key c then v\<lparr>sv_payloads := (sv_payloads v)(f := None)\<rparr>
          else v\<lparr>sv_attempts := (sv_attempts v)(f := None)\<rparr>),
      zadd = (\<lambda>key score m v. v\<lparr>sv_schedule := zset_put m score (sv_schedule v)\<rparr>),
      zrangebyscore = (\<lambda>key limit n v. take n (remdups (map fst (filter (\<lambda>(_, score). score \<le> limit) (sv_schedule v))))),
      zrem = (\<lambda>key m v. v\<lparr>sv_schedule := zset_remove m (sv_schedule v)\<rparr>),
      write_u16 = (\<lambda>a. show_nat (unat a)),
      read_u16 = (\<lambda>b. map_option of_nat (parse_uint u16_bound b))\<rparr>"

definition model_elapse :: "nat \<Rightarrow> streams_view \<Rightarrow> streams_view" where
  "model_elapse t v = v\<lparr>sv_now := sv_now v + t\<rparr>"

lemma fresh_id_fresh: "fresh_id es \<notin> entry_ids es"
proof
  assume "fresh_id es \<in> entry_ids es"
  then have "length (fresh_id es) \<in> set (map (length \<circ> fst) es)" by force
  then have "length (fresh_id es) \<le> sum_list (map (length \<circ> fst) es)" by (rule member_le_sum_list) simp
  then show False by (simp add: fresh_id_def)
qed

lemma due_members: "{m. \<exists>score \<le> limit. (m, score) \<in> set z} = set (map fst (filter (\<lambda>(_, score). score \<le> limit) z))"
  by force

lemma model_documented:
  assumes "wc_stream c \<noteq> wc_dead_letter_stream c" "wc_retry_payload_key c \<noteq> wc_retry_attempt_key c"
  shows "append_documented (model_api c) id c" "group_documented (model_api c) id c"
    "retry_documented (model_api c) id c" "clock_documented (model_api c) id model_elapse"
proof -
  show "append_documented (model_api c) id c"
    using assms by (simp add: append_documented_def model_api_def fresh_id_fresh)
  show "group_documented (model_api c) id c"
    unfolding group_documented_def model_api_def id_def
    by (auto simp: Let_def idle_entries_def split: option.splits dest!: in_set_takeD)
  have "length (take n (remdups xs)) = min n (card (set xs))" for n and xs :: "string list"
    by (simp add: length_remdups_card_conv min.commute)
  then show "retry_documented (model_api c) id c"
    using assms unfolding retry_documented_def due_members
    by (auto simp: model_api_def dest!: in_set_takeD)
  have "unat (a :: u16) < u16_bound" for a using unsigned_less [where 'a = nat, of a] by simp
  then show "clock_documented (model_api c) id model_elapse"
    by (simp add: clock_documented_def model_api_def model_elapse_def parse_uint_show_nat)
qed

definition sample_config :: worker_config where
  "sample_config =
     \<lparr>wc_stream = ''jobs'', wc_group = ''email'', wc_consumer = ''worker-a'', wc_dead_letter_stream = ''jobs.dlq'',
      wc_retry_schedule_key = retry_key ''jobs'' ''email'' ''schedule'',
      wc_retry_payload_key = retry_key ''jobs'' ''email'' ''payload'',
      wc_retry_attempt_key = retry_key ''jobs'' ''email'' ''attempt'',
      wc_block_timeout_ms = 250, wc_operation_timeout = from_secs 5, wc_reclaim_interval = from_secs 1,
      wc_reclaim_idle_ms = 30000, wc_batch_size = 64\<rparr>"

definition empty_view :: streams_view where
  "empty_view = \<lparr>sv_entries = [], sv_delivered = 0, sv_pending = (\<lambda>_. None), sv_dead = [], sv_schedule = [],
     sv_payloads = (\<lambda>_. None), sv_attempts = (\<lambda>_. None), sv_now = 0\<rparr>"

definition sample_env :: "(streams_view, (string \<times> u16) list) fleet_env" where
  "sample_env =
     \<lparr>fe_api = model_api sample_config, fe_config = sample_config, fe_elapse = model_elapse,
      fe_identity = (\<lambda>b. if b = ''{}'' then Some ''mail'' else None),
      fe_registry = [(''mail'', strict_dispatch sample_json sample_job recording_handler)],
      fe_policy = retry_policy_default\<rparr>"

definition sample_fleet :: "(streams_view, (string \<times> u16) list) fleet" where
  "sample_fleet = \<lparr>fl_server = empty_view, fl_world = [], fl_held = []\<rparr>"

definition sample_message :: job_message where
  "sample_message = \<lparr>msg_id = 7, msg_name = ''mail'', msg_version = 1, msg_attempt = 1, msg_payload = ''{}''\<rparr>"

lemma sample_env_documented: "fleet_documented sample_env id"
  using model_documented [of sample_config]
  by (simp add: fleet_documented_def sample_env_def) (simp add: sample_config_def retry_key_def)

lemma sample_fleet_inv: "fleet_inv id sample_fleet"
  by (simp add: fleet_inv_def sample_fleet_def empty_view_def streams_inv_def is_pending_def held_inv_def)

lemma jobs_conserved_witness:
  "fleet_documented sample_env id \<and> fleet_inv id sample_fleet \<and>
   outstanding (fl_server (fleet_run sample_env [Publish sample_message ReplyLost, ReadNew ''a'' 8 Answered, Handle 0, Crash ''a'' []] sample_fleet)) +
     run_acknowledged sample_env [Publish sample_message ReplyLost, ReadNew ''a'' 8 Answered, Handle 0, Crash ''a'' []] sample_fleet =
   {#''{}''#}"
proof -
  have "outstanding empty_view = {#}"
    by (simp add: outstanding_def live_def retrying_def dead_def empty_view_def)
  then show ?thesis
    using jobs_conserved [OF sample_env_documented sample_fleet_inv,
        of "[Publish sample_message ReplyLost, ReadNew ''a'' 8 Answered, Handle 0, Crash ''a'' []]"]
      sample_env_documented sample_fleet_inv
    by (simp add: sample_fleet_def sample_message_def del: fleet_run.simps run_acknowledged.simps)
qed

end
