(* ===== verification/JobsRecovery.thy ===== *)
theory JobsRecovery
  imports JobsFleet
begin

text \<open>
  Retry storage of the Redis Streams provider: the scoping of its keys, the promotion of due retries, and the
  settlement of every published job within the delivery budget of the retry policy.
\<close>

section \<open>Scoping of retry keys\<close>

lemma retry_key_inj:
  assumes "retry_key st gr kind = retry_key st' gr' kind'" "kind \<in> {''schedule'', ''payload'', ''attempt''}"
    "kind' \<in> {''schedule'', ''payload'', ''attempt''}"
  shows "st = st' \<and> gr = gr' \<and> kind = kind'"
proof -
  have "show_nat (length st) @ CHR '':'' # (st @ CHR '':'' # show_nat (length gr) @ CHR '':'' # gr @ CHR '':'' # kind) =
      show_nat (length st') @ CHR '':'' # (st' @ CHR '':'' # show_nat (length gr') @ CHR '':'' # gr' @ CHR '':'' # kind')"
    using assms(1) by (simp add: retry_key_def)
  note d = delimited_inj [OF this colon_not_digit colon_not_digit]
  have "length st = length st'" by (rule show_base_inj [OF _ _ conjunct1 [OF d]]) simp_all
  with conjunct2 [OF d] have st: "st = st'"
    "show_nat (length gr) @ CHR '':'' # (gr @ CHR '':'' # kind) = show_nat (length gr') @ CHR '':'' # (gr' @ CHR '':'' # kind')"
    by simp_all
  note e = delimited_inj [OF st(2) colon_not_digit colon_not_digit]
  have "length gr = length gr'" by (rule show_base_inj [OF _ _ conjunct1 [OF e]]) simp_all
  with conjunct2 [OF e] st(1) show ?thesis by simp
qed

lemma worker_config_new_Inr:
  assumes "worker_config_new st gr consumer dlq = Inr c"
  shows "wc_stream c = st \<and> wc_group c = gr \<and> st \<noteq> dlq \<and> wc_dead_letter_stream c = dlq \<and> wc_consumer c = consumer \<and>
    wc_retry_schedule_key c = retry_key st gr ''schedule'' \<and> wc_retry_payload_key c = retry_key st gr ''payload'' \<and>
    wc_retry_attempt_key c = retry_key st gr ''attempt'' \<and> 0 < wc_batch_size c"
  using assms by (auto simp: worker_config_new_def bind_result_eq_Inr split: if_splits)

text \<open>The retry keys of a worker route are its own: two configurations share any of their retry keys exactly
  when they have the same stream and the same group, and the three keys of one configuration are different.\<close>

theorem retry_storage_scoped:
  assumes "worker_config_new st gr consumer dlq = Inr c" "worker_config_new st' gr' consumer' dlq' = Inr c'"
  shows "({wc_retry_schedule_key c, wc_retry_payload_key c, wc_retry_attempt_key c} \<inter>
      {wc_retry_schedule_key c', wc_retry_payload_key c', wc_retry_attempt_key c'} \<noteq> {} \<longleftrightarrow> st = st' \<and> gr = gr') \<and>
    distinct [wc_retry_schedule_key c, wc_retry_payload_key c, wc_retry_attempt_key c]"
proof -
  note c = worker_config_new_Inr [OF assms(1)] worker_config_new_Inr [OF assms(2)]
  have "distinct [retry_key st gr ''schedule'', retry_key st gr ''payload'', retry_key st gr ''attempt'']"
    by (auto dest: retry_key_inj)
  moreover have "{retry_key st gr ''schedule'', retry_key st gr ''payload'', retry_key st gr ''attempt''} \<inter>
      {retry_key st' gr' ''schedule'', retry_key st' gr' ''payload'', retry_key st' gr' ''attempt''} \<noteq> {} \<longleftrightarrow> st = st' \<and> gr = gr'"
  proof
    assume "{retry_key st gr ''schedule'', retry_key st gr ''payload'', retry_key st gr ''attempt''} \<inter>
      {retry_key st' gr' ''schedule'', retry_key st' gr' ''payload'', retry_key st' gr' ''attempt''} \<noteq> {}"
    then obtain kind kind' where "retry_key st gr kind = retry_key st' gr' kind'"
      "kind \<in> {''schedule'', ''payload'', ''attempt''}" "kind' \<in> {''schedule'', ''payload'', ''attempt''}" by blast
    then show "st = st' \<and> gr = gr'" using retry_key_inj by blast
  qed simp
  ultimately show ?thesis using c by simp
qed

section \<open>Promotion of incomplete records\<close>

lemma promote_script_two:
  assumes doc: "fleet_documented env view"
    and due: "zrangebyscore (fe_api env) (wc_retry_schedule_key (fe_config env)) (sv_now (view s) div 1000) n s = [i, k]"
    and complete: "sv_payloads (view s) i = Some p" "sv_attempts (view s) i = Some a"
    and incomplete: "i \<noteq> k" "sv_payloads (view s) k = None"
    and run: "promote_due_retries_script (fe_api env) (wc_stream (fe_config env)) (wc_retry_schedule_key (fe_config env))
      (wc_retry_payload_key (fe_config env)) (wc_retry_attempt_key (fe_config env)) n s = (r, s')"
  shows "r = Inl ()" "\<exists>e. sv_entries (view s') = sv_entries (view s) @ [(e, [(''payload'', p), (''attempt'', a)])]"
    "sv_schedule (view s') = zset_remove i (sv_schedule (view s))" "sv_payloads (view s') i = None"
proof -
  obtain e s1 where add: "xadd (fe_api env) (wc_stream (fe_config env)) [(''payload'', p), (''attempt'', a)] s = (e, s1)"
    by force
  note v1 = documentedD(1) [OF doc add]
  have s': "r = Inl ()" "view s' = (view s)\<lparr>sv_entries := sv_entries (view s) @ [(e, [(''payload'', p), (''attempt'', a)])],
      sv_payloads := (sv_payloads (view s))(i := None), sv_attempts := (sv_attempts (view s))(i := None),
      sv_schedule := zset_remove i (sv_schedule (view s))\<rparr>"
    using run v1 incomplete
    by (auto simp: promote_due_retries_script_def documentedD(14) [OF doc] micros_to_millis due promote_check_True Let_def
        lua_hget_def documentedD(7,8,9,10,12) [OF doc] complete add split: option.splits)
  show "r = Inl ()" by (rule s')
  from s'(2) show "\<exists>e. sv_entries (view s') = sv_entries (view s) @ [(e, [(''payload'', p), (''attempt'', a)])]"
    "sv_schedule (view s') = zset_remove i (sv_schedule (view s))" "sv_payloads (view s') i = None" by auto
qed

text \<open>C38. The promotion script checks every due record before it moves any, but its check has no effect: it negates
  the number that \<open>HEXISTS\<close> returns, and in Lua the number 0 is true.  A due record whose payload is missing
  therefore does not stop the script before the complete records in front of it have been moved to the stream;
  only then does the script fail.\<close>

theorem promotion_guard_ineffective:
  assumes "fleet_documented env view"
    and "zrangebyscore (fe_api env) (wc_retry_schedule_key (fe_config env)) (sv_now (view s) div 1000) n s = [i, k]"
    and "sv_payloads (view s) i = Some p" "sv_attempts (view s) i = Some a" "i \<noteq> k" "sv_payloads (view s) k = None"
    and "promote_due_retries_script (fe_api env) (wc_stream (fe_config env)) (wc_retry_schedule_key (fe_config env))
      (wc_retry_payload_key (fe_config env)) (wc_retry_attempt_key (fe_config env)) n s = (r, s')"
  shows "promote_check (fe_api env) (wc_retry_payload_key (fe_config env)) (wc_retry_attempt_key (fe_config env)) [i, k] s \<and>
    r = Inl () \<and> (\<exists>e. sv_entries (view s') = sv_entries (view s) @ [(e, [(''payload'', p), (''attempt'', a)])]) \<and>
    sv_schedule (view s') = zset_remove i (sv_schedule (view s))"
  by (intro conjI promote_check_True promote_script_two(1-3) [OF assms])

lemma sample_config_new: "worker_config_new ''jobs'' ''email'' ''worker-a'' ''jobs.dlq'' = Inr sample_config"
proof -
  have "validate_key ''jobs'' = Inr ()" "validate_group_or_consumer ''email'' = Inr ()"
    "validate_group_or_consumer ''worker-a'' = Inr ()" "validate_key ''jobs.dlq'' = Inr ()"
    by (simp_all add: validate_key_def validate_group_or_consumer_def trim_eval)
  moreover have "nonzero_duration_to_millis (from_millis 250) = Inr 250" "nonzero_duration_to_millis (from_secs 30) = Inr 30000"
    by (simp_all add: nonzero_duration_to_millis_def duration_to_millis_def duration_defs)
  ultimately show ?thesis by (simp add: worker_config_new_def sample_config_def)
qed

lemma retry_storage_scoped_witness:
  "worker_config_new ''jobs'' ''email'' ''worker-a'' ''jobs.dlq'' = Inr sample_config \<and>
   distinct [wc_retry_schedule_key sample_config, wc_retry_payload_key sample_config, wc_retry_attempt_key sample_config]"
  using sample_config_new retry_storage_scoped [OF sample_config_new sample_config_new] by blast

text \<open>A schedule with a complete and an incomplete due record.\<close>

definition broken_view :: streams_view where
  "broken_view = empty_view\<lparr>sv_schedule := [(''a'', 0), (''b'', 0)], sv_payloads := [''a'' \<mapsto> ''{}''], sv_attempts := [''a'' \<mapsto> ''2'']\<rparr>"

lemma promotion_guard_ineffective_witness:
  "\<exists>s' e. promote_due_retries_script (model_api sample_config) (wc_stream sample_config) (wc_retry_schedule_key sample_config)
      (wc_retry_payload_key sample_config) (wc_retry_attempt_key sample_config) 10 broken_view = (Inl (), s') \<and>
    sv_entries s' = [(e, [(''payload'', ''{}''), (''attempt'', ''2'')])] \<and> sv_schedule s' = [(''b'', 0)]"
proof -
  have due: "zrangebyscore (fe_api sample_env) (wc_retry_schedule_key (fe_config sample_env)) (sv_now (id broken_view) div 1000) 10
      broken_view = [''a'', ''b'']"
    by (simp add: sample_env_def model_api_def broken_view_def empty_view_def)
  have rec: "sv_payloads (id broken_view) ''a'' = Some ''{}''" "sv_attempts (id broken_view) ''a'' = Some ''2''" "''a'' \<noteq> ''b''"
    "sv_payloads (id broken_view) ''b'' = None"
    by (simp_all add: broken_view_def)
  obtain r s' where run: "promote_due_retries_script (fe_api sample_env) (wc_stream (fe_config sample_env))
      (wc_retry_schedule_key (fe_config sample_env)) (wc_retry_payload_key (fe_config sample_env))
      (wc_retry_attempt_key (fe_config sample_env)) 10 broken_view = (r, s')" by force
  obtain e where out: "r = Inl ()" "sv_entries s' = sv_entries broken_view @ [(e, [(''payload'', ''{}''), (''attempt'', ''2'')])]"
    "sv_schedule s' = zset_remove ''a'' (sv_schedule broken_view)"
    using promotion_guard_ineffective [OF sample_env_documented due rec run] by auto
  then have "sv_entries s' = [(e, [(''payload'', ''{}''), (''attempt'', ''2'')])]" "sv_schedule s' = [(''b'', 0)]"
    by (simp_all add: broken_view_def empty_view_def zset_remove_def)
  with run out(1) show ?thesis by (auto simp: sample_env_def)
qed

section \<open>Settlement within the delivery budget\<close>

text \<open>What every registered handler gives: an acknowledgement when it succeeds.\<close>

definition registry_acknowledges :: "'w job_registry \<Rightarrow> bool" where
  "registry_acknowledges reg \<longleftrightarrow>
     (\<forall>name h payload attempt w action w'.
        map_of reg name = Some h \<longrightarrow> h payload attempt w = (Inr action, w') \<longrightarrow> action = Acknowledge)"

lemma dispatch_envelope_acknowledges:
  assumes "dispatch_envelope handler decoded attempt w = (Inr action, w')"
  shows "action = Acknowledge"
  using assms
  by (auto simp: dispatch_envelope_def job_dispatch_def map_error_def split: sum.splits prod.splits)

lemma register_acknowledges:
  assumes "registry_acknowledges reg" "register json j handler reg = Inr reg' \<or> register_with_upcaster json j handler upcast reg = Inr reg'"
  shows "registry_acknowledges reg'"
proof -
  obtain h where "reg' = btree_insert (job_NAME j) h reg"
    "h = strict_dispatch json j handler \<or> h = compatible_dispatch json j handler upcast"
    using assms(2) by (auto simp: register_def register_with_upcaster_def insert_handler_Inr)
  moreover from this(2) have "action = Acknowledge" if "h payload attempt w = (Inr action, w')" for payload attempt w action w'
    using that by (auto simp: strict_dispatch_def compatible_dispatch_def dest: dispatch_envelope_acknowledges)
  ultimately show ?thesis
    using assms(1) unfolding registry_acknowledges_def by (simp add: map_of_btree_insert) blast
qed

lemma registry_acknowledgesD:
  "registry_acknowledges reg \<Longrightarrow> map_of reg name = Some h \<Longrightarrow> h payload attempt w = (Inr action, w') \<Longrightarrow> action = Acknowledge"
  unfolding registry_acknowledges_def by blast

lemma choose_action_cases:
  assumes "registry_acknowledges reg" "del_attempt d = Some a" "choose_action read_identity reg policy d w = ((b, action), w')"
  shows "b = a \<and> (action = Acknowledge \<or> action = DeadLetter \<or> action = after_failure policy a)"
proof -
  obtain r w1 where r: "registry_dispatch read_identity reg (del_payload d) a w = (r, w1)" by force
  have "x = Acknowledge" if "r = Inr x" for x
    using r that
    by (auto simp: registry_dispatch_def split: if_splits option.splits dest: registry_acknowledgesD [OF assms(1)])
  then show ?thesis
    using assms(2,3) r by (auto simp: choose_action_def split: sum.splits registry_error.splits)
qed

text \<open>Under a policy that the worker accepts, every retry delay is a positive number of milliseconds.\<close>

lemma nonzero_duration_to_millis_Inr:
  "nonzero_duration_to_millis d = Inr ms \<longleftrightarrow>
   d \<noteq> 0 \<and> nanos_per_milli dvd d \<and> ms = as_millis d \<and> as_millis d < usize_bound"
proof -
  have dvd: "subsec_nanos d mod nanos_per_milli = 0 \<longleftrightarrow> nanos_per_milli dvd d"
    unfolding subsec_nanos_def by (subst mod_mod_cancel) (simp_all add: dvd_eq_mod_eq_0)
  have "as_millis d \<noteq> 0" if "d \<noteq> 0" "nanos_per_milli dvd d"
    using that unfolding as_millis_def by (auto elim!: dvdE)
  with dvd show ?thesis
    by (auto simp: nonzero_duration_to_millis_def duration_to_millis_def bind_result_eq_Inr split: if_splits)
qed

lemma validated_policy:
  assumes "validate_retry_policy p = Inr ()"
  shows "retry_policy_is_valid p" "nanos_per_milli dvd initial_backoff p" "nanos_per_milli dvd max_backoff p"
    "as_millis (max_backoff p) < usize_bound" "max_backoff p \<le> duration_max"
proof -
  obtain n m where v: "retry_policy_is_valid p" "nonzero_duration_to_millis (initial_backoff p) = Inr n"
    "nonzero_duration_to_millis (max_backoff p) = Inr m"
    using assms by (auto simp: validate_retry_policy_def isl_def split: if_splits) (metis sum.exhaust_sel)+
  then show "retry_policy_is_valid p" "nanos_per_milli dvd initial_backoff p" "nanos_per_milli dvd max_backoff p"
    "as_millis (max_backoff p) < usize_bound"
    by (simp_all only: nonzero_duration_to_millis_Inr)
  then have "max_backoff p < usize_bound * nanos_per_milli"
    unfolding as_millis_def by (simp add: div_less_iff_less_mult)
  then show "max_backoff p \<le> duration_max" by (simp add: duration_max_def)
qed

lemma backoff_millis:
  assumes "validate_retry_policy p = Inr ()"
  shows "\<exists>ms. nonzero_duration_to_millis (backoff p k) = Inr ms \<and> ms \<le> as_millis (max_backoff p)"
proof -
  note v = validated_policy [OF assms]
  have "nanos_per_milli dvd backoff p k" using v(2,3) by (auto simp: backoff_def min_def)
  moreover have "backoff p k \<noteq> 0" using backoff_bounds(1) [OF v(1), of k] v(1) by (simp add: retry_policy_is_valid_def)
  moreover have "as_millis (backoff p k) \<le> as_millis (max_backoff p)"
    unfolding as_millis_def by (rule div_le_mono) (rule backoff_bounds(2) [OF v(1)])
  ultimately show ?thesis using v(4) by (simp add: nonzero_duration_to_millis_Inr)
qed

subsection \<open>One round of a worker\<close>

lemma not_pending: "\<not> is_pending v k \<longleftrightarrow> sv_pending v k = None"
  unfolding is_pending_def by blast

text \<open>Nothing is under way; or exactly one delivery is, with a given attempt, waiting in the stream.\<close>

definition quiet :: "streams_view \<Rightarrow> bool" where
  "quiet v \<longleftrightarrow> sv_delivered v = length (sv_entries v) \<and> (\<forall>i. \<not> is_pending v i) \<and> sv_schedule v = []"

definition in_flight :: "'s streams_api \<Rightarrow> streams_view \<Rightarrow> u16 \<Rightarrow> bool" where
  "in_flight api v a \<longleftrightarrow>
     (\<exists>es i f. sv_entries v = es @ [(i, f)] \<and> sv_delivered v = length es \<and> (\<forall>k. \<not> is_pending v k) \<and> sv_schedule v = [] \<and>
        Option.bind (map_of f ''attempt'') (read_u16 api) = Some a)"

definition worker_round :: "('s, 'w) fleet_env \<Rightarrow> string \<Rightarrow> 'w fleet_event list" where
  "worker_round env consumer =
     [ReadNew consumer 1 Answered, Handle 0, Settle 0 Answered,
      Elapse (as_millis (max_backoff (fe_policy env)) * 1000), Tick consumer 1 Answered Answered []]"

lemma reclaim_nothing:
  assumes doc: "fleet_documented env view" and none: "\<forall>i. \<not> is_pending (view s) i"
    and step: "reclaim_pending (fe_api env) ((fe_config env)\<lparr>wc_consumer := consumer\<rparr>) n Answered [] s = (r, s')"
  shows "received r = [] \<and> view s' = view s"
proof -
  let ?c = "fe_config env" and ?api = "fe_api env"
  obtain reply s1 where cl: "xautoclaim ?api (wc_stream ?c) (wc_group ?c) consumer (wc_reclaim_idle_ms ?c) n s = (reply, s1)"
    by force
  note D = documented_claim [OF doc cl]
  have "entry_ids (ac_claimed reply) = {}"
  proof (rule equals0I)
    fix i assume "i \<in> entry_ids (ac_claimed reply)"
    from bspec [OF conjunct1 [OF conjunct2 [OF conjunct2 [OF D]]] this] have "is_pending (view s) i" by (auto simp: is_pending_def)
    with none show False by simp
  qed
  then have empty: "ac_claimed reply = []" by simp
  have "view s1 = view s" using D empty by (simp add: claim_pending_def)
  moreover have "s' = s1" "r = (if ac_deleted_ids reply \<noteq> [] \<or> ac_invalid_entries reply then Inl RsClaimedEntryMissing else Inr [])"
    using step cl empty by (auto simp: reclaim_pending_def bounded_def map_error_def split: if_splits)
  ultimately show ?thesis by (auto simp: received_def)
qed

lemma tick_nothing:
  assumes doc: "fleet_documented env view" and none: "\<forall>i. \<not> is_pending (view s) i" and sched: "sv_schedule (view s) = []"
    and step: "maintenance_tick (fe_api env) ((fe_config env)\<lparr>wc_consumer := consumer\<rparr>) n Answered Answered [] s = (r, s')"
  shows "received r = [] \<and> view s' = view s"
proof -
  let ?c = "fe_config env" and ?api = "fe_api env"
  obtain ids where ids: "zrangebyscore ?api (wc_retry_schedule_key ?c) (sv_now (view s) div 1000) (min n (wc_batch_size ?c)) s = ids"
    by blast
  have "ids = []" using documented_due [OF doc ids] sched by simp
  with ids have "promote_due_retries ?api (?c\<lparr>wc_consumer := consumer\<rparr>) (min n (wc_batch_size ?c)) Answered s = (Inr (), s)"
    by (simp add: promote_due_retries_def bounded_def promote_due_retries_script_def documentedD(14) [OF doc] micros_to_millis
        promote_check_True map_error_def)
  with step have "reclaim_pending ?api (?c\<lparr>wc_consumer := consumer\<rparr>) (min n (wc_batch_size ?c)) Answered [] s = (r, s')"
    by (simp add: maintenance_tick_def)
  from reclaim_nothing [OF doc none this] show ?thesis .
qed

lemma tick_promotes:
  assumes doc: "fleet_documented env view" and inv: "streams_inv (view s)" and none: "\<forall>i. \<not> is_pending (view s) i"
    and sched: "sv_schedule (view s) = [(i, due)]" "due \<le> sv_now (view s) div 1000"
    and n: "0 < n" "0 < wc_batch_size (fe_config env)"
    and step: "maintenance_tick (fe_api env) ((fe_config env)\<lparr>wc_consumer := consumer\<rparr>) n Answered Answered [] s = (r, s')"
  obtains k p a where "received r = []" "sv_payloads (view s) i = Some p" "sv_attempts (view s) i = Some a"
    "view s' = (view s)\<lparr>sv_entries := sv_entries (view s) @ [(k, [(''payload'', p), (''attempt'', a)])],
       sv_payloads := (sv_payloads (view s))(i := None), sv_attempts := (sv_attempts (view s))(i := None), sv_schedule := []\<rparr>"
proof -
  let ?c = "fe_config env" and ?api = "fe_api env"
  let ?n = "min n (wc_batch_size ?c)"
  obtain ids where ids: "zrangebyscore ?api (wc_retry_schedule_key ?c) (sv_now (view s) div 1000) ?n s = ids" by blast
  have "{m. \<exists>score \<le> sv_now (view s) div 1000. (m, score) \<in> set (sv_schedule (view s))} = {i}" using sched by auto
  with documented_due [OF doc ids] n have "length ids = 1" "set ids \<subseteq> {i}" by (simp_all add: min_def split: if_splits)
  then have i: "ids = [i]" by (cases ids) auto
  have "i \<in> fst ` set (sv_schedule (view s))" using sched by simp
  from promote_one_effect [OF doc inv this, of "[]"] obtain p a s4 k where
    one: "sv_payloads (view s) i = Some p" "sv_attempts (view s) i = Some a"
      "promote_loop ?api (wc_stream ?c) (wc_retry_schedule_key ?c) (wc_retry_payload_key ?c) (wc_retry_attempt_key ?c) [i] s =
       promote_loop ?api (wc_stream ?c) (wc_retry_schedule_key ?c) (wc_retry_payload_key ?c) (wc_retry_attempt_key ?c) [] s4"
      "view s4 = (view s)\<lparr>sv_entries := sv_entries (view s) @ [(k, [(''payload'', p), (''attempt'', a)])],
         sv_payloads := (sv_payloads (view s))(i := None), sv_attempts := (sv_attempts (view s))(i := None),
         sv_schedule := zset_remove i (sv_schedule (view s))\<rparr>" by metis
  have "promote_due_retries_script ?api (wc_stream ?c) (wc_retry_schedule_key ?c) (wc_retry_payload_key ?c)
      (wc_retry_attempt_key ?c) ?n s = (Inr 1, s4)"
    using one(3) by (simp add: promote_due_retries_script_def documentedD(14) [OF doc] micros_to_millis
        promote_check_True ids i del: promote_loop.simps(2))
  then have "promote_due_retries ?api (?c\<lparr>wc_consumer := consumer\<rparr>) ?n Answered s = (Inr (), s4)"
    by (simp add: promote_due_retries_def bounded_def map_error_def)
  with step have rec: "reclaim_pending ?api (?c\<lparr>wc_consumer := consumer\<rparr>) ?n Answered [] s4 = (r, s')"
    by (simp add: maintenance_tick_def)
  have "\<forall>i. \<not> is_pending (view s4) i" using none one(4) by (simp add: is_pending_def)
  from reclaim_nothing [OF doc this rec] have "received r = []" "view s' = view s4" by simp_all
  moreover have "zset_remove i (sv_schedule (view s)) = []" by (simp add: sched(1) zset_remove_def)
  ultimately show thesis using one(1,2,4) by (intro that [of p a k]) simp_all
qed

lemma round_quiet:
  fixes consumer :: string
  assumes doc: "fleet_documented env view" and held: "fl_held fl = []" and q: "quiet (view (fl_server fl))"
  defines "fl' \<equiv> fleet_run env (worker_round env consumer) fl"
  shows "fl_held fl' = [] \<and> quiet (view (fl_server fl'))"
proof -
  let ?c = "fe_config env" and ?api = "fe_api env" and ?s = "fl_server fl"
  obtain es s1 where rd: "xreadgroup ?api (wc_stream ?c) (wc_group ?c) consumer (min 1 (wc_batch_size ?c))
      (wc_block_timeout_ms ?c) ?s = (es, s1)" by force
  have es: "es = []" using conjunct1 [OF documented_read [OF doc rd]] q by (simp add: quiet_def)
  have v1: "view s1 = view ?s" using conjunct2 [OF documented_read [OF doc rd]] es by simp
  let ?s2 = "fe_elapse env (as_millis (max_backoff (fe_policy env)) * 1000) s1"
  have q2: "quiet (view ?s2)" using q v1 by (simp add: quiet_def documentedD(13) [OF doc] is_pending_def)
  obtain r s3 where tick: "maintenance_tick ?api (?c\<lparr>wc_consumer := consumer\<rparr>) 1 Answered Answered [] ?s2 = (r, s3)" by force
  have "received r = []" "view s3 = view ?s2"
    using tick_nothing [OF doc _ _ tick] q2 by (simp_all add: quiet_def)
  moreover have "fl' = fl\<lparr>fl_server := s3, fl_held := received r\<rparr>"
    using rd es held tick
    by (simp add: fl'_def worker_round_def read_new_def bounded_def map_error_def received_def)
  ultimately show ?thesis using q2 by simp
qed

lemma round_in_flight:
  fixes consumer :: string
  assumes doc: "fleet_documented env view" and inv: "streams_inv (view (fl_server fl))" and held: "fl_held fl = []"
    and fly: "in_flight (fe_api env) (view (fl_server fl)) a" "a \<noteq> 0"
    and env: "validate_retry_policy (fe_policy env) = Inr ()" "registry_acknowledges (fe_registry env)" "0 < wc_batch_size (fe_config env)"
  defines "fl' \<equiv> fleet_run env (worker_round env consumer) fl"
  shows "fl_held fl' = [] \<and> (quiet (view (fl_server fl')) \<or>
    a < max_deliveries (fe_policy env) \<and> in_flight (fe_api env) (view (fl_server fl')) (a + 1))"
proof -
  let ?c = "fe_config env" and ?api = "fe_api env" and ?s = "fl_server fl" and ?T = "as_millis (max_backoff (fe_policy env)) * 1000"
  obtain old i f where e: "sv_entries (view ?s) = old @ [(i, f)]" "sv_delivered (view ?s) = length old"
    "\<forall>k. \<not> is_pending (view ?s) k" "sv_schedule (view ?s) = []" "Option.bind (map_of f ''attempt'') (read_u16 ?api) = Some a"
    using fly(1) by (auto simp: in_flight_def)
  obtain es s1 where rd: "xreadgroup ?api (wc_stream ?c) (wc_group ?c) consumer (min 1 (wc_batch_size ?c))
      (wc_block_timeout_ms ?c) ?s = (es, s1)" by force
  have es: "es = [(i, f)]" using conjunct1 [OF documented_read [OF doc rd]] e env(3) by (simp add: min_def)
  have v1: "view s1 = (view ?s)\<lparr>sv_delivered := length (sv_entries (view ?s)),
      sv_pending := (\<lambda>k. if k = i then Some (consumer, sv_now (view ?s), 1) else sv_pending (view ?s) k)\<rparr>"
    using conjunct2 [OF documented_read [OF doc rd]] es e by simp
  let ?d = "delivery_from_entry ?api (?c\<lparr>wc_consumer := consumer\<rparr>) (i, f) None"
  have att: "del_attempt ?d = Some a"
    using e(5) fly(2) by (simp add: delivery_from_entry_def Let_def attempt_after_redeliveries_def word_gt_0)
  obtain b action w' where ch: "choose_action (fe_identity env) (fe_registry env) (fe_policy env) ?d (fl_world fl) = ((b, action), w')"
    by (metis prod.exhaust)
  have action: "action = Acknowledge \<or> action = DeadLetter \<or> action = after_failure (fe_policy env) a"
    using choose_action_cases [OF env(2) att ch] by blast
  let ?s2 = "snd (settle_action ?api ?c Answered ?d action s1)"
  let ?s3 = "fe_elapse env ?T ?s2"
  obtain r s4 where tick: "maintenance_tick ?api (?c\<lparr>wc_consumer := consumer\<rparr>) 1 Answered Answered [] ?s3 = (r, s4)" by force
  have fl': "fl' = fl\<lparr>fl_server := s4, fl_world := w', fl_held := received r\<rparr>"
    using rd es held tick ch
    by (simp add: fl'_def worker_round_def read_new_def bounded_def map_error_def received_def)
  have owned: "pending_owned ?api (wc_stream ?c) (wc_group ?c) (del_entry_id ?d) (del_consumer ?d) s1"
    by (simp add: pending_owned_def documentedD(3) [OF doc] v1)
  have v2: "view ?s2 = settled_view env ?d action (view s1)"
    using settle_action_view [OF doc, of Answered ?d action s1] owned by simp
  have v3: "view ?s3 = (view ?s2)\<lparr>sv_now := sv_now (view ?s2) + ?T\<rparr>" by (rule documentedD(13) [OF doc])
  have free: "\<forall>k. k \<noteq> i \<longrightarrow> sv_pending (view s1) k = None" using e(3) v1 by (simp add: not_pending)
  consider (settled) "sv_schedule (view ?s2) = []" "\<forall>k. \<not> is_pending (view ?s2) k" "sv_delivered (view ?s2) = length (sv_entries (view ?s2))"
    | (again) next_attempt delay ms where "action = Retry next_attempt delay" "nonzero_duration_to_millis delay = Inr ms"
        "ms \<le> as_millis (max_backoff (fe_policy env))" "a < max_deliveries (fe_policy env)" "next_attempt = a + 1"
  proof (cases "a < max_deliveries (fe_policy env) \<and> action = after_failure (fe_policy env) a")
    case True
    note pol = validated_policy [OF env(1)]
    obtain ms where "nonzero_duration_to_millis (backoff (fe_policy env) (unat a)) = Inr ms" "ms \<le> as_millis (max_backoff (fe_policy env))"
      using backoff_millis [OF env(1)] by blast
    moreover have "action = Retry (a + 1) (backoff (fe_policy env) (unat a))"
      using True pol(1) fly(2) after_failure_cases [OF pol(5), of a] by simp
    ultimately show thesis using again True by blast
  next
    case False
    then have "action = Acknowledge \<or> action = DeadLetter"
      using action after_failure_cases [OF validated_policy(5) [OF env(1)], of a] by (auto split: if_splits)
    then have "sv_schedule (view ?s2) = []" "\<forall>k. \<not> is_pending (view ?s2) k" "sv_delivered (view ?s2) = length (sv_entries (view ?s2))"
      using v1 v2 e free by (auto simp: settled_view_def Let_def not_pending split: if_splits)
    then show thesis by (rule settled)
  qed
  then show ?thesis
  proof cases
    case settled
    have "quiet (view ?s3)" using settled v3 by (simp add: quiet_def is_pending_def)
    moreover from this have "received r = []" "view s4 = view ?s3"
      using tick_nothing [OF doc _ _ tick] by (simp_all add: quiet_def)
    ultimately show ?thesis by (simp add: fl')
  next
    case again
    have v2': "view ?s2 = (view s1)\<lparr>sv_payloads := (sv_payloads (view s1))(i \<mapsto> entry_payload f),
        sv_attempts := (sv_attempts (view s1))(i \<mapsto> write_u16 ?api (a + 1)),
        sv_schedule := [(i, sv_now (view s1) div 1000 + ms)], sv_pending := (sv_pending (view s1))(i := None)\<rparr>"
      using v2 again e v1 by (simp add: settled_view_def Let_def zset_put_def)
    have si: "streams_inv (view ?s3)"
    proof -
      have inv1: "streams_inv (view s1)"
        using read_effect(1) [OF inv, of es 1 consumer] conjunct2 [OF documented_read [OF doc rd]] es e by simp
      have "held_inv (view s1) [(?d, None :: unit option)]" using v1 e by (auto simp: held_inv_def)
      from conjunct1 [OF settle_effect [OF doc inv1 this]] have "streams_inv (view ?s2)" .
      then show ?thesis using v3 by (simp add: streams_inv_def is_pending_def)
    qed
    have none: "\<forall>k. \<not> is_pending (view ?s3) k" using v2' v3 free by (simp add: is_pending_def)
    have sched: "sv_schedule (view ?s3) = [(i, sv_now (view s1) div 1000 + ms)]" using v2' v3 by simp
    have due: "sv_now (view s1) div 1000 + ms \<le> sv_now (view ?s3) div 1000"
      using v2' v3 again(3) by simp
    obtain k p at where out: "received r = []" "sv_payloads (view ?s3) i = Some p" "sv_attempts (view ?s3) i = Some at"
      "view s4 = (view ?s3)\<lparr>sv_entries := sv_entries (view ?s3) @ [(k, [(''payload'', p), (''attempt'', at)])],
         sv_payloads := (sv_payloads (view ?s3))(i := None), sv_attempts := (sv_attempts (view ?s3))(i := None), sv_schedule := []\<rparr>"
      by (rule tick_promotes [OF doc si none sched due zero_less_one env(3) tick]) (rule that)
    have "in_flight ?api (view s4) (a + 1)"
      using out v2' v3 none v1 documentedD(15) [OF doc, of "a + 1"]
      by (auto simp: in_flight_def is_pending_def)
    with out(1) again(4) show ?thesis by (simp add: fl')
  qed
qed

lemma publish_in_flight:
  assumes doc: "fleet_documented env view" and q: "quiet (view (fl_server fl))" and m: "msg_attempt message = a"
  shows "in_flight (fe_api env) (view (fl_server (fleet_step env (Publish message Answered) fl))) a"
proof -
  let ?api = "fe_api env" and ?c = "fe_config env"
  let ?f = "[(''payload'', msg_payload message), (''attempt'', write_u16 ?api (msg_attempt message))]"
  obtain i s1 where add: "xadd ?api (wc_stream ?c) ?f (fl_server fl) = (i, s1)" by force
  have "view s1 = (view (fl_server fl))\<lparr>sv_entries := sv_entries (view (fl_server fl)) @ [(i, ?f)]\<rparr>"
    using documentedD(1) [OF doc add] by simp
  moreover have "fl_server (fleet_step env (Publish message Answered) fl) = s1"
    by (simp add: redis_publish_def bounded_def add map_error_def)
  ultimately show ?thesis
    using q m documentedD(15) [OF doc, of a] by (simp add: in_flight_def quiet_def is_pending_def)
qed

subsection \<open>Enough rounds\<close>

lemma run_published_rounds: "run_published (concat (replicate n (worker_round env consumer))) = {#}"
  by (induction n) (simp_all add: worker_round_def)

lemma rounds_quiet:
  assumes "fleet_documented env view" "fl_held fl = []" "quiet (view (fl_server fl))"
  shows "quiet (view (fl_server (fleet_run env (concat (replicate n (worker_round env consumer))) fl)))"
  using assms(2,3)
proof (induction n arbitrary: fl)
  case (Suc n)
  from round_quiet [OF assms(1) Suc.prems, of consumer] Suc.IH show ?case
    by (simp add: fleet_run_append)
qed simp

text \<open>The attempt of the delivery in flight grows with each round until the budget of the policy is reached.\<close>

lemma rounds_in_flight:
  assumes doc: "fleet_documented env view" and env: "validate_retry_policy (fe_policy env) = Inr ()"
      "registry_acknowledges (fe_registry env)" "0 < wc_batch_size (fe_config env)"
    and "fleet_inv view fl" "fl_held fl = []" "in_flight (fe_api env) (view (fl_server fl)) a" "0 < unat a"
    and "unat a + n = Suc (unat (max_deliveries (fe_policy env)))" "0 < n"
  shows "quiet (view (fl_server (fleet_run env (concat (replicate n (worker_round env consumer))) fl)))"
  using assms(5-10)
proof (induction n arbitrary: fl a)
  case (Suc n)
  let ?fl = "fleet_run env (worker_round env consumer) fl"
  have "a \<noteq> 0" using Suc.prems(4) by auto
  from round_in_flight [OF doc _ Suc.prems(2,3) this env, of consumer] Suc.prems(1)
  have held: "fl_held ?fl = []" and next_round: "quiet (view (fl_server ?fl)) \<or>
      a < max_deliveries (fe_policy env) \<and> in_flight (fe_api env) (view (fl_server ?fl)) (a + 1)"
    by (simp_all add: fleet_inv_def)
  show ?case
  proof (cases "quiet (view (fl_server ?fl))")
    case True
    from rounds_quiet [OF doc held this, of n consumer] show ?thesis by (simp add: fleet_run_append)
  next
    case False
    with next_round have less: "a < max_deliveries (fe_policy env)"
      and fly: "in_flight (fe_api env) (view (fl_server ?fl)) (a + 1)" by simp_all
    have "unat (a + 1) = Suc (unat a)" using u16_succ(1) [OF less] by simp
    moreover have "fleet_inv view ?fl" using fleet_run_effect [OF doc Suc.prems(1)] by simp
    moreover have "0 < n" using Suc.prems(5) less by (simp add: word_less_nat_alt)
    ultimately show ?thesis using Suc.IH [OF _ held fly] Suc.prems(5) by (simp add: fleet_run_append)
  qed
qed simp

lemma quiet_outstanding: "quiet v \<Longrightarrow> outstanding v = dead v"
  by (simp add: quiet_def outstanding_def live_def retrying_def)

text \<open>C5. A published job is settled within the delivery budget.  When a message is published to a stream on
  which nothing is under way, then after as many rounds of one worker as the retry policy allows deliveries
  (each round reads, runs the handler, settles, and lets the longest backoff pass before the next maintenance
  tick) nothing is under way again: the stream has no undelivered and no pending entry and the retry schedule
  is empty.  The job has been acknowledged, or is in the dead-letter stream, exactly once.\<close>

theorem job_settles_in_budget:
  assumes doc: "fleet_documented env view" and inv: "fleet_inv view fl"
    and start: "fl_held fl = []" "quiet (view (fl_server fl))" "msg_attempt message = 1"
    and env: "validate_retry_policy (fe_policy env) = Inr ()" "registry_acknowledges (fe_registry env)"
      "0 < wc_batch_size (fe_config env)"
  shows "quiet (view (fl_server (fleet_run env (Publish message Answered #
      concat (replicate (unat (max_deliveries (fe_policy env))) (worker_round env consumer))) fl))) \<and>
    dead (view (fl_server (fleet_run env (Publish message Answered #
      concat (replicate (unat (max_deliveries (fe_policy env))) (worker_round env consumer))) fl))) +
    run_acknowledged env (Publish message Answered #
      concat (replicate (unat (max_deliveries (fe_policy env))) (worker_round env consumer))) fl =
    dead (view (fl_server fl)) + {#msg_payload message#}" (is "quiet (view (fl_server (fleet_run env (?p # ?rs) fl))) \<and> _")
proof -
  let ?fl = "fleet_step env ?p fl"
  have inv': "fleet_inv view ?fl" using fleet_step_effect [OF doc inv] by blast
  have held: "fl_held ?fl = []" using start(1) by simp
  have fly: "in_flight (fe_api env) (view (fl_server ?fl)) 1" by (rule publish_in_flight [OF doc start(2,3)])
  have "0 < max_deliveries (fe_policy env)"
    using validated_policy(1) [OF env(1)] by (simp add: retry_policy_is_valid_def word_gt_0)
  then have "0 < unat (max_deliveries (fe_policy env))" by (simp add: word_less_nat_alt)
  then have q: "quiet (view (fl_server (fleet_run env (?p # ?rs) fl)))"
    using rounds_in_flight [OF doc env inv' held fly, of "unat (max_deliveries (fe_policy env))" consumer] by simp
  from fleet_run_effect [OF doc inv, of "?p # ?rs"] have
    "outstanding (view (fl_server (fleet_run env (?p # ?rs) fl))) + run_acknowledged env (?p # ?rs) fl =
      outstanding (view (fl_server fl)) + {#msg_payload message#}"
    by (simp add: run_published_rounds)
  with q start(2) show ?thesis by (simp only: quiet_outstanding)
qed

lemma sample_env_accepted:
  "validate_retry_policy (fe_policy sample_env) = Inr ()" "registry_acknowledges (fe_registry sample_env)"
  "0 < wc_batch_size (fe_config sample_env)"
proof -
  show "validate_retry_policy (fe_policy sample_env) = Inr ()"
    by (simp add: sample_env_def validate_retry_policy_def retry_policy_default_def retry_policy_is_valid_def
        nonzero_duration_to_millis_def duration_to_millis_def from_secs_def as_millis_def subsec_nanos_def)
  show "registry_acknowledges (fe_registry sample_env)"
    by (auto simp: registry_acknowledges_def sample_env_def strict_dispatch_def dest: dispatch_envelope_acknowledges)
  show "0 < wc_batch_size (fe_config sample_env)" by (simp add: sample_env_def sample_config_def)
qed

lemma job_settles_in_budget_witness:
  "quiet (fl_server sample_fleet) \<and> unat (max_deliveries (fe_policy sample_env)) = 5 \<and>
   quiet (fl_server (fleet_run sample_env (Publish sample_message Answered # concat (replicate 5 (worker_round sample_env ''a'')))
     sample_fleet)) \<and>
   dead (fl_server (fleet_run sample_env (Publish sample_message Answered # concat (replicate 5 (worker_round sample_env ''a'')))
     sample_fleet)) +
   run_acknowledged sample_env (Publish sample_message Answered # concat (replicate 5 (worker_round sample_env ''a'')))
     sample_fleet = {#''{}''#}"
proof -
  have start: "fl_held sample_fleet = []" "quiet (id (fl_server sample_fleet))" "msg_attempt sample_message = 1"
    "dead (fl_server sample_fleet) = {#}" "msg_payload sample_message = ''{}''"
    by (simp_all add: sample_fleet_def empty_view_def quiet_def is_pending_def sample_message_def dead_def)
  moreover have "unat (max_deliveries (fe_policy sample_env)) = 5"
    by (simp add: sample_env_def retry_policy_default_def)
  ultimately show ?thesis
    using job_settles_in_budget [OF sample_env_documented sample_fleet_inv start(1-3) sample_env_accepted, of "''a''"]
    by (simp del: fleet_run.simps run_acknowledged.simps)
qed

end
