(* ===== verification/JobsWorker.thy ===== *)
theory JobsWorker
  imports JobsFleet
begin

text \<open>
  The worker loop (\<open>rustee-jobs-redis/src/worker/runner.rs\<close>) and the observation of deliveries
  (\<open>rustee-jobs/src/delivery/observation.rs\<close>).  The loop selects between shutdown, a finished task, the
  maintenance tick and new deliveries, and each delivery runs in a task of its own, so a run is a sequence
  of events chosen by the runtime: which branch is ready, how far a task gets, when a deadline passes.
  Every event is one function on the state of the worker.

  The loop refines the fleet of theory JobsFleet: each event of the loop is a short sequence of fleet events
  on the same server, so the conservation of jobs holds for the loop as it is written.
\<close>

section \<open>Observation of a delivery\<close>

datatype delivery_event =
    DeliveryStarted string
  | DeliveryFinished string "u16 option" delivery_outcome duration

text \<open>An observer gives its new state and whether it panicked; the panic is caught and dropped.\<close>

type_synonym 'o observer = "delivery_event \<Rightarrow> 'o \<Rightarrow> bool \<times> 'o"

record observation =
  obs_provider :: string
  obs_started_at :: duration
  obs_finished :: bool

definition notify :: "'o observer \<Rightarrow> delivery_event \<Rightarrow> 'o \<Rightarrow> 'o" where
  "notify observer event obs = snd (observer event obs)"

definition observation_start :: "'o observer \<Rightarrow> string \<Rightarrow> duration \<Rightarrow> 'o \<Rightarrow> observation \<times> 'o" where
  "observation_start observer provider now obs =
     (let obs' = notify observer (DeliveryStarted provider) obs in
      (\<lparr>obs_provider = provider, obs_started_at = now, obs_finished = False\<rparr>, obs'))"

definition observation_drop :: "'o observer \<Rightarrow> observation \<Rightarrow> duration \<Rightarrow> 'o \<Rightarrow> 'o" where
  "observation_drop observer ob now obs =
     (if obs_finished ob then obs
      else notify observer (DeliveryFinished (obs_provider ob) None OutUnsettled (now - obs_started_at ob)) obs)"

text \<open>\<open>finish\<close> consumes the observation, which is dropped at its end.\<close>

definition observation_finish ::
  "'o observer \<Rightarrow> observation \<Rightarrow> u16 option \<Rightarrow> delivery_outcome \<Rightarrow> duration \<Rightarrow> 'o \<Rightarrow> 'o" where
  "observation_finish observer ob attempt outcome now obs =
     (let ob' = ob\<lparr>obs_finished := True\<rparr>;
          obs' = notify observer (DeliveryFinished (obs_provider ob) attempt outcome (now - obs_started_at ob)) obs in
      observation_drop observer ob' now obs')"

section \<open>Tasks\<close>

text \<open>
  How far the task of a delivery got: not yet polled, the observation started, the action chosen by the handler,
  the settlement command executed by the server, ended.  A task that panicked has no result.
\<close>

datatype task =
    Spawned delivery
  | Observed delivery observation
  | Chosen delivery observation "u16 \<times> delivery_action"
  | Settled observation "(redis_streams_error, u16 \<times> delivery_outcome) result"
  | Ended "(redis_streams_error, unit) result option"

text \<open>The end of the task in \<open>spawn_delivery_task\<close>.\<close>

definition finish_task ::
  "'o observer \<Rightarrow> observation \<Rightarrow> (redis_streams_error, u16 \<times> delivery_outcome) result \<Rightarrow> duration \<Rightarrow> 'o \<Rightarrow> task \<times> 'o" where
  "finish_task observer ob result now obs =
     (case result of
        Inr (attempt, outcome) \<Rightarrow>
          (Ended (Some (Inr ())),
           observation_finish observer ob (if attempt = 0 then None else Some attempt) outcome now obs)
      | Inl e \<Rightarrow>
          (Ended (Some (Inl e)), observation_finish observer ob None OutUnsettled now obs))"

text \<open>Cancelling a task drops the observation it holds.\<close>

fun task_drop :: "'o observer \<Rightarrow> duration \<Rightarrow> task \<Rightarrow> 'o \<Rightarrow> 'o" where
  "task_drop observer now (Observed d ob) obs = observation_drop observer ob now obs"
| "task_drop observer now (Chosen d ob c) obs = observation_drop observer ob now obs"
| "task_drop observer now (Settled ob r) obs = observation_drop observer ob now obs"
| "task_drop observer now _ obs = obs"

section \<open>The loop\<close>

text \<open>
  \<open>Draining\<close> is \<open>drain_tasks\<close> after the loop ended with a result; \<open>Leaving\<close> is the way out with tasks left,
  which are cancelled: after an error returned from inside the loop, an error while draining, or the drain
  deadline.
\<close>

datatype loop_state =
    Looping
  | Draining "(redis_streams_error, unit) result"
  | Leaving "(redis_streams_error, unit) result"
  | Returned "(redis_streams_error, unit) result"

record ('s, 'w, 'o) worker_env =
  we_fleet :: "('s, 'w) fleet_env"
  we_process :: "delivery \<Rightarrow> 'w \<Rightarrow> (redis_streams_error, u16 \<times> delivery_action) result \<times> 'w"
  we_observer :: "'o observer"
  we_concurrency :: nat

record ('s, 'w, 'o) worker =
  wk_server :: 's
  wk_world :: 'w
  wk_observed :: 'o
  wk_now :: duration
  wk_tasks :: "task list"
  wk_loop :: loop_state

text \<open>
  The events: the branches of the loop and of the drain, the progress of a task, and what happens around the
  worker.  A read in progress is cancelled when another branch is taken first; its command may have been
  executed.  The handlers of a panicking or cancelled task may have changed the world.
\<close>

datatype 'w loop_event =
    Shutdown
  | Joined nat
  | MaintenanceTick redis_link redis_link "redis_link list"
  | Received redis_link
  | ReadCancelled redis_link
  | Drained
  | DrainTimeout
  | TasksDropped 'w

datatype 'w task_event =
    TaskStarts
  | TaskHandles
  | TaskSettles redis_link
  | TaskFinishes
  | TaskPanics 'w

datatype 'w worker_event =
    Loop "'w loop_event"
  | Task nat "'w task_event"
  | Published job_message redis_link
  | TimePasses nat

definition available :: "('s, 'w, 'o) worker_env \<Rightarrow> ('s, 'w, 'o) worker \<Rightarrow> nat" where
  "available env wk = we_concurrency env - length (wk_tasks wk)"

definition task_at :: "nat \<Rightarrow> ('s, 'w, 'o) worker \<Rightarrow> task option" where
  "task_at i wk = (if i < length (wk_tasks wk) then Some (wk_tasks wk ! i) else None)"

definition first_error :: "('e, unit) result \<Rightarrow> ('e, unit) result \<Rightarrow> ('e, unit) result" where
  "first_error r r' = bind_result r (\<lambda>_. r')"

text \<open>The start of \<open>run_with\<close>: the policy and the server are checked before anything is received.\<close>

definition run_with_start :: "('s, 'w, 'o) worker_env \<Rightarrow> ('s, 'w, 'o) worker \<Rightarrow> ('s, 'w, 'o) worker" where
  "run_with_start env wk =
     (case validate_retry_policy (fe_policy (we_fleet env)) of
        Inl e \<Rightarrow> wk\<lparr>wk_loop := Returned (Inl e)\<rparr>
      | Inr _ \<Rightarrow>
          (case worker_readiness (fe_api (we_fleet env)) (fe_config (we_fleet env)) (wk_server wk) of
             Inl e \<Rightarrow> wk\<lparr>wk_loop := Returned (Inl e)\<rparr>
           | Inr _ \<Rightarrow> wk\<lparr>wk_tasks := [], wk_loop := Looping\<rparr>))"

text \<open>Deliveries are spawned; an error leaves the loop at once.\<close>

definition spawn_deliveries ::
  "(redis_streams_error, delivery list) result \<times> 's \<Rightarrow> ('s, 'w, 'o) worker \<Rightarrow> ('s, 'w, 'o) worker" where
  "spawn_deliveries reply wk =
     (case reply of
        (Inl e, s') \<Rightarrow> wk\<lparr>wk_server := s', wk_loop := Leaving (Inl e)\<rparr>
      | (Inr ds, s') \<Rightarrow> wk\<lparr>wk_server := s', wk_tasks := wk_tasks wk @ map Spawned ds\<rparr>)"

definition task_result :: "(redis_streams_error, unit) result option \<Rightarrow> (redis_streams_error, unit) result" where
  "task_result r = (case r of None \<Rightarrow> Inl RsWorkerTask | Some r \<Rightarrow> r)"

definition loop_step :: "('s, 'w, 'o) worker_env \<Rightarrow> 'w loop_event \<Rightarrow> ('s, 'w, 'o) worker \<Rightarrow> ('s, 'w, 'o) worker" where
  "loop_step env e wk =
     (let fe = we_fleet env; room = available env wk in
      case e of
        Shutdown \<Rightarrow> wk\<lparr>wk_loop := Draining (Inr ())\<rparr>
      | Joined i \<Rightarrow>
          (case task_at i wk of
             Some (Ended r) \<Rightarrow>
               wk\<lparr>wk_tasks := take i (wk_tasks wk) @ drop (i + 1) (wk_tasks wk),
                  wk_loop := (case task_result r of Inr _ \<Rightarrow> Looping | Inl e \<Rightarrow> Draining (Inl e))\<rparr>
           | _ \<Rightarrow> wk)
      | MaintenanceTick promote_link claim_link links \<Rightarrow>
          if room > 0 then
            spawn_deliveries (maintenance_tick (fe_api fe) (fe_config fe) room promote_link claim_link links (wk_server wk)) wk
          else wk
      | Received link \<Rightarrow>
          if room > 0 then spawn_deliveries (read_new (fe_api fe) (fe_config fe) room link (wk_server wk)) wk
          else wk
      | ReadCancelled link \<Rightarrow>
          if room > 0 \<and> link \<noteq> Answered then
            wk\<lparr>wk_server := snd (read_new (fe_api fe) (fe_config fe) room link (wk_server wk))\<rparr>
          else wk
      | _ \<Rightarrow> wk)"

definition drain_step :: "(redis_streams_error, unit) result \<Rightarrow> 'w loop_event \<Rightarrow> ('s, 'w, 'o) worker \<Rightarrow> ('s, 'w, 'o) worker" where
  "drain_step run_result e wk =
     (case e of
        Joined i \<Rightarrow>
          (case task_at i wk of
             Some (Ended r) \<Rightarrow>
               wk\<lparr>wk_tasks := take i (wk_tasks wk) @ drop (i + 1) (wk_tasks wk),
                  wk_loop := (case task_result r of Inr _ \<Rightarrow> Draining run_result
                    | Inl e \<Rightarrow> Leaving (first_error run_result (Inl e)))\<rparr>
           | _ \<Rightarrow> wk)
      | Drained \<Rightarrow> if wk_tasks wk = [] then wk\<lparr>wk_loop := Returned (first_error run_result (Inr ()))\<rparr> else wk
      | DrainTimeout \<Rightarrow> wk\<lparr>wk_loop := Leaving (first_error run_result (Inl RsDrainTimeout))\<rparr>
      | _ \<Rightarrow> wk)"

definition leave_step ::
  "('s, 'w, 'o) worker_env \<Rightarrow> (redis_streams_error, unit) result \<Rightarrow> 'w loop_event \<Rightarrow> ('s, 'w, 'o) worker \<Rightarrow> ('s, 'w, 'o) worker" where
  "leave_step env result e wk =
     (case e of
        TasksDropped w \<Rightarrow>
          wk\<lparr>wk_world := w, wk_observed := fold (task_drop (we_observer env) (wk_now wk)) (wk_tasks wk) (wk_observed wk),
             wk_tasks := [], wk_loop := Returned result\<rparr>
      | _ \<Rightarrow> wk)"

text \<open>The progress of one task: \<open>spawn_delivery_task\<close> around the processing of the delivery.\<close>

definition task_step ::
  "('s, 'w, 'o) worker_env \<Rightarrow> nat \<Rightarrow> 'w task_event \<Rightarrow> task \<Rightarrow> ('s, 'w, 'o) worker \<Rightarrow> ('s, 'w, 'o) worker" where
  "task_step env i e t wk =
     (case (e, t) of
        (TaskStarts, Spawned d) \<Rightarrow>
          (case observation_start (we_observer env) ''redis_streams'' (wk_now wk) (wk_observed wk) of
             (ob, obs') \<Rightarrow> wk\<lparr>wk_observed := obs', wk_tasks := (wk_tasks wk)[i := Observed d ob]\<rparr>)
      | (TaskHandles, Observed d ob) \<Rightarrow>
          (case we_process env d (wk_world wk) of
             (Inr c, w') \<Rightarrow> wk\<lparr>wk_world := w', wk_tasks := (wk_tasks wk)[i := Chosen d ob c]\<rparr>
           | (Inl err, w') \<Rightarrow> wk\<lparr>wk_world := w', wk_tasks := (wk_tasks wk)[i := Settled ob (Inl err)]\<rparr>)
      | (TaskPanics w, Observed d ob) \<Rightarrow>
          wk\<lparr>wk_world := w, wk_observed := observation_drop (we_observer env) ob (wk_now wk) (wk_observed wk),
             wk_tasks := (wk_tasks wk)[i := Ended None]\<rparr>
      | (TaskSettles link, Chosen d ob (attempt, action)) \<Rightarrow>
          (case settle_action (fe_api (we_fleet env)) (fe_config (we_fleet env)) link d action (wk_server wk) of
             (r, s') \<Rightarrow>
               wk\<lparr>wk_server := s',
                  wk_tasks := (wk_tasks wk)[i := Settled ob (bind_result r (\<lambda>outcome. Inr (attempt, outcome)))]\<rparr>)
      | (TaskFinishes, Settled ob r) \<Rightarrow>
          (case finish_task (we_observer env) ob r (wk_now wk) (wk_observed wk) of
             (t', obs') \<Rightarrow> wk\<lparr>wk_observed := obs', wk_tasks := (wk_tasks wk)[i := t']\<rparr>)
      | _ \<Rightarrow> wk)"

fun run_with_step :: "('s, 'w, 'o) worker_env \<Rightarrow> 'w worker_event \<Rightarrow> ('s, 'w, 'o) worker \<Rightarrow> ('s, 'w, 'o) worker" where
  "run_with_step env (Loop e) wk =
     (case wk_loop wk of
        Looping \<Rightarrow> loop_step env e wk
      | Draining r \<Rightarrow> drain_step r e wk
      | Leaving r \<Rightarrow> leave_step env r e wk
      | Returned r \<Rightarrow> wk)"
| "run_with_step env (Task i e) wk = (case task_at i wk of None \<Rightarrow> wk | Some t \<Rightarrow> task_step env i e t wk)"
| "run_with_step env (Published message link) wk =
     wk\<lparr>wk_server := snd (redis_publish (fe_api (we_fleet env)) (wc_stream (fe_config (we_fleet env))) link message (wk_server wk))\<rparr>"
| "run_with_step env (TimePasses t) wk =
     wk\<lparr>wk_server := fe_elapse (we_fleet env) t (wk_server wk), wk_now := wk_now wk + t * 1000\<rparr>"

fun run_with :: "('s, 'w, 'o) worker_env \<Rightarrow> 'w worker_event list \<Rightarrow> ('s, 'w, 'o) worker \<Rightarrow> ('s, 'w, 'o) worker" where
  "run_with env [] wk = wk"
| "run_with env (e # es) wk = run_with env es (run_with_step env e wk)"

text \<open>The two entry points: a registry of handlers, or one typed handler.\<close>

definition run_registry_until ::
  "(bytes \<Rightarrow> string option) \<Rightarrow> 'w job_registry \<Rightarrow> retry_policy \<Rightarrow> delivery \<Rightarrow> 'w \<Rightarrow>
   (redis_streams_error, u16 \<times> delivery_action) result \<times> 'w" where
  "run_registry_until read_identity reg policy d w =
     (case choose_action read_identity reg policy d w of (c, w') \<Rightarrow> (Inr c, w'))"

definition run_until ::
  "('j, 'v) job_json \<Rightarrow> job_type \<Rightarrow> ('j, 'e, 'w) job_handler \<Rightarrow> retry_policy \<Rightarrow> delivery \<Rightarrow> 'w \<Rightarrow>
   (redis_streams_error, u16 \<times> delivery_action) result \<times> 'w" where
  "run_until json j handler policy d w = choose_typed_action json j handler policy d w"


section \<open>The loop as fleet events\<close>

text \<open>The deliveries whose settlement command has not been executed, and the fleet seen by the server.\<close>

fun held_task :: "task \<Rightarrow> (delivery \<times> (u16 \<times> delivery_action) option) list" where
  "held_task (Spawned d) = [(d, None)]"
| "held_task (Observed d _) = [(d, None)]"
| "held_task (Chosen d _ c) = [(d, Some c)]"
| "held_task _ = []"

definition held_tasks :: "task list \<Rightarrow> (delivery \<times> (u16 \<times> delivery_action) option) list" where
  "held_tasks ts = concat (map held_task ts)"

definition fleet_of :: "('s, 'w, 'o) worker \<Rightarrow> ('s, 'w) fleet" where
  "fleet_of wk = \<lparr>fl_server = wk_server wk, fl_world = wk_world wk, fl_held = held_tasks (wk_tasks wk)\<rparr>"

text \<open>The fleet events that an event of the worker stands for.\<close>

definition loop_events :: "('s, 'w, 'o) worker_env \<Rightarrow> 'w loop_event \<Rightarrow> ('s, 'w, 'o) worker \<Rightarrow> 'w fleet_event list" where
  "loop_events env e wk =
     (let consumer = wc_consumer (fe_config (we_fleet env)); room = available env wk in
      case (e, wk_loop wk) of
        (MaintenanceTick l1 l2 ls, Looping) \<Rightarrow> if room > 0 then [Tick consumer room l1 l2 ls] else []
      | (Received link, Looping) \<Rightarrow> if room > 0 then [ReadNew consumer room link] else []
      | (ReadCancelled link, Looping) \<Rightarrow> if room > 0 \<and> link \<noteq> Answered then [ReadNew consumer room link] else []
      | (TasksDropped w, Leaving _) \<Rightarrow> [Crash consumer w]
      | _ \<Rightarrow> [])"

definition task_events :: "nat \<Rightarrow> 'w task_event \<Rightarrow> task \<Rightarrow> 'w fleet_event list" where
  "task_events k e t =
     (case (e, t) of
        (TaskHandles, Observed _ _) \<Rightarrow> [Handle k]
      | (TaskPanics w, Observed _ _) \<Rightarrow> [Abandon k w]
      | (TaskSettles link, Chosen _ _ _) \<Rightarrow> [Settle k link]
      | _ \<Rightarrow> [])"

fun fleet_events :: "('s, 'w, 'o) worker_env \<Rightarrow> 'w worker_event \<Rightarrow> ('s, 'w, 'o) worker \<Rightarrow> 'w fleet_event list" where
  "fleet_events env (Loop e) wk = loop_events env e wk"
| "fleet_events env (Task i e) wk =
     (case task_at i wk of None \<Rightarrow> [] | Some t \<Rightarrow> task_events (length (held_tasks (take i (wk_tasks wk)))) e t)"
| "fleet_events env (Published message link) wk = [Publish message link]"
| "fleet_events env (TimePasses t) wk = [Elapse t]"

fun fleet_trace :: "('s, 'w, 'o) worker_env \<Rightarrow> 'w worker_event list \<Rightarrow> ('s, 'w, 'o) worker \<Rightarrow> 'w fleet_event list" where
  "fleet_trace env [] wk = []"
| "fleet_trace env (e # es) wk = fleet_events env e wk @ fleet_trace env es (run_with_step env e wk)"

text \<open>Every delivery was received under the consumer name of the worker.\<close>

definition own_deliveries :: "('s, 'w, 'o) worker_env \<Rightarrow> (delivery \<times> 'a) list \<Rightarrow> bool" where
  "own_deliveries env held \<longleftrightarrow> (\<forall>x \<in> set held. del_consumer (fst x) = wc_consumer (fe_config (we_fleet env)))"

lemma own_deliveries_simps [simp]:
  "own_deliveries env []"
  "own_deliveries env (x # xs) \<longleftrightarrow> del_consumer (fst x) = wc_consumer (fe_config (we_fleet env)) \<and> own_deliveries env xs"
  "own_deliveries env (xs @ ys) \<longleftrightarrow> own_deliveries env xs \<and> own_deliveries env ys"
  by (auto simp: own_deliveries_def)

lemma held_tasks_simps [simp]:
  "held_tasks [] = []" "held_tasks (t # ts) = held_task t @ held_tasks ts" "held_tasks (ts @ us) = held_tasks ts @ held_tasks us"
  by (simp_all add: held_tasks_def)

lemma held_tasks_spawned: "held_tasks (map Spawned ds) = map (\<lambda>d. (d, None)) ds"
  by (induction ds) simp_all

lemma held_tasks_split:
  assumes "i < length ts"
  shows "held_tasks ts = held_tasks (take i ts) @ held_task (ts ! i) @ held_tasks (drop (Suc i) ts)"
    "held_tasks (ts[i := t]) = held_tasks (take i ts) @ held_task t @ held_tasks (drop (Suc i) ts)"
  using assms by (simp_all add: upd_conv_take_nth_drop flip: held_tasks_simps(2,3)) (metis id_take_nth_drop)

lemma read_new_consumer:
  assumes "read_new api c n link s = (Inr ds, s')" "d \<in> set ds"
  shows "del_consumer d = wc_consumer c"
  using assms by (auto simp: read_new_def delivery_from_entry_def Let_def split: sum.splits prod.splits)

lemma reclaim_deliveries_consumer:
  "reclaim_deliveries api c links es s = Inr ds \<Longrightarrow> d \<in> set ds \<Longrightarrow> del_consumer d = wc_consumer c"
  by (induction es arbitrary: links ds) (auto simp: bind_result_eq_Inr delivery_from_entry_def Let_def)

lemma tick_consumer:
  assumes "maintenance_tick api c n l1 l2 ls s = (Inr ds, s')" "d \<in> set ds"
  shows "del_consumer d = wc_consumer c"
  using assms
  by (auto simp: maintenance_tick_def reclaim_pending_def split: sum.splits prod.splits if_splits
      dest: reclaim_deliveries_consumer)


text \<open>One event, by the part of the program that takes it.\<close>

lemma spawn_simulates:
  assumes own: "own_deliveries env (held_tasks (wk_tasks wk))"
    and new: "\<And>ds d s'. reply = (Inr ds, s') \<Longrightarrow> d \<in> set ds \<Longrightarrow> del_consumer d = wc_consumer (fe_config (we_fleet env))"
  shows "fleet_of (spawn_deliveries reply wk) =
      (fleet_of wk)\<lparr>fl_server := snd reply, fl_held := fl_held (fleet_of wk) @ received (fst reply)\<rparr> \<and>
    own_deliveries env (held_tasks (wk_tasks (spawn_deliveries reply wk)))"
proof (cases "fst reply")
  case (Inl e)
  then show ?thesis
    using own by (cases reply) (simp add: spawn_deliveries_def fleet_of_def received_def)
next
  case (Inr ds)
  then show ?thesis
    using own new
    by (cases reply) (auto simp: spawn_deliveries_def fleet_of_def received_def held_tasks_spawned own_deliveries_def)
qed

lemma joined_simulates:
  assumes "task_at i wk = Some (Ended r)"
  shows "held_tasks (take i (wk_tasks wk)) @ held_tasks (drop (Suc i) (wk_tasks wk)) = held_tasks (wk_tasks wk)"
proof -
  have "i < length (wk_tasks wk)" "wk_tasks wk ! i = Ended r"
    using assms by (auto simp: task_at_def split: if_splits)
  then show ?thesis using held_tasks_split(1) [of i "wk_tasks wk"] by simp
qed

lemma loop_step_simulates:
  assumes own: "own_deliveries env (held_tasks (wk_tasks wk))" and looping: "wk_loop wk = Looping"
  shows "fleet_run (we_fleet env) (loop_events env e wk) (fleet_of wk) = fleet_of (loop_step env e wk) \<and>
    own_deliveries env (held_tasks (wk_tasks (loop_step env e wk)))"
proof -
  let ?c = "fe_config (we_fleet env)"
  have c: "?c\<lparr>wc_consumer := wc_consumer ?c\<rparr> = ?c" by simp
  show ?thesis
  proof (cases e)
    case (MaintenanceTick l1 l2 ls)
    let ?r = "maintenance_tick (fe_api (we_fleet env)) ?c (available env wk) l1 l2 ls (wk_server wk)"
    have "fleet_of (spawn_deliveries ?r wk) =
        (fleet_of wk)\<lparr>fl_server := snd ?r, fl_held := fl_held (fleet_of wk) @ received (fst ?r)\<rparr> \<and>
      own_deliveries env (held_tasks (wk_tasks (spawn_deliveries ?r wk)))"
      by (rule spawn_simulates [OF own]) (erule (1) tick_consumer)
    with MaintenanceTick looping own show ?thesis
      by (cases ?r) (auto simp: loop_events_def loop_step_def Let_def fleet_of_def c)
  next
    case (Received link)
    let ?r = "read_new (fe_api (we_fleet env)) ?c (available env wk) link (wk_server wk)"
    have "fleet_of (spawn_deliveries ?r wk) =
        (fleet_of wk)\<lparr>fl_server := snd ?r, fl_held := fl_held (fleet_of wk) @ received (fst ?r)\<rparr> \<and>
      own_deliveries env (held_tasks (wk_tasks (spawn_deliveries ?r wk)))"
      by (rule spawn_simulates [OF own]) (erule (1) read_new_consumer)
    with Received looping own show ?thesis
      by (cases ?r) (auto simp: loop_events_def loop_step_def Let_def fleet_of_def c)
  next
    case (ReadCancelled link)
    obtain r s' where rd: "read_new (fe_api (we_fleet env)) ?c (available env wk) link (wk_server wk) = (r, s')" by force
    have "received r = []" if "link \<noteq> Answered"
      using rd that by (cases link) (auto simp: read_new_def bounded_def received_def)
    with rd ReadCancelled looping own show ?thesis
      by (auto simp: loop_events_def loop_step_def Let_def fleet_of_def c)
  qed (use looping own in
      \<open>auto simp: loop_events_def loop_step_def Let_def fleet_of_def joined_simulates split: option.splits task.splits\<close>)
qed

lemma drain_step_simulates:
  assumes own: "own_deliveries env (held_tasks (wk_tasks wk))" and draining: "wk_loop wk = Draining r"
  shows "fleet_run (we_fleet env) (loop_events env e wk) (fleet_of wk) = fleet_of (drain_step r e wk) \<and>
    own_deliveries env (held_tasks (wk_tasks (drain_step r e wk)))"
  using draining own
  by (cases e) (auto simp: loop_events_def drain_step_def Let_def fleet_of_def joined_simulates split: option.splits task.splits)

lemma leave_step_simulates:
  assumes own: "own_deliveries env (held_tasks (wk_tasks wk))" and leaving: "wk_loop wk = Leaving r"
  shows "fleet_run (we_fleet env) (loop_events env e wk) (fleet_of wk) = fleet_of (leave_step env r e wk) \<and>
    own_deliveries env (held_tasks (wk_tasks (leave_step env r e wk)))"
proof -
  have "filter (\<lambda>(d, _). del_consumer d \<noteq> wc_consumer (fe_config (we_fleet env))) (held_tasks (wk_tasks wk)) = []"
    using own by (auto simp: filter_empty_conv own_deliveries_def)
  then show ?thesis
    using own leaving by (cases e) (simp_all add: loop_events_def leave_step_def Let_def fleet_of_def)
qed

lemma task_step_simulates:
  assumes own: "own_deliveries env (held_tasks (wk_tasks wk))" and t: "task_at i wk = Some t"
    and process: "we_process env = run_registry_until (fe_identity (we_fleet env)) (fe_registry (we_fleet env)) (fe_policy (we_fleet env))"
  shows "fleet_run (we_fleet env) (task_events (length (held_tasks (take i (wk_tasks wk)))) e t) (fleet_of wk) =
      fleet_of (task_step env i e t wk) \<and> own_deliveries env (held_tasks (wk_tasks (task_step env i e t wk)))"
proof -
  let ?pre = "held_tasks (take i (wk_tasks wk))" and ?post = "held_tasks (drop (Suc i) (wk_tasks wk))"
  have i: "i < length (wk_tasks wk)" "wk_tasks wk ! i = t" using t by (auto simp: task_at_def split: if_splits)
  have now: "held_tasks (wk_tasks wk) = ?pre @ held_task t @ ?post" using held_tasks_split(1) [OF i(1)] i(2) by simp
  note upd = held_tasks_split(2) [OF i(1)]
  show ?thesis
  proof (cases t)
    case (Spawned d)
    with own now upd show ?thesis
      by (cases e) (simp_all add: task_events_def task_step_def fleet_of_def observation_start_def Let_def)
  next
    case (Observed d ob)
    with own now upd show ?thesis
      by (cases e; cases "choose_action (fe_identity (we_fleet env)) (fe_registry (we_fleet env)) (fe_policy (we_fleet env)) d (wk_world wk)")
        (auto simp: task_events_def task_step_def fleet_of_def process run_registry_until_def nth_append)
  next
    case (Chosen d ob c)
    with own now upd show ?thesis
      by (cases e; cases c) (auto simp: task_events_def task_step_def fleet_of_def nth_append split: prod.splits)
  next
    case (Settled ob r)
    have "held_task (fst (finish_task (we_observer env) ob r (wk_now wk) (wk_observed wk))) = []"
      by (auto simp: finish_task_def split: sum.splits prod.splits)
    with Settled own now upd show ?thesis
      by (cases e) (auto simp: task_events_def task_step_def fleet_of_def split: prod.splits)
  next
    case (Ended r)
    with own show ?thesis by (cases e) (simp_all add: task_events_def task_step_def)
  qed
qed

lemma run_with_step_simulates:
  assumes own: "own_deliveries env (held_tasks (wk_tasks wk))"
    and process: "we_process env = run_registry_until (fe_identity (we_fleet env)) (fe_registry (we_fleet env)) (fe_policy (we_fleet env))"
  shows "fleet_run (we_fleet env) (fleet_events env e wk) (fleet_of wk) = fleet_of (run_with_step env e wk) \<and>
    own_deliveries env (held_tasks (wk_tasks (run_with_step env e wk)))"
proof (cases e)
  case (Loop le)
  show ?thesis
  proof (cases "wk_loop wk")
    case (Returned r)
    with Loop own show ?thesis by (cases le) (simp_all add: loop_events_def)
  qed (use Loop own loop_step_simulates drain_step_simulates leave_step_simulates in simp_all)
next
  case (Task i te)
  with own task_step_simulates [OF own _ process, of i] show ?thesis by (cases "task_at i wk") simp_all
qed (use own in \<open>simp_all add: fleet_of_def\<close>)

lemma run_with_simulates:
  assumes "own_deliveries env (held_tasks (wk_tasks wk))"
    and process: "we_process env = run_registry_until (fe_identity (we_fleet env)) (fe_registry (we_fleet env)) (fe_policy (we_fleet env))"
  shows "fleet_run (we_fleet env) (fleet_trace env es wk) (fleet_of wk) = fleet_of (run_with env es wk) \<and>
    own_deliveries env (held_tasks (wk_tasks (run_with env es wk)))"
  using assms(1)
proof (induction es arbitrary: wk)
  case (Cons e es)
  from run_with_step_simulates [OF Cons.prems process, of e] Cons.IH show ?case by (simp add: fleet_run_append)
qed simp

text \<open>The payloads a run of the worker sees published by others.\<close>

fun worker_published :: "'w worker_event list \<Rightarrow> bytes multiset" where
  "worker_published [] = {#}"
| "worker_published (Published message link # es) =
     (if link = NotSent then {#} else {#msg_payload message#}) + worker_published es"
| "worker_published (e # es) = worker_published es"

lemma run_published_append: "run_published (es @ es') = run_published es + run_published es'"
  by (induction es) (simp_all add: ac_simps)

lemma run_published_trace: "run_published (fleet_trace env es wk) = worker_published es"
proof (induction es arbitrary: wk)
  case (Cons e es)
  have "run_published (fleet_events env e wk) + worker_published es = worker_published (e # es)"
    by (cases e) (auto simp: loop_events_def Let_def task_events_def split: loop_event.splits task_event.splits task.splits
        loop_state.splits option.splits)
  with Cons show ?case by (simp add: run_published_append)
qed simp

text \<open>C4. The worker loop refines the fleet.  Every run of the loop with a job registry, whatever the runtime
  selects, however far the tasks get, and whether it is shut down, drained, cut off by the drain deadline or
  ended by an error of the server, changes the server exactly as a sequence of fleet events does, so at its
  end the jobs in the stream, the retry store and the dead-letter stream together with those acknowledged are
  the jobs of the start and those published meanwhile.\<close>

theorem worker_loop_refines_fleet:
  assumes "fleet_documented (we_fleet env) view" "fleet_inv view (fleet_of wk)"
    and "own_deliveries env (held_tasks (wk_tasks wk))"
    and "we_process env = run_registry_until (fe_identity (we_fleet env)) (fe_registry (we_fleet env)) (fe_policy (we_fleet env))"
  shows "fleet_run (we_fleet env) (fleet_trace env es wk) (fleet_of wk) = fleet_of (run_with env es wk) \<and>
    fleet_inv view (fleet_of (run_with env es wk)) \<and>
    outstanding (view (wk_server (run_with env es wk))) + run_acknowledged (we_fleet env) (fleet_trace env es wk) (fleet_of wk) =
      outstanding (view (wk_server wk)) + worker_published es"
proof -
  note sim = run_with_simulates [OF assms(3,4), of es]
  from fleet_run_effect [OF assms(1,2), of "fleet_trace env es wk"] sim show ?thesis
    by (simp add: run_published_trace) (simp add: fleet_of_def)
qed

section \<open>Every delivery is reported once\<close>

definition recording_observer :: "(delivery_event \<Rightarrow> bool) \<Rightarrow> delivery_event list observer" where
  "recording_observer panics event log = (panics event, log @ [event])"

fun is_started :: "delivery_event \<Rightarrow> bool" where
  "is_started (DeliveryStarted _) = True"
| "is_started _ = False"

fun is_finished :: "delivery_event \<Rightarrow> bool" where
  "is_finished (DeliveryFinished _ _ _ _) = True"
| "is_finished _ = False"

fun is_acknowledged :: "delivery_event \<Rightarrow> bool" where
  "is_acknowledged (DeliveryFinished _ _ OutAcknowledged _) = True"
| "is_acknowledged _ = False"

definition events_with :: "(delivery_event \<Rightarrow> bool) \<Rightarrow> delivery_event list \<Rightarrow> nat" where
  "events_with P log = length (filter P log)"

text \<open>The observation a task holds is open; a task counts while it holds one, and while it is about to report
  an acknowledgement.\<close>

fun task_open :: "task \<Rightarrow> bool" where
  "task_open (Observed _ ob) = (\<not> obs_finished ob)"
| "task_open (Chosen _ ob _) = (\<not> obs_finished ob)"
| "task_open (Settled ob _) = (\<not> obs_finished ob)"
| "task_open _ = True"

fun observing :: "task \<Rightarrow> nat" where
  "observing (Spawned _) = 0"
| "observing (Ended _) = 0"
| "observing _ = 1"

fun acknowledging :: "task \<Rightarrow> nat" where
  "acknowledging (Settled _ (Inr (_, OutAcknowledged))) = 1"
| "acknowledging _ = 0"

lemma is_acknowledged_iff: "is_acknowledged (DeliveryFinished p a outcome t) \<longleftrightarrow> outcome = OutAcknowledged"
  by (cases outcome) simp_all

lemma acknowledging_Inr: "acknowledging (Settled ob (Inr (attempt, outcome))) = (if outcome = OutAcknowledged then 1 else 0)"
  by (cases outcome) simp_all

definition task_sum :: "(task \<Rightarrow> nat) \<Rightarrow> task list \<Rightarrow> nat" where
  "task_sum f ts = sum_list (map f ts)"

lemma events_with_simps [simp]:
  "events_with P [] = 0" "events_with P (log @ log') = events_with P log + events_with P log'"
  "events_with P [e] = (if P e then 1 else 0)"
  by (simp_all add: events_with_def)

lemma task_sum_simps [simp]:
  "task_sum f [] = 0" "task_sum f (t # ts) = f t + task_sum f ts" "task_sum f (ts @ us) = task_sum f ts + task_sum f us"
  by (simp_all add: task_sum_def)

lemma task_sum_spawned: "f \<in> {observing, acknowledging} \<Longrightarrow> task_sum f (map Spawned ds) = 0"
  by (induction ds) auto

lemma task_sum_split:
  assumes "task_at i wk = Some t"
  shows "task_sum f (wk_tasks wk) = task_sum f (take i (wk_tasks wk)) + f t + task_sum f (drop (Suc i) (wk_tasks wk))"
    "task_sum f ((wk_tasks wk)[i := t']) = task_sum f (take i (wk_tasks wk)) + f t' + task_sum f (drop (Suc i) (wk_tasks wk))"
proof -
  have i: "i < length (wk_tasks wk)" "wk_tasks wk ! i = t" using assms by (auto simp: task_at_def split: if_splits)
  show "task_sum f (wk_tasks wk) = task_sum f (take i (wk_tasks wk)) + f t + task_sum f (drop (Suc i) (wk_tasks wk))"
    using arg_cong [OF id_take_nth_drop [OF i(1)], of "task_sum f"] i(2) by simp
  show "task_sum f ((wk_tasks wk)[i := t']) = task_sum f (take i (wk_tasks wk)) + f t' + task_sum f (drop (Suc i) (wk_tasks wk))"
    using i(1) by (simp add: upd_conv_take_nth_drop)
qed

definition reports_inv :: "('s, 'w, delivery_event list) worker_env \<Rightarrow> ('s, 'w, delivery_event list) worker \<Rightarrow> bool" where
  "reports_inv env wk \<longleftrightarrow>
     events_with is_started (wk_observed wk) = events_with is_finished (wk_observed wk) + task_sum observing (wk_tasks wk) \<and>
     list_all task_open (wk_tasks wk) \<and> length (wk_tasks wk) \<le> we_concurrency env \<and>
     (\<forall>r. wk_loop wk = Returned r \<longrightarrow> wk_tasks wk = [])"

text \<open>The reports of acknowledgements, made or about to be made.\<close>

definition acknowledgements :: "('s, 'w, delivery_event list) worker \<Rightarrow> nat" where
  "acknowledgements wk = events_with is_acknowledged (wk_observed wk) + task_sum acknowledging (wk_tasks wk)"

lemma received_length:
  assumes doc: "fleet_documented (we_fleet env) view"
  shows "read_new (fe_api (we_fleet env)) (fe_config (we_fleet env)) n link s = (Inr ds, s') \<Longrightarrow> length ds \<le> n"
    and "maintenance_tick (fe_api (we_fleet env)) (fe_config (we_fleet env)) n l1 l2 ls s = (Inr ds, s') \<Longrightarrow> length ds \<le> n"
proof -
  let ?c = "fe_config (we_fleet env)" and ?api = "fe_api (we_fleet env)"
  show "length ds \<le> n" if step: "read_new ?api ?c n link s = (Inr ds, s')"
  proof -
    obtain es s1 where rd: "xreadgroup ?api (wc_stream ?c) (wc_group ?c) (wc_consumer ?c) (min n (wc_batch_size ?c))
        (wc_block_timeout_ms ?c) s = (es, s1)" by force
    have "length es \<le> n" using conjunct1 [OF documented_read [OF doc rd]] by simp
    then show ?thesis using step rd by (cases link) (auto simp: read_new_def bounded_def map_error_def)
  qed
  have claimed: "reclaim_deliveries ?api ?c links es s = Inr ds \<Longrightarrow> length ds = length es" for links es s ds
    by (induction es arbitrary: links ds) (auto simp: bind_result_eq_Inr)
  have rec: "length ds \<le> k" if step: "reclaim_pending ?api ?c k l2 ls s = (Inr ds, s')" for k s
  proof -
    obtain reply s1 where cl: "xautoclaim ?api (wc_stream ?c) (wc_group ?c) (wc_consumer ?c) (wc_reclaim_idle_ms ?c) k s = (reply, s1)"
      by force
    have "length (ac_claimed reply) \<le> k" using conjunct1 [OF documented_claim [OF doc cl]] .
    then show ?thesis using step cl
      by (cases l2) (auto simp: reclaim_pending_def bounded_def map_error_def split: if_splits dest: claimed)
  qed
  show "length ds \<le> n" if "maintenance_tick ?api ?c n l1 l2 ls s = (Inr ds, s')"
    using that rec [of "min n (wc_batch_size ?c)"] by (auto simp: maintenance_tick_def split: prod.splits sum.splits)
qed

lemma task_drop_reports:
  assumes "task_open t"
  shows "events_with is_started (task_drop (recording_observer panics) now t log) = events_with is_started log"
    "events_with is_finished (task_drop (recording_observer panics) now t log) = events_with is_finished log + observing t"
    "events_with is_acknowledged (task_drop (recording_observer panics) now t log) = events_with is_acknowledged log"
  using assms by (cases t; simp add: observation_drop_def notify_def recording_observer_def)+

lemma tasks_drop_reports:
  assumes "list_all task_open ts"
  shows "events_with is_started (fold (task_drop (recording_observer panics) now) ts log) = events_with is_started log \<and>
    events_with is_finished (fold (task_drop (recording_observer panics) now) ts log) = events_with is_finished log + task_sum observing ts \<and>
    events_with is_acknowledged (fold (task_drop (recording_observer panics) now) ts log) = events_with is_acknowledged log"
  using assms by (induction ts arbitrary: log) (simp_all add: task_drop_reports)

lemma list_all_replace:
  assumes "list_all P xs" "P x"
  shows "list_all P (xs[i := x])" "list_all P (take i xs @ drop (Suc i) xs)"
  using assms by (auto simp: list_all_iff dest!: subsetD [OF set_update_subset_insert] dest: in_set_takeD in_set_dropD)

lemma settle_action_acknowledged:
  assumes "fst (settle_action api c link d action s) = Inr OutAcknowledged"
  shows "action = Acknowledge \<and> link = Answered \<and>
    pending_owned api (wc_stream c) (wc_group c) (del_entry_id d) (del_consumer d) s"
proof (cases action)
  case Acknowledge
  with assms show ?thesis
    by (cases link) (auto simp: settle_action_def acknowledge_def settled_reply_def bounded_def map_error_def ack_if_owned_script_def
        bind_result_eq_Inr split: prod.splits if_splits)
qed (use assms in \<open>auto simp: settle_action_def bind_result_eq_Inr split: prod.splits\<close>)

lemma spawn_reports:
  assumes inv: "reports_inv env wk" and loop: "wk_loop wk = Looping"
    and new: "\<And>ds s'. reply = (Inr ds, s') \<Longrightarrow> length ds \<le> available env wk"
  shows "reports_inv env (spawn_deliveries reply wk) \<and> acknowledgements (spawn_deliveries reply wk) = acknowledgements wk"
proof (cases "fst reply")
  case (Inl e)
  then show ?thesis using inv by (cases reply) (simp add: spawn_deliveries_def reports_inv_def acknowledgements_def)
next
  case (Inr ds)
  then have "length (wk_tasks wk) + length ds \<le> we_concurrency env"
    using new inv by (cases reply) (fastforce simp: reports_inv_def available_def)
  moreover have "list_all task_open (map Spawned ds)" by (simp add: list_all_iff)
  ultimately show ?thesis
    using Inr inv loop
    by (cases reply) (simp add: spawn_deliveries_def reports_inv_def acknowledgements_def task_sum_spawned)
qed

lemma joined_reports:
  assumes "task_at i wk = Some (Ended r)" "f \<in> {observing, acknowledging}"
  shows "task_sum f (take i (wk_tasks wk)) + task_sum f (drop (Suc i) (wk_tasks wk)) = task_sum f (wk_tasks wk)"
  using task_sum_split(1) [OF assms(1), of f] assms(2) by auto

lemma loop_step_reports:
  assumes doc: "fleet_documented (we_fleet env) view" and inv: "reports_inv env wk" and loop: "wk_loop wk = Looping"
  shows "reports_inv env (loop_step env e wk) \<and> acknowledgements (loop_step env e wk) = acknowledgements wk"
proof (cases e)
  case (Joined i)
  show ?thesis
  proof (cases "\<exists>r. task_at i wk = Some (Ended r)")
    case True
    then obtain r where r: "task_at i wk = Some (Ended r)" by blast
    with Joined inv loop joined_reports [OF r] list_all_replace(2) [of task_open "wk_tasks wk" "Ended r" i] show ?thesis
      by (auto simp: loop_step_def reports_inv_def acknowledgements_def split: sum.splits)
  qed (use Joined inv in \<open>auto simp: loop_step_def split: option.splits task.splits\<close>)
next
  case (MaintenanceTick l1 l2 ls)
  have "reports_inv env (spawn_deliveries reply wk) \<and> acknowledgements (spawn_deliveries reply wk) = acknowledgements wk"
    if "reply = maintenance_tick (fe_api (we_fleet env)) (fe_config (we_fleet env)) (available env wk) l1 l2 ls (wk_server wk)" for reply
    by (rule spawn_reports [OF inv loop]) (use that received_length(2) [OF doc] in metis)
  with MaintenanceTick inv show ?thesis by (simp add: loop_step_def Let_def)
next
  case (Received link)
  have "reports_inv env (spawn_deliveries reply wk) \<and> acknowledgements (spawn_deliveries reply wk) = acknowledgements wk"
    if "reply = read_new (fe_api (we_fleet env)) (fe_config (we_fleet env)) (available env wk) link (wk_server wk)" for reply
    by (rule spawn_reports [OF inv loop]) (use that received_length(1) [OF doc] in metis)
  with Received inv show ?thesis by (simp add: loop_step_def Let_def)
qed (use inv loop in \<open>auto simp: loop_step_def Let_def reports_inv_def acknowledgements_def\<close>)

lemma drain_step_reports:
  assumes inv: "reports_inv env wk" and loop: "wk_loop wk = Draining r0"
  shows "reports_inv env (drain_step r0 e wk) \<and> acknowledgements (drain_step r0 e wk) = acknowledgements wk"
proof (cases e)
  case (Joined i)
  show ?thesis
  proof (cases "\<exists>r. task_at i wk = Some (Ended r)")
    case True
    then obtain r where r: "task_at i wk = Some (Ended r)" by blast
    with Joined inv loop joined_reports [OF r] list_all_replace(2) [of task_open "wk_tasks wk" "Ended r" i] show ?thesis
      by (auto simp: drain_step_def reports_inv_def acknowledgements_def split: sum.splits)
  qed (use Joined inv in \<open>auto simp: drain_step_def split: option.splits task.splits\<close>)
qed (use inv loop in \<open>auto simp: drain_step_def reports_inv_def acknowledgements_def\<close>)

lemma leave_step_reports:
  assumes inv: "reports_inv env wk" and obs: "we_observer env = recording_observer panics"
  shows "reports_inv env (leave_step env r e wk) \<and> acknowledgements (leave_step env r e wk) \<le> acknowledgements wk"
  using inv tasks_drop_reports [of "wk_tasks wk" panics "wk_now wk" "wk_observed wk"]
  by (cases e) (auto simp: leave_step_def reports_inv_def acknowledgements_def obs)

lemma task_step_reports:
  assumes inv: "reports_inv env wk" and t: "task_at i wk = Some t" and obs: "we_observer env = recording_observer panics"
    and e: "\<nexists>link. e = TaskSettles link"
  shows "reports_inv env (task_step env i e t wk) \<and> acknowledgements (task_step env i e t wk) \<le> acknowledgements wk"
proof -
  have i: "i < length (wk_tasks wk)" "t \<in> set (wk_tasks wk)" using t by (auto simp: task_at_def split: if_splits)
  have t_open: "task_open t" "list_all task_open (wk_tasks wk)" using inv i(2) by (auto simp: reports_inv_def list_all_iff)
  note split = task_sum_split [OF t] and all = list_all_replace(1) [OF t_open(2)]
  have ret: "wk_loop wk \<noteq> Returned r" for r using inv i(1) by (auto simp: reports_inv_def)
  show ?thesis
  proof (cases t)
    case (Spawned d)
    with inv all split ret show ?thesis
      by (cases e) (simp_all add: task_step_def obs observation_start_def Let_def notify_def recording_observer_def reports_inv_def
          acknowledgements_def)
  next
    case (Observed d ob)
    obtain r w' where p: "we_process env d (wk_world wk) = (r, w')" by force
    show ?thesis
      using Observed inv all split ret t_open(1) p e
      by (cases e; cases r) (auto simp: task_step_def obs observation_drop_def notify_def recording_observer_def reports_inv_def
          acknowledgements_def)
  next
    case (Chosen d ob c)
    with inv e show ?thesis by (cases e) (auto simp: task_step_def)
  next
    case (Settled ob r)
    then show ?thesis
      using inv all split ret t_open(1)
      by (cases e; cases r) (auto simp: task_step_def finish_task_def observation_finish_def Let_def observation_drop_def obs notify_def
          recording_observer_def reports_inv_def acknowledgements_def is_acknowledged_iff acknowledging_Inr split: prod.splits)
  next
    case (Ended r)
    with inv show ?thesis by (cases e) (simp_all add: task_step_def)
  qed
qed

lemma settles_reports:
  assumes inv: "reports_inv env wk" and t: "task_at i wk = Some t"
  shows "reports_inv env (task_step env i (TaskSettles link) t wk) \<and>
    acknowledgements (task_step env i (TaskSettles link) t wk) \<le> acknowledgements wk +
      size (run_acknowledged (we_fleet env) (task_events (length (held_tasks (take i (wk_tasks wk)))) (TaskSettles link) t) (fleet_of wk))"
proof (cases "\<exists>d ob attempt action. t = Chosen d ob (attempt, action)")
  case True
  then obtain d ob attempt action where c: "t = Chosen d ob (attempt, action)" by blast
  have i: "i < length (wk_tasks wk)" "wk_tasks wk ! i = t" "t \<in> set (wk_tasks wk)"
    using t by (auto simp: task_at_def split: if_splits)
  have t_open: "task_open t" "list_all task_open (wk_tasks wk)" using inv i(3) by (auto simp: reports_inv_def list_all_iff)
  have ret: "wk_loop wk \<noteq> Returned r" for r using inv i(1) by (auto simp: reports_inv_def)
  obtain r s' where st: "settle_action (fe_api (we_fleet env)) (fe_config (we_fleet env)) link d action (wk_server wk) = (r, s')" by force
  let ?ack = "acknowledging (Settled ob (bind_result r (\<lambda>outcome. Inr (attempt, outcome))))"
  have "?ack \<le> size (acknowledged_by (we_fleet env) (Settle (length (held_tasks (take i (wk_tasks wk)))) link) (fleet_of wk))"
  proof (cases "r = Inr OutAcknowledged")
    case True
    with settle_action_acknowledged [of "fe_api (we_fleet env)" "fe_config (we_fleet env)" link d action "wk_server wk"] st
      held_tasks_split(1) [OF i(1)] i(2) c show ?thesis
      by (simp add: fleet_of_def nth_append)
  next
    case False
    then have "?ack = 0" by (cases r) (simp_all add: acknowledging_Inr)
    then show ?thesis by simp
  qed
  then show ?thesis
    using c st inv ret t_open task_sum_split [OF t] list_all_replace(1) [OF t_open(2)]
    by (simp add: task_step_def task_events_def reports_inv_def acknowledgements_def)
next
  case False
  with inv show ?thesis by (cases t) (auto simp: task_step_def)
qed

lemma run_with_step_reports:
  assumes doc: "fleet_documented (we_fleet env) view" and inv: "reports_inv env wk"
    and obs: "we_observer env = recording_observer panics"
  shows "reports_inv env (run_with_step env e wk) \<and>
    acknowledgements (run_with_step env e wk) \<le>
      acknowledgements wk + size (run_acknowledged (we_fleet env) (fleet_events env e wk) (fleet_of wk))"
proof (cases e)
  case (Loop le)
  show ?thesis
    using Loop inv loop_step_reports [OF doc inv, of le] drain_step_reports [OF inv, of _ le] leave_step_reports [OF inv obs, of _ le]
    by (cases "wk_loop wk") (simp_all add: trans_le_add1)
next
  case (Task i te)
  show ?thesis
  proof (cases "task_at i wk")
    case (Some t)
    show ?thesis
    proof (cases "\<exists>link. te = TaskSettles link")
      case True
      with Task Some settles_reports [OF inv Some] show ?thesis by auto
    next
      case False
      with Task Some task_step_reports [OF inv Some obs, of te] show ?thesis by (auto simp: trans_le_add1)
    qed
  qed (use Task inv in simp)
qed (use inv in \<open>simp_all add: reports_inv_def acknowledgements_def\<close>)

lemma run_acknowledged_append:
  "run_acknowledged env (es @ es') fl = run_acknowledged env es fl + run_acknowledged env es' (fleet_run env es fl)"
  by (induction es arbitrary: fl) (simp_all add: ac_simps)

lemma run_with_reports:
  assumes doc: "fleet_documented (we_fleet env) view" and obs: "we_observer env = recording_observer panics"
    and process: "we_process env = run_registry_until (fe_identity (we_fleet env)) (fe_registry (we_fleet env)) (fe_policy (we_fleet env))"
    and "own_deliveries env (held_tasks (wk_tasks wk))" "reports_inv env wk"
  shows "reports_inv env (run_with env es wk) \<and>
    acknowledgements (run_with env es wk) \<le>
      acknowledgements wk + size (run_acknowledged (we_fleet env) (fleet_trace env es wk) (fleet_of wk))"
  using assms(4,5)
proof (induction es arbitrary: wk)
  case (Cons e es)
  note sim = run_with_step_simulates [OF Cons.prems(1) process, of e]
  note rep = run_with_step_reports [OF doc Cons.prems(2) obs, of e]
  from Cons.IH [OF conjunct2 [OF sim] conjunct1 [OF rep]] rep conjunct1 [OF sim] show ?case
    by (simp add: run_acknowledged_append)
qed simp

text \<open>C17. The worker never runs more deliveries at once than its concurrency allows, and it reports every delivery it
  starts exactly once.  At every moment of a run that started idle the reported ends and the deliveries under
  observation make up the reported starts, a worker that has returned has no task left, so all its starts
  are matched by ends, and it never reports more acknowledgements than the server carried out.  An observer
  that panics changes none of this.\<close>

theorem worker_reports_every_delivery:
  assumes "fleet_documented (we_fleet env) view" "we_observer env = recording_observer panics"
    and "we_process env = run_registry_until (fe_identity (we_fleet env)) (fe_registry (we_fleet env)) (fe_policy (we_fleet env))"
    and "wk_tasks wk = []" "wk_observed wk = []" "wk' = run_with env es (run_with_start env wk)"
  shows "length (wk_tasks wk') \<le> we_concurrency env \<and>
    events_with is_started (wk_observed wk') = events_with is_finished (wk_observed wk') + task_sum observing (wk_tasks wk') \<and>
    (wk_loop wk' = Returned r \<longrightarrow> events_with is_finished (wk_observed wk') = events_with is_started (wk_observed wk')) \<and>
    events_with is_acknowledged (wk_observed wk') \<le>
      size (run_acknowledged (we_fleet env) (fleet_trace env es (run_with_start env wk)) (fleet_of (run_with_start env wk)))"
proof -
  let ?wk = "run_with_start env wk"
  have start: "wk_tasks ?wk = []" "wk_observed ?wk = []"
    using assms(4,5) by (auto simp: run_with_start_def split: sum.splits)
  then have "reports_inv env ?wk" "acknowledgements ?wk = 0" "own_deliveries env (held_tasks (wk_tasks ?wk))"
    by (simp_all add: reports_inv_def acknowledgements_def)
  with run_with_reports [OF assms(1-3), of ?wk es] assms(6) show ?thesis
    by (auto simp: reports_inv_def acknowledgements_def)
qed

section \<open>A sample worker\<close>

definition sample_worker_env :: "(streams_view, (string \<times> u16) list, delivery_event list) worker_env" where
  "sample_worker_env =
     \<lparr>we_fleet = sample_env,
      we_process = run_registry_until (fe_identity sample_env) (fe_registry sample_env) (fe_policy sample_env),
      we_observer = recording_observer (\<lambda>_. True), we_concurrency = 8\<rparr>"

definition idle_worker :: "(streams_view, (string \<times> u16) list, delivery_event list) worker" where
  "idle_worker = \<lparr>wk_server = empty_view, wk_world = [], wk_observed = [], wk_now = 0, wk_tasks = [], wk_loop = Looping\<rparr>"

text \<open>A job is received and handled, its settlement is executed but the reply is lost, so the task ends with an error,
  the loop drains and returns.\<close>

definition sample_run :: "(string \<times> u16) list worker_event list" where
  "sample_run =
     [Published sample_message Answered, Loop (Received Answered), Task 0 TaskStarts, Task 0 TaskHandles,
      Task 0 (TaskSettles ReplyLost), Task 0 TaskFinishes, Loop (Joined 0), Loop Drained]"

lemma sample_worker_simps:
  "we_fleet sample_worker_env = sample_env" "we_observer sample_worker_env = recording_observer (\<lambda>_. True)"
  "we_process sample_worker_env = run_registry_until (fe_identity (we_fleet sample_worker_env))
     (fe_registry (we_fleet sample_worker_env)) (fe_policy (we_fleet sample_worker_env))"
  "fleet_of idle_worker = sample_fleet" "wk_tasks idle_worker = []" "wk_observed idle_worker = []"
  by (simp_all add: sample_worker_env_def idle_worker_def fleet_of_def sample_fleet_def)

lemma worker_loop_refines_fleet_witness:
  "fleet_documented (we_fleet sample_worker_env) id \<and> fleet_inv id (fleet_of idle_worker) \<and>
   own_deliveries sample_worker_env (held_tasks (wk_tasks idle_worker)) \<and>
   fleet_run sample_env (fleet_trace sample_worker_env sample_run idle_worker) sample_fleet =
     fleet_of (run_with sample_worker_env sample_run idle_worker) \<and>
   outstanding (wk_server (run_with sample_worker_env sample_run idle_worker)) +
     run_acknowledged sample_env (fleet_trace sample_worker_env sample_run idle_worker) sample_fleet = {#''{}''#}"
proof -
  have "outstanding (wk_server idle_worker) = {#}"
    by (simp add: outstanding_def live_def retrying_def dead_def empty_view_def idle_worker_def)
  moreover have "worker_published sample_run = {#''{}''#}" by (simp add: sample_run_def sample_message_def)
  ultimately show ?thesis
    using worker_loop_refines_fleet [of sample_worker_env id idle_worker sample_run] sample_env_documented sample_fleet_inv
    by (simp add: sample_worker_simps)
qed

text \<open>A job is received and its task started; the next maintenance tick cannot reach the server, so the loop is
  left and the task cancelled.\<close>

definition cancelled_run :: "(string \<times> u16) list worker_event list" where
  "cancelled_run =
     [Published sample_message Answered, Loop (Received Answered), Task 0 TaskStarts, TimePasses 5,
      Loop (MaintenanceTick NotSent Answered []), Loop (TasksDropped [])]"

lemma cancelled_run_result:
  "run_with_start sample_worker_env idle_worker = idle_worker"
  "wk_loop (run_with sample_worker_env cancelled_run idle_worker) = Returned (Inl RsRetryPromotion)"
  "wk_observed (run_with sample_worker_env cancelled_run idle_worker) =
     [DeliveryStarted ''redis_streams'', DeliveryFinished ''redis_streams'' None OutUnsettled 5000]"
proof -
  have env: "fe_api (we_fleet sample_worker_env) = model_api sample_config" "fe_config (we_fleet sample_worker_env) = sample_config"
    "fe_elapse (we_fleet sample_worker_env) = model_elapse" "fe_policy (we_fleet sample_worker_env) = retry_policy_default"
    "we_observer sample_worker_env = recording_observer (\<lambda>_. True)" "we_concurrency sample_worker_env = 8"
    by (simp_all add: sample_worker_env_def sample_env_def)
  have policy: "validate_retry_policy retry_policy_default = Inr ()"
    by (simp add: validate_retry_policy_def retry_policy_default_def retry_policy_is_valid_def
        nonzero_duration_to_millis_def duration_to_millis_def from_secs_def as_millis_def subsec_nanos_def)
  show "run_with_start sample_worker_env idle_worker = idle_worker"
    by (simp add: run_with_start_def env policy worker_readiness_def model_api_def idle_worker_def)
  have rd: "read_new (model_api sample_config) sample_config 8 Answered
      (snd (redis_publish (model_api sample_config) (wc_stream sample_config) Answered sample_message empty_view)) = (Inr [d], s)"
    if "d = delivery_from_entry (model_api sample_config) sample_config (''x'', [(''payload'', ''{}''), (''attempt'', show_nat 1)]) None"
      "s = empty_view\<lparr>sv_entries := [(''x'', [(''payload'', ''{}''), (''attempt'', show_nat 1)])], sv_delivered := 1,
         sv_pending := (\<lambda>i. if i = ''x'' then Some (''worker-a'', 0, 1) else None)\<rparr>" for d s
    by (simp add: that read_new_def redis_publish_def bounded_def map_error_def model_api_def sample_config_def sample_message_def
        empty_view_def fresh_id_def Let_def cong: if_cong)
  have promote: "promote_due_retries api c n NotSent s = (Inl RsRetryPromotion, s)" for api :: "streams_view streams_api" and c n s
    by (simp add: promote_due_retries_def bounded_def)
  note steps = cancelled_run_def loop_step_def leave_step_def available_def idle_worker_def spawn_deliveries_def task_at_def
    task_step_def observation_start_def observation_drop_def notify_def recording_observer_def maintenance_tick_def promote Let_def
  show "wk_loop (run_with sample_worker_env cancelled_run idle_worker) = Returned (Inl RsRetryPromotion)"
    by (simp add: steps env rd [OF refl refl])
  show "wk_observed (run_with sample_worker_env cancelled_run idle_worker) =
     [DeliveryStarted ''redis_streams'', DeliveryFinished ''redis_streams'' None OutUnsettled 5000]"
    by (simp add: steps env rd [OF refl refl])
qed

lemma worker_reports_every_delivery_witness:
  "fleet_documented (we_fleet sample_worker_env) id \<and>
   wk_loop (run_with sample_worker_env cancelled_run (run_with_start sample_worker_env idle_worker)) = Returned (Inl RsRetryPromotion) \<and>
   wk_observed (run_with sample_worker_env cancelled_run (run_with_start sample_worker_env idle_worker)) =
     [DeliveryStarted ''redis_streams'', DeliveryFinished ''redis_streams'' None OutUnsettled 5000] \<and>
   events_with is_finished (wk_observed (run_with sample_worker_env cancelled_run (run_with_start sample_worker_env idle_worker))) =
   events_with is_started (wk_observed (run_with sample_worker_env cancelled_run (run_with_start sample_worker_env idle_worker)))"
proof -
  have doc: "fleet_documented (we_fleet sample_worker_env) id" using sample_env_documented by (simp add: sample_worker_simps(1))
  note reports = worker_reports_every_delivery
    [OF doc sample_worker_simps(2,3,5,6) refl, of cancelled_run "Inl RsRetryPromotion", unfolded cancelled_run_result(1)]
  note finished = conjunct1 [OF conjunct2 [OF conjunct2 [OF reports]], THEN mp, OF cancelled_run_result(2)]
  show ?thesis
    unfolding cancelled_run_result(1) by (intro conjI doc cancelled_run_result(2,3) finished)
qed

end
