(* ===== verification/Outbox.thy ===== *)
theory Outbox
  imports Jobs
begin

text \<open>
  The transactional outbox and inbox (\<open>rustee-outbox-sqlx\<close>): validated messages, staging in a business
  transaction, leasing and settling of rows, the relay that publishes leased rows, and the receipts of the inbox.

  PostgreSQL is the parameter \<open>database\<close>: it executes a statement text with bound values on an abstract
  state.  The statement texts are those of the code, character by character, because what the server does depends
  on them.  The printed form of a UUID and its parser are parameters as well.
\<close>

section \<open>Messages\<close>

type_synonym uuid = "128 word"

abbreviation MAX_DESTINATION_BYTES :: nat where "MAX_DESTINATION_BYTES \<equiv> 255"
abbreviation MAX_MESSAGE_ID_BYTES :: nat where "MAX_MESSAGE_ID_BYTES \<equiv> 255"
abbreviation MAX_MESSAGE_TYPE_BYTES :: nat where "MAX_MESSAGE_TYPE_BYTES \<equiv> 255"
abbreviation MAX_ORDERING_KEY_BYTES :: nat where "MAX_ORDERING_KEY_BYTES \<equiv> 512"
abbreviation MAX_PAYLOAD_BYTES :: nat where "MAX_PAYLOAD_BYTES \<equiv> 1024 * 1024"

datatype outbox_message_error =
    ObInvalidDestination | ObInvalidMessageId | ObInvalidMessageType | ObInvalidOrderingKey
  | ObInvalidDeliveryAttempt | ObInvalidPayload

datatype outbox_kind = EventKind | JobKind

definition outbox_kind_as_str :: "outbox_kind \<Rightarrow> string" where
  "outbox_kind_as_str k = (case k of EventKind \<Rightarrow> ''event'' | JobKind \<Rightarrow> ''job'')"

record outbox_message =
  ob_id :: uuid
  ob_kind :: outbox_kind
  ob_destination :: string
  ob_message_id :: string
  ob_message_type :: string
  ob_schema_version :: u16
  ob_ordering_key :: string
  ob_delivery_attempt :: u16
  ob_priority :: "8 word"
  ob_payload :: bytes

definition validate_text :: "string \<Rightarrow> nat \<Rightarrow> 'e \<Rightarrow> ('e, unit) result" where
  "validate_text s max_bytes error =
     (if trim s = [] \<or> CHR 0x00 \<in> set s \<or> length s > max_bytes then Inl error else Inr ())"

definition destination_new :: "string \<Rightarrow> (outbox_message_error, string) result" where
  "destination_new destination =
     bind_result (validate_text destination MAX_DESTINATION_BYTES ObInvalidDestination) (\<lambda>_. Inr destination)"

definition validate_durable_message_fields ::
  "string \<Rightarrow> string \<Rightarrow> string \<Rightarrow> u16 \<Rightarrow> bytes \<Rightarrow> (outbox_message_error, unit) result" where
  "validate_durable_message_fields message_id message_type ordering_key delivery_attempt payload =
     bind_result (validate_text message_id MAX_MESSAGE_ID_BYTES ObInvalidMessageId) (\<lambda>_.
     bind_result (validate_text message_type MAX_MESSAGE_TYPE_BYTES ObInvalidMessageType) (\<lambda>_.
     bind_result (validate_text ordering_key MAX_ORDERING_KEY_BYTES ObInvalidOrderingKey) (\<lambda>_.
     if delivery_attempt = 0 then Inl ObInvalidDeliveryAttempt
     else if payload = [] \<or> length payload > MAX_PAYLOAD_BYTES then Inl ObInvalidPayload
     else Inr ())))"

text \<open>\<open>OutboxMessage::new\<close>; the row identifier is drawn by the caller.\<close>

definition outbox_message_new ::
  "uuid \<Rightarrow> outbox_kind \<Rightarrow> string \<Rightarrow> string \<Rightarrow> string \<Rightarrow> u16 \<Rightarrow> string \<Rightarrow> u16 \<Rightarrow> bytes \<Rightarrow> (outbox_message_error, outbox_message) result" where
  "outbox_message_new row_id kind destination message_id message_type version key attempt payload =
     bind_result (validate_durable_message_fields message_id message_type key attempt payload) (\<lambda>_.
     Inr \<lparr>ob_id = row_id, ob_kind = kind, ob_destination = destination, ob_message_id = message_id,
       ob_message_type = message_type, ob_schema_version = version, ob_ordering_key = key,
       ob_delivery_attempt = attempt, ob_priority = 0, ob_payload = payload\<rparr>)"

definition with_priority :: "8 word \<Rightarrow> outbox_message \<Rightarrow> outbox_message" where
  "with_priority priority m = m\<lparr>ob_priority := priority\<rparr>"

definition from_job_message ::
  "(uuid \<Rightarrow> string) \<Rightarrow> uuid \<Rightarrow> string \<Rightarrow> job_message \<Rightarrow> (outbox_message_error, outbox_message) result" where
  "from_job_message show_uuid row_id destination m =
     (let message_id = show_uuid (msg_id m) in
      outbox_message_new row_id JobKind destination message_id (msg_name m) (msg_version m) message_id
        (msg_attempt m) (msg_payload m))"

datatype stage_job_error = StageEnvelope envelope_error | StageOutbox outbox_message_error

definition outbox_job ::
  "(uuid \<Rightarrow> string) \<Rightarrow> uuid \<Rightarrow> string \<Rightarrow> ('j, 'v) job_json \<Rightarrow> job_type \<Rightarrow> 'j job_envelope \<Rightarrow> (stage_job_error, outbox_message) result" where
  "outbox_job show_uuid row_id destination json j e =
     bind_result (map_error StageEnvelope (envelope_message json j e)) (\<lambda>m.
     map_error StageOutbox (from_job_message show_uuid row_id destination m))"

text \<open>Event messages (\<open>rustee-events/src/publisher.rs\<close>).\<close>

abbreviation MAX_EVENT_ENVELOPE_BYTES :: nat where "MAX_EVENT_ENVELOPE_BYTES \<equiv> 1024 * 1024"
abbreviation MAX_EVENT_PARTITION_KEY_BYTES :: nat where "MAX_EVENT_PARTITION_KEY_BYTES \<equiv> MAX_EVENT_ENVELOPE_BYTES"
abbreviation MAX_EVENT_TYPE_BYTES :: nat where "MAX_EVENT_TYPE_BYTES \<equiv> 255"

record event_message =
  evm_id :: uuid
  evm_type :: string
  evm_version :: u16
  evm_key :: string
  evm_payload :: bytes

datatype event_message_error =
    EvBlankEventType | EvEventTypeTooLarge | EvInvalidEventType | EvBlankKey | EvKeyTooLarge
  | EvEmptyPayload | EvPayloadTooLarge

definition is_valid_event_type :: "string \<Rightarrow> bool" where
  "is_valid_event_type t \<longleftrightarrow> trim t \<noteq> [] \<and> length t \<le> MAX_EVENT_TYPE_BYTES \<and> CHR 0x00 \<notin> set t"

definition event_message_from_parts ::
  "uuid \<Rightarrow> string \<Rightarrow> u16 \<Rightarrow> string \<Rightarrow> bytes \<Rightarrow> (event_message_error, event_message) result" where
  "event_message_from_parts i event_type version key payload =
     (if \<not> is_valid_event_type event_type then
        Inl (if trim event_type = [] then EvBlankEventType
             else if length event_type > MAX_EVENT_TYPE_BYTES then EvEventTypeTooLarge else EvInvalidEventType)
      else if trim key = [] then Inl EvBlankKey
      else if length key > MAX_EVENT_PARTITION_KEY_BYTES then Inl EvKeyTooLarge
      else if payload = [] then Inl EvEmptyPayload
      else if length payload > MAX_EVENT_ENVELOPE_BYTES then Inl EvPayloadTooLarge
      else Inr \<lparr>evm_id = i, evm_type = event_type, evm_version = version, evm_key = key, evm_payload = payload\<rparr>)"

definition from_event_message ::
  "(uuid \<Rightarrow> string) \<Rightarrow> uuid \<Rightarrow> string \<Rightarrow> event_message \<Rightarrow> (outbox_message_error, outbox_message) result" where
  "from_event_message show_uuid row_id destination m =
     outbox_message_new row_id EventKind destination (show_uuid (evm_id m)) (evm_type m) (evm_version m) (evm_key m)
       1 (evm_payload m)"

section \<open>Timing\<close>

abbreviation MIN_POSTGRES_INTERVAL :: duration where "MIN_POSTGRES_INTERVAL \<equiv> from_millis 1"
abbreviation MAX_LEASE_DURATION :: duration where "MAX_LEASE_DURATION \<equiv> from_secs 3600"
abbreviation MAX_JOB_SCHEDULE_DELAY :: duration where "MAX_JOB_SCHEDULE_DELAY \<equiv> from_secs (8784 * 3600)"

datatype schedule_error = ZeroDelay | DelayTooLong

text \<open>\<open>JobSchedule::after\<close> and \<open>EventSchedule::after\<close>.\<close>

definition schedule_after :: "duration \<Rightarrow> (schedule_error, duration) result" where
  "schedule_after delay =
     (if delay < MIN_POSTGRES_INTERVAL then Inl ZeroDelay
      else if delay > MAX_JOB_SCHEDULE_DELAY then Inl DelayTooLong else Inr delay)"

definition event_schedule_after :: "duration \<Rightarrow> (schedule_error, duration) result" where
  "event_schedule_after delay =
     (if delay < MIN_POSTGRES_INTERVAL then Inl ZeroDelay
      else if delay > MAX_JOB_SCHEDULE_DELAY then Inl DelayTooLong else Inr delay)"

text \<open>\<open>delay_millis\<close>: the \<open>expect\<close> on the conversion is the outcome \<open>None\<close>.\<close>

definition delay_millis :: "duration \<Rightarrow> nat option" where
  "delay_millis delay = (if as_millis delay \<le> i64_max then Some (as_millis delay) else None)"

record lease_config =
  lc_batch_size :: nat
  lc_lease_duration :: duration

datatype lease_config_error = BatchTooLarge | InvalidLeaseDuration

text \<open>\<open>LeaseConfig::new\<close>; the batch size is a \<open>NonZeroUsize\<close>.\<close>

definition lease_config_new :: "nat \<Rightarrow> duration \<Rightarrow> (lease_config_error, lease_config) result" where
  "lease_config_new batch_size lease_duration =
     (if batch_size > 1000 then Inl BatchTooLarge
      else if lease_duration < MIN_POSTGRES_INTERVAL \<or> lease_duration > MAX_LEASE_DURATION then Inl InvalidLeaseDuration
      else Inr \<lparr>lc_batch_size = batch_size, lc_lease_duration = lease_duration\<rparr>)"

datatype lease_outcome = Applied | Lost

record relay_config =
  rc_lease :: lease_config
  rc_retry_delay :: duration

datatype relay_config_error = InvalidRetryDelay

definition relay_config_new :: "lease_config \<Rightarrow> duration \<Rightarrow> (relay_config_error, relay_config) result" where
  "relay_config_new lease delay =
     (if delay \<noteq> 0 \<and> delay < MIN_POSTGRES_INTERVAL \<or> delay > MAX_LEASE_DURATION
      then Inl InvalidRetryDelay
      else Inr \<lparr>rc_lease = lease, rc_retry_delay = delay\<rparr>)"

datatype relay_loop_config_error = ZeroIdleDelay | IdleDelayTooLong

definition relay_loop_config_new :: "duration \<Rightarrow> (relay_loop_config_error, duration) result" where
  "relay_loop_config_new idle_delay =
     (if idle_delay = 0 then Inl ZeroIdleDelay
      else if idle_delay > from_secs 3600 then Inl IdleDelayTooLong else Inr idle_delay)"

section \<open>The database\<close>

datatype sql_value = SqlNull | SqlText string | SqlInt int | SqlUuid uuid | SqlBytes bytes

type_synonym sql_row = "(string \<times> sql_value) list"

record 'd database =
  db_execute :: "string \<Rightarrow> sql_value list \<Rightarrow> 'd \<Rightarrow> (unit, nat) result \<times> 'd"
  db_fetch_all :: "string \<Rightarrow> sql_value list \<Rightarrow> 'd \<Rightarrow> (unit, sql_row list) result \<times> 'd"

text \<open>In a Rust literal a backslash at the end of a line joins it with the next one, without the indentation; two
  backslashes are one backslash of the text, and the line break and the indentation stay.\<close>

definition joined_lines :: "string list \<Rightarrow> string" where
  "joined_lines ls = concat ls"

fun backslash_lines :: "string list \<Rightarrow> string" where
  "backslash_lines [] = []"
| "backslash_lines [l] = l"
| "backslash_lines (l # ls) = l @ [CHR 0x5C, CHR 0x0A] @ backslash_lines ls"

section \<open>Staging\<close>

datatype stage_outcome = Inserted uuid | AlreadyPresent

definition bind_message :: "outbox_message \<Rightarrow> sql_value list" where
  "bind_message m =
     [SqlUuid (ob_id m), SqlText (outbox_kind_as_str (ob_kind m)), SqlText (ob_destination m), SqlText (ob_message_id m),
      SqlText (ob_message_type m), SqlInt (uint (ob_schema_version m)), SqlText (ob_ordering_key m),
      SqlInt (uint (ob_delivery_attempt m)), SqlInt (uint (ob_priority m)), SqlBytes (ob_payload m)]"

definition stage_sql :: string where
  "stage_sql = joined_lines
     [''INSERT INTO rustee_outbox '',
      ''(id, kind, destination, message_id, message_type, schema_version, ordering_key, '',
      ''delivery_attempt, priority, payload) '',
      ''VALUES ($1, $2, $3, $4, $5, $6, $7, $8, $9, $10) '',
      ''ON CONFLICT (kind, destination, message_id) DO NOTHING'']"

definition stage_after_sql :: string where
  "stage_after_sql = joined_lines
     [''INSERT INTO rustee_outbox '',
      ''(id, kind, destination, message_id, message_type, schema_version, ordering_key, '',
      ''delivery_attempt, priority, payload, available_at) '',
      ''VALUES ($1, $2, $3, $4, $5, $6, $7, $8, $9, $10, '',
      ''clock_timestamp() + ($11::bigint * INTERVAL '1 millisecond')) '',
      ''ON CONFLICT (kind, destination, message_id) DO NOTHING'']"

definition stage_reply :: "uuid \<Rightarrow> (unit, nat) result \<Rightarrow> (unit, stage_outcome) result" where
  "stage_reply row_id r = bind_result r (\<lambda>n. Inr (if n = 1 then Inserted row_id else AlreadyPresent))"

definition stage :: "'d database \<Rightarrow> outbox_message \<Rightarrow> 'd \<Rightarrow> (unit, stage_outcome) result \<times> 'd" where
  "stage db m d = (case db_execute db stage_sql (bind_message m) d of (r, d') \<Rightarrow> (stage_reply (ob_id m) r, d'))"

definition stage_after :: "'d database \<Rightarrow> outbox_message \<Rightarrow> nat \<Rightarrow> 'd \<Rightarrow> (unit, stage_outcome) result \<times> 'd" where
  "stage_after db m millis d =
     (case db_execute db stage_after_sql (bind_message m @ [SqlInt (int millis)]) d of
        (r, d') \<Rightarrow> (stage_reply (ob_id m) r, d'))"

datatype schedule_stage_error = WrongKind | ScheduleDatabase

text \<open>\<open>stage_job_after\<close> and \<open>stage_event_after\<close>; the schedule is a validated delay.\<close>

definition stage_job_after ::
  "'d database \<Rightarrow> outbox_message \<Rightarrow> nat \<Rightarrow> 'd \<Rightarrow> (schedule_stage_error, stage_outcome) result \<times> 'd" where
  "stage_job_after db m millis d =
     (if ob_kind m \<noteq> JobKind then (Inl WrongKind, d)
      else case stage_after db m millis d of (r, d') \<Rightarrow> (map_error (\<lambda>_. ScheduleDatabase) r, d'))"

definition stage_event_after ::
  "'d database \<Rightarrow> outbox_message \<Rightarrow> nat \<Rightarrow> 'd \<Rightarrow> (schedule_stage_error, stage_outcome) result \<times> 'd" where
  "stage_event_after db m millis d =
     (if ob_kind m \<noteq> EventKind then (Inl WrongKind, d)
      else case stage_after db m millis d of (r, d') \<Rightarrow> (map_error (\<lambda>_. ScheduleDatabase) r, d'))"

section \<open>Leases\<close>

datatype outbox_error = OutboxDatabase | OutboxInvalidDuration | StoredEvent | StoredJob

record lease_token =
  lt_id :: uuid
  lt_token :: uuid
  lt_relay_attempt :: nat

record stored_lease =
  sl_lease :: lease_token
  sl_destination :: string
  sl_message_id :: string
  sl_message_type :: string
  sl_schema_version :: u16
  sl_ordering_key :: string
  sl_delivery_attempt :: u16
  sl_payload :: bytes

record 'm leased_message =
  lm_lease :: lease_token
  lm_destination :: string
  lm_message :: 'm

definition duration_millis :: "duration \<Rightarrow> (outbox_error, nat) result" where
  "duration_millis duration =
     (if duration \<noteq> 0 \<and> duration < MIN_POSTGRES_INTERVAL \<or> duration > MAX_LEASE_DURATION then Inl OutboxInvalidDuration
      else if as_millis duration \<le> i64_max then Inr (as_millis duration) else Inl OutboxInvalidDuration)"

definition lease_sql :: string where
  "lease_sql = backslash_lines
     [''WITH candidates AS ( '',
      ''               SELECT id '',
      ''               FROM rustee_outbox '',
      ''               WHERE published_at IS NULL '',
      ''                 AND kind = $1 '',
      ''                 AND destination = $2 '',
      ''                 AND available_at <= clock_timestamp() '',
      ''                 AND (leased_until IS NULL OR leased_until <= clock_timestamp()) '',
      ''               ORDER BY priority DESC, created_at, id '',
      ''               FOR UPDATE SKIP LOCKED '',
      ''               LIMIT $3 '',
      ''             ), claimed AS ( '',
      ''               UPDATE rustee_outbox AS outbox '',
      ''               SET lease_token = $4, '',
      ''                   leased_until = clock_timestamp() + ($5::bigint * INTERVAL '1 millisecond'), '',
      ''                   relay_attempt = outbox.relay_attempt + 1 '',
      ''               FROM candidates '',
      ''               WHERE outbox.id = candidates.id '',
      ''               RETURNING outbox.id, outbox.message_id, outbox.message_type, '',
      ''                         outbox.schema_version, outbox.ordering_key, outbox.delivery_attempt, '',
      ''                         outbox.payload, outbox.relay_attempt, outbox.priority, outbox.created_at '',
      ''             ) '',
      ''             SELECT id, message_id, message_type, schema_version, ordering_key, delivery_attempt, '',
      ''                    payload, relay_attempt '',
      ''             FROM claimed '',
      ''             ORDER BY priority DESC, created_at, id'']"

definition acknowledge_sql :: string where
  "acknowledge_sql = backslash_lines
     [''UPDATE rustee_outbox '',
      ''             SET published_at = clock_timestamp(), lease_token = NULL, leased_until = NULL, '',
      ''                 last_failure_kind = NULL '',
      ''             WHERE id = $1 AND lease_token = $2 AND published_at IS NULL'']"

definition retry_sql :: string where
  "retry_sql = backslash_lines
     [''UPDATE rustee_outbox '',
      ''             SET available_at = clock_timestamp() + ($3::bigint * INTERVAL '1 millisecond'), '',
      ''                 lease_token = NULL, leased_until = NULL, last_failure_kind = 'publish_failed' '',
      ''             WHERE id = $1 AND lease_token = $2 AND published_at IS NULL'']"

text \<open>The typed column reads \<open>try_get\<close>; a missing column or another type is a database error.\<close>

definition get_uuid :: "string \<Rightarrow> sql_row \<Rightarrow> (outbox_error, uuid) result" where
  "get_uuid c row = (case map_of row c of Some (SqlUuid u) \<Rightarrow> Inr u | _ \<Rightarrow> Inl OutboxDatabase)"

definition get_i32 :: "string \<Rightarrow> sql_row \<Rightarrow> (outbox_error, int) result" where
  "get_i32 c row = (case map_of row c of Some (SqlInt i) \<Rightarrow> Inr i | _ \<Rightarrow> Inl OutboxDatabase)"

definition get_text :: "string \<Rightarrow> sql_row \<Rightarrow> (outbox_error, string) result" where
  "get_text c row = (case map_of row c of Some (SqlText t) \<Rightarrow> Inr t | _ \<Rightarrow> Inl OutboxDatabase)"

definition get_bytes :: "string \<Rightarrow> sql_row \<Rightarrow> (outbox_error, bytes) result" where
  "get_bytes c row = (case map_of row c of Some (SqlBytes b) \<Rightarrow> Inr b | _ \<Rightarrow> Inl OutboxDatabase)"

definition uint_try_from :: "nat \<Rightarrow> outbox_error \<Rightarrow> int \<Rightarrow> (outbox_error, nat) result" where
  "uint_try_from bound error i = (if 0 \<le> i \<and> i < int bound then Inr (nat i) else Inl error)"

definition stored_error :: "outbox_kind \<Rightarrow> outbox_error" where
  "stored_error kind = (case kind of EventKind \<Rightarrow> StoredEvent | JobKind \<Rightarrow> StoredJob)"

definition stored_lease_of_row ::
  "outbox_kind \<Rightarrow> string \<Rightarrow> uuid \<Rightarrow> sql_row \<Rightarrow> (outbox_error, stored_lease) result" where
  "stored_lease_of_row kind destination token row =
     bind_result (get_uuid ''id'' row) (\<lambda>row_id.
     bind_result (bind_result (get_i32 ''schema_version'' row) (uint_try_from u16_bound (stored_error kind))) (\<lambda>version.
     bind_result (bind_result (get_i32 ''delivery_attempt'' row) (uint_try_from u16_bound (stored_error kind))) (\<lambda>attempt.
     bind_result (bind_result (get_i32 ''relay_attempt'' row) (uint_try_from u32_bound (stored_error kind))) (\<lambda>relay_attempt.
     bind_result (get_text ''message_id'' row) (\<lambda>message_id.
     bind_result (get_text ''message_type'' row) (\<lambda>message_type.
     bind_result (get_text ''ordering_key'' row) (\<lambda>key.
     bind_result (get_bytes ''payload'' row) (\<lambda>payload.
     Inr \<lparr>sl_lease = \<lparr>lt_id = row_id, lt_token = token, lt_relay_attempt = relay_attempt\<rparr>,
       sl_destination = destination, sl_message_id = message_id, sl_message_type = message_type,
       sl_schema_version = of_nat version, sl_ordering_key = key, sl_delivery_attempt = of_nat attempt,
       sl_payload = payload\<rparr>))))))))"

definition lease ::
  "'d database \<Rightarrow> outbox_kind \<Rightarrow> string \<Rightarrow> lease_config \<Rightarrow> uuid \<Rightarrow> 'd \<Rightarrow> (outbox_error, stored_lease list) result \<times> 'd" where
  "lease db kind destination config token d =
     (case duration_millis (lc_lease_duration config) of
        Inl e \<Rightarrow> (Inl e, d)
      | Inr lease_millis \<Rightarrow>
          (case db_fetch_all db lease_sql
                  [SqlText (outbox_kind_as_str kind), SqlText destination, SqlInt (int (lc_batch_size config)),
                   SqlUuid token, SqlInt (int lease_millis)] d of
             (Inl _, d') \<Rightarrow> (Inl OutboxDatabase, d')
           | (Inr rows, d') \<Rightarrow> (collect_results (map (stored_lease_of_row kind destination token) rows), d')))"

definition try_from_record_job ::
  "(string \<Rightarrow> uuid option) \<Rightarrow> stored_lease \<Rightarrow> (outbox_error, job_message leased_message) result" where
  "try_from_record_job parse_uuid r =
     bind_result (map_error (\<lambda>_. StoredJob) (validate_durable_message_fields (sl_message_id r) (sl_message_type r)
       (sl_ordering_key r) (sl_delivery_attempt r) (sl_payload r))) (\<lambda>_.
     (case parse_uuid (sl_message_id r) of
        None \<Rightarrow> Inl StoredJob
      | Some i \<Rightarrow>
          bind_result (map_error (\<lambda>_. StoredJob) (message_from_parts i (sl_message_type r) (sl_schema_version r)
            (sl_delivery_attempt r) (sl_payload r))) (\<lambda>m.
          Inr \<lparr>lm_lease = sl_lease r, lm_destination = sl_destination r, lm_message = m\<rparr>)))"

definition try_from_record_event ::
  "(string \<Rightarrow> uuid option) \<Rightarrow> stored_lease \<Rightarrow> (outbox_error, event_message leased_message) result" where
  "try_from_record_event parse_uuid r =
     bind_result (map_error (\<lambda>_. StoredEvent) (validate_durable_message_fields (sl_message_id r) (sl_message_type r)
       (sl_ordering_key r) (sl_delivery_attempt r) (sl_payload r))) (\<lambda>_.
     (case parse_uuid (sl_message_id r) of
        None \<Rightarrow> Inl StoredEvent
      | Some i \<Rightarrow>
          bind_result (map_error (\<lambda>_. StoredEvent) (event_message_from_parts i (sl_message_type r) (sl_schema_version r)
            (sl_ordering_key r) (sl_payload r))) (\<lambda>m.
          Inr \<lparr>lm_lease = sl_lease r, lm_destination = sl_destination r, lm_message = m\<rparr>)))"

definition lease_jobs ::
  "'d database \<Rightarrow> (string \<Rightarrow> uuid option) \<Rightarrow> string \<Rightarrow> lease_config \<Rightarrow> uuid \<Rightarrow> 'd \<Rightarrow>
   (outbox_error, job_message leased_message list) result \<times> 'd" where
  "lease_jobs db parse_uuid destination config token d =
     (case lease db JobKind destination config token d of
        (r, d') \<Rightarrow> (bind_result r (\<lambda>records. collect_results (map (try_from_record_job parse_uuid) records)), d'))"

definition lease_events ::
  "'d database \<Rightarrow> (string \<Rightarrow> uuid option) \<Rightarrow> string \<Rightarrow> lease_config \<Rightarrow> uuid \<Rightarrow> 'd \<Rightarrow>
   (outbox_error, event_message leased_message list) result \<times> 'd" where
  "lease_events db parse_uuid destination config token d =
     (case lease db EventKind destination config token d of
        (r, d') \<Rightarrow> (bind_result r (\<lambda>records. collect_results (map (try_from_record_event parse_uuid) records)), d'))"

definition lease_outcome_of :: "nat \<Rightarrow> lease_outcome" where
  "lease_outcome_of rows_affected = (if rows_affected = 1 then Applied else Lost)"

definition outbox_acknowledge :: "'d database \<Rightarrow> lease_token \<Rightarrow> 'd \<Rightarrow> (outbox_error, lease_outcome) result \<times> 'd" where
  "outbox_acknowledge db l d =
     (case db_execute db acknowledge_sql [SqlUuid (lt_id l), SqlUuid (lt_token l)] d of
        (Inl _, d') \<Rightarrow> (Inl OutboxDatabase, d')
      | (Inr n, d') \<Rightarrow> (Inr (lease_outcome_of n), d'))"

definition outbox_retry ::
  "'d database \<Rightarrow> lease_token \<Rightarrow> duration \<Rightarrow> 'd \<Rightarrow> (outbox_error, lease_outcome) result \<times> 'd" where
  "outbox_retry db l delay d =
     (case duration_millis delay of
        Inl e \<Rightarrow> (Inl e, d)
      | Inr millis \<Rightarrow>
          (case db_execute db retry_sql [SqlUuid (lt_id l), SqlUuid (lt_token l), SqlInt (int millis)] d of
             (Inl _, d') \<Rightarrow> (Inl OutboxDatabase, d')
           | (Inr n, d') \<Rightarrow> (Inr (lease_outcome_of n), d')))"

section \<open>The relay\<close>

text \<open>The trait \<open>RelayKind\<close>: the operations on which event and job relays differ.\<close>

record ('l, 'd, 'w, 'e) relay_kind =
  rk_pass_kind :: outbox_kind
  rk_lease :: "uuid \<Rightarrow> 'd \<Rightarrow> (outbox_error, 'l list) result \<times> 'd"
  rk_publish :: "'l \<Rightarrow> 'w \<Rightarrow> ('e, unit) result \<times> 'w"
  rk_acknowledge :: "'l \<Rightarrow> 'd \<Rightarrow> (outbox_error, lease_outcome) result \<times> 'd"
  rk_retry :: "'l \<Rightarrow> duration \<Rightarrow> 'd \<Rightarrow> (outbox_error, lease_outcome) result \<times> 'd"

definition job_relay_kind ::
  "'d database \<Rightarrow> (string \<Rightarrow> uuid option) \<Rightarrow> string \<Rightarrow> relay_config \<Rightarrow> (job_message \<Rightarrow> 'w \<Rightarrow> ('e, unit) result \<times> 'w) \<Rightarrow>
   (job_message leased_message, 'd, 'w, 'e) relay_kind" where
  "job_relay_kind db parse_uuid destination config publish =
     \<lparr>rk_pass_kind = JobKind,
      rk_lease = lease_jobs db parse_uuid destination (rc_lease config),
      rk_publish = (\<lambda>l. publish (lm_message l)),
      rk_acknowledge = (\<lambda>l. outbox_acknowledge db (lm_lease l)),
      rk_retry = (\<lambda>l. outbox_retry db (lm_lease l))\<rparr>"

definition event_relay_kind ::
  "'d database \<Rightarrow> (string \<Rightarrow> uuid option) \<Rightarrow> string \<Rightarrow> relay_config \<Rightarrow> (event_message \<Rightarrow> 'w \<Rightarrow> ('e, unit) result \<times> 'w) \<Rightarrow>
   (event_message leased_message, 'd, 'w, 'e) relay_kind" where
  "event_relay_kind db parse_uuid destination config publish =
     \<lparr>rk_pass_kind = EventKind,
      rk_lease = lease_events db parse_uuid destination (rc_lease config),
      rk_publish = (\<lambda>l. publish (lm_message l)),
      rk_acknowledge = (\<lambda>l. outbox_acknowledge db (lm_lease l)),
      rk_retry = (\<lambda>l. outbox_retry db (lm_lease l))\<rparr>"

record relay_report =
  rr_claimed :: nat
  rr_published :: nat
  rr_retry_scheduled :: nat
  rr_lease_lost :: nat

datatype 'e relay_error = RelayOutbox outbox_error | RelayPublisher 'e relay_report

text \<open>The loop over the leased rows, and one pass.\<close>

fun relay_leases ::
  "('l, 'd, 'w, 'e) relay_kind \<Rightarrow> duration \<Rightarrow> 'l list \<Rightarrow> relay_report \<Rightarrow> 'd \<times> 'w \<Rightarrow>
   ('e relay_error, relay_report) result \<times> 'd \<times> 'w" where
  "relay_leases kind delay [] report (d, w) = (Inr report, d, w)"
| "relay_leases kind delay (l # ls) report (d, w) =
     (case rk_publish kind l w of
        (Inr _, w') \<Rightarrow>
          (case rk_acknowledge kind l d of
             (Inl e, d') \<Rightarrow> (Inl (RelayOutbox e), d', w')
           | (Inr Applied, d') \<Rightarrow>
               relay_leases kind delay ls (report\<lparr>rr_published := rr_published report + 1\<rparr>) (d', w')
           | (Inr Lost, d') \<Rightarrow>
               relay_leases kind delay ls (report\<lparr>rr_lease_lost := rr_lease_lost report + 1\<rparr>) (d', w'))
      | (Inl source, w') \<Rightarrow>
          (case rk_retry kind l delay d of
             (Inl e, d') \<Rightarrow> (Inl (RelayOutbox e), d', w')
           | (Inr Applied, d') \<Rightarrow>
               (Inl (RelayPublisher source (report\<lparr>rr_retry_scheduled := rr_retry_scheduled report + 1\<rparr>)), d', w')
           | (Inr Lost, d') \<Rightarrow>
               (Inl (RelayPublisher source (report\<lparr>rr_lease_lost := rr_lease_lost report + 1\<rparr>)), d', w')))"

definition relay_once_inner ::
  "('l, 'd, 'w, 'e) relay_kind \<Rightarrow> duration \<Rightarrow> uuid \<Rightarrow> 'd \<times> 'w \<Rightarrow> ('e relay_error, relay_report) result \<times> 'd \<times> 'w" where
  "relay_once_inner kind delay token s =
     (case rk_lease kind token (fst s) of
        (Inl e, d') \<Rightarrow> (Inl (RelayOutbox e), d', snd s)
      | (Inr leases, d') \<Rightarrow>
          relay_leases kind delay leases
            \<lparr>rr_claimed = length leases, rr_published = 0, rr_retry_scheduled = 0, rr_lease_lost = 0\<rparr> (d', snd s))"

text \<open>
  A pass with its observation (\<open>relay/observation.rs\<close>).  An observer gives its new state and whether it
  panicked, which is caught.  The elapsed time of a pass is measured by the runtime.
\<close>

datatype relay_pass_outcome = PassSucceeded | PassFailed | PassAbandoned

datatype relay_pass_event =
    PassStarted outbox_kind
  | PassFinished outbox_kind relay_pass_outcome "relay_report option" duration

type_synonym 'o relay_observer = "relay_pass_event \<Rightarrow> 'o \<Rightarrow> bool \<times> 'o"

definition relay_once ::
  "'o relay_observer \<Rightarrow> ('l, 'd, 'w, 'e) relay_kind \<Rightarrow> duration \<Rightarrow> uuid \<Rightarrow> duration \<Rightarrow> 'd \<times> 'w \<Rightarrow> 'o \<Rightarrow>
   (('e relay_error, relay_report) result \<times> 'd \<times> 'w) \<times> 'o" where
  "relay_once observer kind delay token elapsed s obs =
     (let obs1 = snd (observer (PassStarted (rk_pass_kind kind)) obs) in
      case relay_once_inner kind delay token s of
        (Inr report, s') \<Rightarrow>
          ((Inr report, s'), snd (observer (PassFinished (rk_pass_kind kind) PassSucceeded (Some report) elapsed) obs1))
      | (Inl e, s') \<Rightarrow>
          ((Inl e, s'), snd (observer (PassFinished (rk_pass_kind kind) PassFailed
             (case e of RelayOutbox _ \<Rightarrow> None | RelayPublisher _ report \<Rightarrow> Some report) elapsed) obs1)))"

record relay_loop_report =
  rl_passes :: nat
  rl_claimed :: nat
  rl_published :: nat
  rl_retry_scheduled :: nat
  rl_lease_lost :: nat

definition relay_record :: "relay_report \<Rightarrow> relay_loop_report \<Rightarrow> relay_loop_report" where
  "relay_record report acc =
     \<lparr>rl_passes = saturating_add usize_bound (rl_passes acc) 1,
      rl_claimed = saturating_add usize_bound (rl_claimed acc) (rr_claimed report),
      rl_published = saturating_add usize_bound (rl_published acc) (rr_published report),
      rl_retry_scheduled = saturating_add usize_bound (rl_retry_scheduled acc) (rr_retry_scheduled report),
      rl_lease_lost = saturating_add usize_bound (rl_lease_lost acc) (rr_lease_lost report)\<rparr>"

text \<open>
  The relay loop, driven by what its polls of the shutdown future find, with the token of the pass when the loop
  goes on; \<open>None\<close> while the loop is still running after the given polls.
\<close>

datatype poll = ShutdownReady | Continue uuid duration

fun relay_run_until ::
  "'o relay_observer \<Rightarrow> ('l, 'd, 'w, 'e) relay_kind \<Rightarrow> duration \<Rightarrow> poll list \<Rightarrow> relay_loop_report \<Rightarrow> 'd \<times> 'w \<Rightarrow> 'o \<Rightarrow>
   ((('e relay_error, relay_loop_report) result \<times> 'd \<times> 'w) \<times> 'o) option" where
  "relay_run_until observer kind delay [] acc s obs = None"
| "relay_run_until observer kind delay (ShutdownReady # ps) acc s obs = Some ((Inr acc, s), obs)"
| "relay_run_until observer kind delay (Continue token elapsed # ps) acc s obs =
     (case relay_once observer kind delay token elapsed s obs of
        ((Inl e, s'), obs') \<Rightarrow> Some ((Inl e, s'), obs')
      | ((Inr report, s'), obs') \<Rightarrow>
          (if rr_claimed report = 0 then
             (case ps of
                [] \<Rightarrow> None
              | ShutdownReady # _ \<Rightarrow> Some ((Inr (relay_record report acc), s'), obs')
              | Continue _ _ # ps' \<Rightarrow> relay_run_until observer kind delay ps' (relay_record report acc) s' obs')
           else relay_run_until observer kind delay ps (relay_record report acc) s' obs'))"

section \<open>The inbox\<close>

datatype inbox_error = InboxInvalidConsumer | InboxInvalidMessageId

definition inbox_consumer_new :: "string \<Rightarrow> (inbox_error, string) result" where
  "inbox_consumer_new consumer =
     bind_result (validate_text consumer MAX_MESSAGE_ID_BYTES InboxInvalidConsumer) (\<lambda>_. Inr consumer)"

definition inbox_message_id_new :: "string \<Rightarrow> (inbox_error, string) result" where
  "inbox_message_id_new message_id =
     bind_result (validate_text message_id MAX_MESSAGE_ID_BYTES InboxInvalidMessageId) (\<lambda>_. Inr message_id)"

definition inbox_sql :: string where
  "inbox_sql = joined_lines
     [''INSERT INTO rustee_inbox (consumer, message_id) VALUES ($1, $2) '',
      ''ON CONFLICT (consumer, message_id) DO NOTHING'']"


section \<open>The relay protocol\<close>

lemma relay_leases_Cons:
  assumes "relay_leases kind delay (l # ls) report s = (r, s')"
  obtains (database) e where "r = Inl (RelayOutbox e)"
    | (retried) source where "r = Inl (RelayPublisher source (report\<lparr>rr_retry_scheduled := rr_retry_scheduled report + 1\<rparr>))"
    | (retry_lost) source where "r = Inl (RelayPublisher source (report\<lparr>rr_lease_lost := rr_lease_lost report + 1\<rparr>))"
    | (applied) d' w' where "relay_leases kind delay ls (report\<lparr>rr_published := rr_published report + 1\<rparr>) (d', w') = (r, s')"
    | (lost) d' w' where "relay_leases kind delay ls (report\<lparr>rr_lease_lost := rr_lease_lost report + 1\<rparr>) (d', w') = (r, s')"
proof -
  obtain d w where s: "s = (d, w)" by force
  obtain pr w' where pub: "rk_publish kind l w = (pr, w')" by force
  obtain rr d1 where ret: "rk_retry kind l delay d = (rr, d1)" by force
  obtain ar d2 where ack: "rk_acknowledge kind l d = (ar, d2)" by force
  show thesis
  proof (cases pr)
    case (Inl source)
    with assms s pub ret show thesis
      by (cases rr) (auto split: lease_outcome.splits intro: database retried retry_lost)
  next
    case (Inr u)
    with assms s pub ack show thesis
      by (cases ar) (auto split: lease_outcome.splits intro: database applied lost)
  qed
qed

lemma relay_leases_return:
  assumes "relay_leases kind delay ls report s = (Inr report', s')"
  shows "rr_claimed report' = rr_claimed report \<and> rr_retry_scheduled report' = rr_retry_scheduled report \<and>
    rr_published report' + rr_lease_lost report' = rr_published report + rr_lease_lost report + length ls"
  using assms
proof (induction ls arbitrary: report s)
  case Nil
  then show ?case by (cases s) auto
next
  case (Cons l ls)
  from Cons.prems show ?case
  proof (cases rule: relay_leases_Cons)
    case (applied d' w')
    from Cons.IH [OF applied] show ?thesis by simp
  next
    case (lost d' w')
    from Cons.IH [OF lost] show ?thesis by simp
  qed auto
qed

lemma relay_leases_publisher:
  assumes "relay_leases kind delay ls report s = (Inl (RelayPublisher source report'), s')"
  shows "rr_claimed report' = rr_claimed report \<and> rr_retry_scheduled report' \<le> rr_retry_scheduled report + 1 \<and>
    rr_published report + rr_lease_lost report + rr_retry_scheduled report <
      rr_published report' + rr_lease_lost report' + rr_retry_scheduled report' \<and>
    rr_published report' + rr_lease_lost report' + rr_retry_scheduled report' \<le>
      rr_published report + rr_lease_lost report + rr_retry_scheduled report + length ls"
  using assms
proof (induction ls arbitrary: report s)
  case Nil
  then show ?case by (cases s) auto
next
  case (Cons l ls)
  from Cons.prems show ?case
  proof (cases rule: relay_leases_Cons)
    case (applied d' w')
    from Cons.IH [OF applied] show ?thesis by simp
  next
    case (lost d' w')
    from Cons.IH [OF lost] show ?thesis by simp
  qed auto
qed

text \<open>The counts of a relay pass account for every claimed row: a pass that returns normally has published or lost
  every row it claimed, and a pass ended by the publisher has at most one row scheduled for a retry, counts the
  failed row exactly once and never counts more rows than it claimed.\<close>

theorem relay_pass_accounts:
  assumes "relay_once_inner kind delay token s = (r, s')"
  shows "(\<forall>report. r = Inr report \<longrightarrow> rr_retry_scheduled report = 0 \<and>
      rr_published report + rr_lease_lost report = rr_claimed report) \<and>
    (\<forall>source report. r = Inl (RelayPublisher source report) \<longrightarrow> rr_retry_scheduled report \<le> 1 \<and>
      0 < rr_published report + rr_lease_lost report + rr_retry_scheduled report \<and>
      rr_published report + rr_lease_lost report + rr_retry_scheduled report \<le> rr_claimed report)"
proof -
  obtain lr d' where l: "rk_lease kind token (fst s) = (lr, d')" by force
  show ?thesis
  proof (cases lr)
    case (Inl e)
    with l assms show ?thesis by (auto simp: relay_once_inner_def)
  next
    case (Inr leases)
    with l assms have run: "relay_leases kind delay leases
        \<lparr>rr_claimed = length leases, rr_published = 0, rr_retry_scheduled = 0, rr_lease_lost = 0\<rparr> (d', snd s) = (r, s')"
      by (simp add: relay_once_inner_def)
    show ?thesis
    proof (intro conjI allI impI)
      fix report assume "r = Inr report"
      from relay_leases_return [OF run [unfolded this]]
      show "rr_retry_scheduled report = 0" "rr_published report + rr_lease_lost report = rr_claimed report" by simp_all
    next
      fix source report assume "r = Inl (RelayPublisher source report)"
      from relay_leases_publisher [OF run [unfolded this]]
      show "rr_retry_scheduled report \<le> 1" "0 < rr_published report + rr_lease_lost report + rr_retry_scheduled report"
        "rr_published report + rr_lease_lost report + rr_retry_scheduled report \<le> rr_claimed report" by simp_all
    qed
  qed
qed

section \<open>The statements of the relay\<close>

text \<open>A backslash outside a quoted string, which the lexical rules of PostgreSQL do not allow: the statement is refused
  with a syntax error and nothing is changed.\<close>

fun unquoted_backslash :: "bool \<Rightarrow> string \<Rightarrow> bool" where
  "unquoted_backslash quoted [] \<longleftrightarrow> False"
| "unquoted_backslash quoted (c # cs) \<longleftrightarrow>
     (if c = CHR 0x27 then unquoted_backslash (\<not> quoted) cs
      else c = CHR 0x5C \<and> \<not> quoted \<or> unquoted_backslash quoted cs)"

definition lexer_documented :: "'d database \<Rightarrow> bool" where
  "lexer_documented db \<longleftrightarrow>
     (\<forall>sql args d. unquoted_backslash False sql \<longrightarrow>
        db_execute db sql args d = (Inl (), d) \<and> db_fetch_all db sql args d = (Inl (), d))"

lemma unquoted_backslash_append:
  "CHR 0x27 \<notin> set l \<Longrightarrow> unquoted_backslash False (l @ CHR 0x5C # r)"
  by (induction l) auto

lemma relay_statements_refused:
  assumes "lexer_documented db"
  shows "db_fetch_all db lease_sql args d = (Inl (), d)" "db_execute db acknowledge_sql args d = (Inl (), d)"
    "db_execute db retry_sql args d = (Inl (), d)"
proof -
  have lines: "unquoted_backslash False (backslash_lines (l # l' # ls))" if "CHR 0x27 \<notin> set l" for l l' ls
    using unquoted_backslash_append [OF that] by simp
  have "unquoted_backslash False lease_sql" unfolding lease_sql_def by (rule lines) simp
  moreover have "unquoted_backslash False acknowledge_sql" unfolding acknowledge_sql_def by (rule lines) simp
  moreover have "unquoted_backslash False retry_sql" unfolding retry_sql_def by (rule lines) simp
  ultimately show "db_fetch_all db lease_sql args d = (Inl (), d)" "db_execute db acknowledge_sql args d = (Inl (), d)"
    "db_execute db retry_sql args d = (Inl (), d)"
    using assms unfolding lexer_documented_def by blast+
qed

lemma duration_millis_valid:
  "lease_config_new n t = Inr c \<Longrightarrow> \<exists>ms. duration_millis (lc_lease_duration c) = Inr ms"
  "relay_config_new c t = Inr rc \<Longrightarrow> \<exists>ms. duration_millis (rc_retry_delay rc) = Inr ms"
proof -
  have ms: "as_millis t \<le> i64_max" if "t \<le> MAX_LEASE_DURATION" for t
    using div_le_mono [OF that, of nanos_per_milli] by (simp add: as_millis_def from_secs_def)
  then show "lease_config_new n t = Inr c \<Longrightarrow> \<exists>ms. duration_millis (lc_lease_duration c) = Inr ms"
    "relay_config_new c t = Inr rc \<Longrightarrow> \<exists>ms. duration_millis (rc_retry_delay rc) = Inr ms" for c
    by (auto simp: lease_config_new_def relay_config_new_def duration_millis_def not_less split: if_splits)
qed

text \<open>C24. No message ever leaves the outbox.  The statements that lease, acknowledge and release rows end their lines
  with two backslashes, so their texts contain backslashes; the server refuses them, every relay pass, of
  events and of jobs and under every configuration, ends with a database error before anything is published, and
  the relay loop ends with this error in its first pass.\<close>

theorem relay_statements_never_accepted:
  assumes db: "lexer_documented db" and lc: "lease_config_new n t = Inr lc" and rc: "relay_config_new lc delay = Inr config"
  shows "lease_jobs db parse_uuid dest (rc_lease config) token d = (Inl OutboxDatabase, d) \<and>
    lease_events db parse_uuid dest (rc_lease config) token d = (Inl OutboxDatabase, d) \<and>
    outbox_acknowledge db l d = (Inl OutboxDatabase, d) \<and>
    outbox_retry db l (rc_retry_delay config) d = (Inl OutboxDatabase, d) \<and>
    map_option fst (relay_run_until observer (job_relay_kind db parse_uuid dest config publish) (rc_retry_delay config)
      (Continue token elapsed # ps) acc (d, w) obs) = Some (Inl (RelayOutbox OutboxDatabase), d, w) \<and>
    map_option fst (relay_run_until observer (event_relay_kind db parse_uuid dest config publish_event) (rc_retry_delay config)
      (Continue token elapsed # ps) acc (d, w) obs) = Some (Inl (RelayOutbox OutboxDatabase), d, w)"
proof -
  have c: "rc_lease config = lc" using rc by (auto simp: relay_config_new_def split: if_splits)
  obtain ms where ms: "duration_millis (lc_lease_duration (rc_lease config)) = Inr ms" using duration_millis_valid(1) [OF lc] c by auto
  obtain ms' where ms': "duration_millis (rc_retry_delay config) = Inr ms'" using duration_millis_valid(2) [OF rc] by auto
  have jobs: "lease_jobs db parse_uuid dest (rc_lease config) token d = (Inl OutboxDatabase, d)"
    by (simp add: lease_jobs_def lease_def ms relay_statements_refused [OF db])
  moreover have events: "lease_events db parse_uuid dest (rc_lease config) token d = (Inl OutboxDatabase, d)"
    by (simp add: lease_events_def lease_def ms relay_statements_refused [OF db])
  moreover have "outbox_acknowledge db l d = (Inl OutboxDatabase, d)" "outbox_retry db l (rc_retry_delay config) d = (Inl OutboxDatabase, d)"
    by (simp_all add: outbox_acknowledge_def outbox_retry_def ms' relay_statements_refused [OF db])
  ultimately show ?thesis
    by (simp add: relay_once_def relay_once_inner_def job_relay_kind_def event_relay_kind_def Let_def)
qed

section \<open>Staged jobs are restored\<close>

lemma ws_front_graphic: "in_codes 33 126 a \<Longrightarrow> ws_front (a # r) = 0"
  by (cases "a # r" rule: ws_front.cases) (auto simp: ws1_def ws2_def ws3_def in_codes_def)

lemma has_whitespace_graphic: "\<forall>c \<in> set s. in_codes 33 126 c \<Longrightarrow> \<not> has_whitespace s"
  by (induction s) (auto simp: ws_front_graphic)

text \<open>What is documented of the printed form of a UUID: 36 graphic characters that the parser reads back.\<close>

definition uuid_documented :: "(uuid \<Rightarrow> string) \<Rightarrow> (string \<Rightarrow> uuid option) \<Rightarrow> bool" where
  "uuid_documented show_uuid parse_uuid \<longleftrightarrow>
     (\<forall>u. length (show_uuid u) = 36 \<and> (\<forall>c \<in> set (show_uuid u). in_codes 33 126 c) \<and> parse_uuid (show_uuid u) = Some u)"

lemma uuid_text:
  assumes "uuid_documented show_uuid parse_uuid"
  shows "validate_text (show_uuid u) MAX_MESSAGE_ID_BYTES e = Inr ()" "validate_text (show_uuid u) MAX_ORDERING_KEY_BYTES e = Inr ()"
    "parse_uuid (show_uuid u) = Some u"
proof -
  have t: "length (show_uuid u) = 36" "\<forall>c \<in> set (show_uuid u). in_codes 33 126 c" and "parse_uuid (show_uuid u) = Some u"
    using assms by (auto simp: uuid_documented_def)
  then show "parse_uuid (show_uuid u) = Some u" by simp
  have "trim (show_uuid u) = show_uuid u" by (rule trim_no_whitespace) (rule has_whitespace_graphic [OF t(2)])
  moreover have "CHR 0x00 \<notin> set (show_uuid u)" using t(2) by (auto simp: in_codes_def)
  moreover have "show_uuid u \<noteq> []" using t(1) by auto
  ultimately show "validate_text (show_uuid u) MAX_MESSAGE_ID_BYTES e = Inr ()"
    "validate_text (show_uuid u) MAX_ORDERING_KEY_BYTES e = Inr ()"
    using t(1) by (simp_all add: validate_text_def)
qed

text \<open>A row of the table, and the columns that a query gives for it.\<close>

record outbox_row =
  row_message :: outbox_message
  row_relay_attempt :: nat
  row_available_at :: nat
  row_created_at :: nat
  row_lease :: "(uuid \<times> nat) option"
  row_published_at :: "nat option"

definition new_row :: "outbox_message \<Rightarrow> nat \<Rightarrow> nat \<Rightarrow> outbox_row" where
  "new_row m available_at created_at =
     \<lparr>row_message = m, row_relay_attempt = 0, row_available_at = available_at, row_created_at = created_at,
      row_lease = None, row_published_at = None\<rparr>"

definition row_columns :: "outbox_row \<Rightarrow> sql_row" where
  "row_columns row =
     [(''id'', SqlUuid (ob_id (row_message row))), (''message_id'', SqlText (ob_message_id (row_message row))),
      (''message_type'', SqlText (ob_message_type (row_message row))),
      (''schema_version'', SqlInt (uint (ob_schema_version (row_message row)))),
      (''ordering_key'', SqlText (ob_ordering_key (row_message row))),
      (''delivery_attempt'', SqlInt (uint (ob_delivery_attempt (row_message row)))),
      (''payload'', SqlBytes (ob_payload (row_message row))), (''relay_attempt'', SqlInt (int (row_relay_attempt row)))]"

definition row_key :: "outbox_message \<Rightarrow> outbox_kind \<times> string \<times> string" where
  "row_key m = (ob_kind m, ob_destination m, ob_message_id m)"

text \<open>
  What is documented of \<open>INSERT ... ON CONFLICT (kind, destination, message_id) DO NOTHING\<close> on the table of the
  migration: a row with the same three values is left alone, another conflict or a failed check is an error, and
  otherwise the row is added with the defaults of the other columns.
\<close>

definition inserted :: "('d \<Rightarrow> outbox_row list) \<Rightarrow> outbox_message \<Rightarrow> nat \<Rightarrow> nat \<Rightarrow> 'd \<Rightarrow> (unit, nat) result \<times> 'd \<Rightarrow> bool" where
  "inserted view m available_at now d reply \<longleftrightarrow>
     (if row_key m \<in> row_key ` row_message ` set (view d) then fst reply = Inr 0 \<and> view (snd reply) = view d
      else if ob_id m \<in> ob_id ` row_message ` set (view d) \<or> ob_payload m = [] \<or> ob_delivery_attempt m = 0
      then fst reply = Inl () \<and> view (snd reply) = view d
      else fst reply = Inr 1 \<and> view (snd reply) = view d @ [new_row m available_at now])"

definition outbox_documented :: "'d database \<Rightarrow> ('d \<Rightarrow> outbox_row list) \<Rightarrow> ('d \<Rightarrow> nat) \<Rightarrow> bool" where
  "outbox_documented db view now \<longleftrightarrow>
     (\<forall>m d. inserted view m (now d) (now d) d (db_execute db stage_sql (bind_message m) d)) \<and>
     (\<forall>m millis d. inserted view m (now d + millis) (now d) d
        (db_execute db stage_after_sql (bind_message m @ [SqlInt (int millis)]) d))"

lemma job_staged_fields:
  assumes uuid: "uuid_documented show_uuid parse_uuid" and json: "serde_faithful json"
    and m: "envelope_message json j e = Inr msg"
  shows "validate_durable_message_fields (show_uuid (msg_id msg)) (msg_name msg) (show_uuid (msg_id msg)) (msg_attempt msg)
    (msg_payload msg) = Inr ()"
proof -
  obtain b where b: "envelope_encode json j e = Inr b" "msg_payload msg = b" "msg_name msg = env_name e" "msg_attempt msg = env_attempt e"
    using m by (auto simp: envelope_message_def bind_result_eq_Inr)
  have wf: "envelope_wf j e" "length b \<le> MAX_JOB_ENVELOPE_BYTES" using b(1) by (simp_all add: envelope_encode_Inr)
  then have "is_valid_job_name (env_name e)" "env_attempt e \<noteq> 0" by (auto simp: envelope_wf_def)
  then have "validate_text (env_name e) MAX_MESSAGE_TYPE_BYTES ObInvalidMessageType = Inr ()"
    using valid_job_name_trim by (auto simp: validate_text_def is_valid_job_name_def)
  with wf b \<open>env_attempt e \<noteq> 0\<close> envelope_roundtrip(3) [OF json b(1)] show ?thesis
    by (simp add: validate_durable_message_fields_def uuid_text [OF uuid])
qed

lemma row_columns_restored:
  assumes "row_relay_attempt row < u32_bound"
  shows "stored_lease_of_row kind destination token (row_columns row) =
    Inr \<lparr>sl_lease = \<lparr>lt_id = ob_id (row_message row), lt_token = token, lt_relay_attempt = row_relay_attempt row\<rparr>,
      sl_destination = destination, sl_message_id = ob_message_id (row_message row), sl_message_type = ob_message_type (row_message row),
      sl_schema_version = ob_schema_version (row_message row), sl_ordering_key = ob_ordering_key (row_message row),
      sl_delivery_attempt = ob_delivery_attempt (row_message row), sl_payload = ob_payload (row_message row)\<rparr>"
proof -
  have u16: "uint_try_from u16_bound err (uint (w :: u16)) = Inr (unat w)" for w err
    using uint_lt2p [of w] by (simp add: uint_try_from_def)
  have u32: "uint_try_from u32_bound err (int (row_relay_attempt row)) = Inr (row_relay_attempt row)" for err
    using assms by (simp add: uint_try_from_def)
  show ?thesis
    unfolding stored_lease_of_row_def row_columns_def get_uuid_def get_i32_def get_text_def get_bytes_def by (simp add: u16 u32)
qed

text \<open>C21. Every job that can be encoded can be staged, and what the outbox stores of it is enough to deliver it: the
  row that staging adds is read back, whatever the number of earlier relay attempts, as the same job message,
  with the identifier and the attempt of the job, and its payload decodes to the original envelope.  Staging the
  message again changes nothing and says so.\<close>

theorem staged_job_restored:
  assumes uuid: "uuid_documented show_uuid parse_uuid" and json: "serde_faithful json" and db: "outbox_documented db view now"
    and m: "envelope_message json j e = Inr msg"
    and free: "show_uuid (env_id e) \<notin> ob_message_id ` row_message ` set (view d)" "row_id \<notin> ob_id ` row_message ` set (view d)"
    and k: "k < u32_bound"
  shows "\<exists>om row d'. outbox_job show_uuid row_id destination json j e = Inr om \<and>
    stage db om d = (Inr (Inserted row_id), d') \<and> view d' = view d @ [row] \<and> row_available_at row = now d \<and>
    bind_result (stored_lease_of_row JobKind destination token (row_columns (row\<lparr>row_relay_attempt := k\<rparr>))) (try_from_record_job parse_uuid) =
      Inr \<lparr>lm_lease = \<lparr>lt_id = row_id, lt_token = token, lt_relay_attempt = k\<rparr>, lm_destination = destination, lm_message = msg\<rparr> \<and>
    envelope_decode json j (msg_payload msg) = Inr e \<and>
    fst (stage db om d') = Inr AlreadyPresent \<and> view (snd (stage db om d')) = view d' \<and>
    fst (stage_job_after db om millis d') = Inr AlreadyPresent \<and> view (snd (stage_job_after db om millis d')) = view d'"
proof -
  note fields = job_staged_fields [OF uuid json m]
  obtain b where b: "envelope_encode json j e = Inr b" "msg_payload msg = b" "msg_id msg = env_id e"
    using m by (auto simp: envelope_message_def bind_result_eq_Inr)
  define om where "om = \<lparr>ob_id = row_id, ob_kind = JobKind, ob_destination = destination, ob_message_id = show_uuid (msg_id msg),
    ob_message_type = msg_name msg, ob_schema_version = msg_version msg, ob_ordering_key = show_uuid (msg_id msg),
    ob_delivery_attempt = msg_attempt msg, ob_priority = 0, ob_payload = msg_payload msg\<rparr>"
  have om: "outbox_job show_uuid row_id destination json j e = Inr om"
    by (simp add: outbox_job_def m map_error_def from_job_message_def outbox_message_new_def fields om_def Let_def)
  have checks: "ob_payload om \<noteq> []" "ob_delivery_attempt om \<noteq> 0"
    using fields by (auto simp: om_def validate_durable_message_fields_def bind_result_eq_Inr split: if_splits)
  have ins: "inserted view om (now x) (now x) x (db_execute db stage_sql (bind_message om) x)"
    "inserted view om (now x + millis) (now x) x (db_execute db stage_after_sql (bind_message om @ [SqlInt (int millis)]) x)" for x
    using db by (auto simp: outbox_documented_def)
  obtain r d' where run: "db_execute db stage_sql (bind_message om) d = (r, d')" by force
  have "row_key om \<notin> row_key ` row_message ` set (view d)" using free(1) b(3) by (auto simp: row_key_def om_def)
  with ins(1) [of d] run checks free(2) have r: "r = Inr 1" "view d' = view d @ [new_row om (now d) (now d)]"
    by (auto simp: inserted_def om_def)
  have "row_key om \<in> row_key ` row_message ` set (view d')" using r(2) by (simp add: new_row_def)
  with ins [of d'] have again: "fst (db_execute db stage_sql (bind_message om) d') = Inr 0" "view (snd (db_execute db stage_sql (bind_message om) d')) = view d'"
    "fst (db_execute db stage_after_sql (bind_message om @ [SqlInt (int millis)]) d') = Inr 0"
    "view (snd (db_execute db stage_after_sql (bind_message om @ [SqlInt (int millis)]) d')) = view d'"
    by (simp_all add: inserted_def)
  have "bind_result (stored_lease_of_row JobKind destination token (row_columns ((new_row om (now d) (now d))\<lparr>row_relay_attempt := k\<rparr>)))
      (try_from_record_job parse_uuid) =
    Inr \<lparr>lm_lease = \<lparr>lt_id = row_id, lt_token = token, lt_relay_attempt = k\<rparr>, lm_destination = destination, lm_message = msg\<rparr>"
    using k fields uuid_text(3) [OF uuid] message_of_encoded [OF json m]
    by (simp add: row_columns_restored new_row_def om_def try_from_record_job_def map_error_def)
  moreover have "stage db om d = (Inr (Inserted row_id), d')" using run r(1) by (simp add: stage_def stage_reply_def om_def)
  moreover have "row_available_at (new_row om (now d) (now d)) = now d" by (simp add: new_row_def)
  moreover have "fst (stage db om d') = Inr AlreadyPresent" "view (snd (stage db om d')) = view d'"
    "fst (stage_job_after db om millis d') = Inr AlreadyPresent" "view (snd (stage_job_after db om millis d')) = view d'"
    using again by (simp_all add: stage_def stage_job_after_def stage_after_def stage_reply_def map_error_def case_prod_unfold om_def)
  ultimately show ?thesis using om r(2) envelope_roundtrip(1) [OF json b(1)] b(2) by blast
qed

section \<open>Receipts of the inbox\<close>

text \<open>What is documented of the insert of a receipt, and of a rollback, which restores the state of the table.\<close>

definition inbox_documented :: "'d database \<Rightarrow> ('d \<Rightarrow> (string \<times> string) set) \<Rightarrow> bool" where
  "inbox_documented db view \<longleftrightarrow>
     (\<forall>consumer message_id d. case db_execute db inbox_sql [SqlText consumer, SqlText message_id] d of
        (r, d') \<Rightarrow> r = Inr (if (consumer, message_id) \<in> view d then 0 else 1) \<and>
          view d' = insert (consumer, message_id) (view d))"







section \<open>A server with the documented behaviour\<close>

record pg_state =
  pg_rows :: "outbox_row list"
  pg_receipts :: "(string \<times> string) set"
  pg_now :: nat

definition model_insert :: "outbox_message \<Rightarrow> nat \<Rightarrow> pg_state \<Rightarrow> (unit, nat) result \<times> pg_state" where
  "model_insert m available_at d =
     (if row_key m \<in> row_key ` row_message ` set (pg_rows d) then (Inr 0, d)
      else if ob_id m \<in> ob_id ` row_message ` set (pg_rows d) \<or> ob_payload m = [] \<or> ob_delivery_attempt m = 0 then (Inl (), d)
      else (Inr 1, d\<lparr>pg_rows := pg_rows d @ [new_row m available_at (pg_now d)]\<rparr>))"

definition as_text :: "sql_value \<Rightarrow> string" where
  "as_text v = (case v of SqlText t \<Rightarrow> t | _ \<Rightarrow> [])"

definition as_int :: "sql_value \<Rightarrow> int" where
  "as_int v = (case v of SqlInt i \<Rightarrow> i | _ \<Rightarrow> 0)"

definition as_uuid :: "sql_value \<Rightarrow> uuid" where
  "as_uuid v = (case v of SqlUuid u \<Rightarrow> u | _ \<Rightarrow> 0)"

definition as_bytes :: "sql_value \<Rightarrow> bytes" where
  "as_bytes v = (case v of SqlBytes b \<Rightarrow> b | _ \<Rightarrow> [])"

definition message_of_args :: "sql_value list \<Rightarrow> outbox_message" where
  "message_of_args args =
     \<lparr>ob_id = as_uuid (args ! 0), ob_kind = (if as_text (args ! 1) = ''event'' then EventKind else JobKind),
      ob_destination = as_text (args ! 2), ob_message_id = as_text (args ! 3), ob_message_type = as_text (args ! 4),
      ob_schema_version = word_of_int (as_int (args ! 5)), ob_ordering_key = as_text (args ! 6),
      ob_delivery_attempt = word_of_int (as_int (args ! 7)), ob_priority = word_of_int (as_int (args ! 8)),
      ob_payload = as_bytes (args ! 9)\<rparr>"

definition model_execute :: "string \<Rightarrow> sql_value list \<Rightarrow> pg_state \<Rightarrow> (unit, nat) result \<times> pg_state" where
  "model_execute sql args d =
     (if unquoted_backslash False sql then (Inl (), d)
      else if length args = 2 then
        (let key = (as_text (args ! 0), as_text (args ! 1)) in
         (Inr (if key \<in> pg_receipts d then 0 else 1), d\<lparr>pg_receipts := insert key (pg_receipts d)\<rparr>))
      else if length args = 10 then model_insert (message_of_args args) (pg_now d) d
      else if length args = 11 then model_insert (message_of_args args) (pg_now d + nat (as_int (args ! 10))) d
      else (Inl (), d))"

definition model_db :: "pg_state database" where
  "model_db = \<lparr>db_execute = model_execute, db_fetch_all = (\<lambda>sql args d. (Inl (), d))\<rparr>"

lemma message_of_bound: "message_of_args (bind_message m) = m" "message_of_args (bind_message m @ xs) = m"
  "length (bind_message m) = 10" "(bind_message m @ [x]) ! 10 = x"
  by (cases m; cases "ob_kind m"; simp add: bind_message_def outbox_kind_as_str_def message_of_args_def as_text_def as_int_def
      as_uuid_def as_bytes_def)+

lemma statements_without_backslash:
  "\<not> unquoted_backslash False stage_sql" "\<not> unquoted_backslash False stage_after_sql" "\<not> unquoted_backslash False inbox_sql"
  by code_simp+

lemma model_insert_inserted: "inserted pg_rows m available_at (pg_now d) d (model_insert m available_at d)"
  by (simp add: inserted_def model_insert_def)

lemma model_db_documented: "lexer_documented model_db" "outbox_documented model_db pg_rows pg_now" "inbox_documented model_db pg_receipts"
proof -
  show "lexer_documented model_db" by (simp add: lexer_documented_def model_db_def model_execute_def)
  show "outbox_documented model_db pg_rows pg_now"
    using model_insert_inserted
    by (simp add: outbox_documented_def model_db_def model_execute_def statements_without_backslash message_of_bound as_int_def)
  show "inbox_documented model_db pg_receipts"
    by (simp add: inbox_documented_def model_db_def model_execute_def statements_without_backslash as_text_def Let_def)
qed

lemma relay_statements_never_accepted_witness:
  "lease_config_new 100 (from_secs 30) = Inr \<lparr>lc_batch_size = 100, lc_lease_duration = from_secs 30\<rparr> \<and>
   relay_config_new \<lparr>lc_batch_size = 100, lc_lease_duration = from_secs 30\<rparr> (from_secs 1) =
     Inr \<lparr>rc_lease = \<lparr>lc_batch_size = 100, lc_lease_duration = from_secs 30\<rparr>, rc_retry_delay = from_secs 1\<rparr> \<and>
   lexer_documented model_db \<and>
   lease_jobs model_db (\<lambda>_. None) ''jobs'' \<lparr>lc_batch_size = 100, lc_lease_duration = from_secs 30\<rparr> 7
     \<lparr>pg_rows = [], pg_receipts = {}, pg_now = 0\<rparr> = (Inl OutboxDatabase, \<lparr>pg_rows = [], pg_receipts = {}, pg_now = 0\<rparr>)"
proof -
  have lc: "lease_config_new 100 (from_secs 30) = Inr \<lparr>lc_batch_size = 100, lc_lease_duration = from_secs 30\<rparr>"
    by (simp add: lease_config_new_def from_secs_def from_millis_def)
  have rc: "relay_config_new \<lparr>lc_batch_size = 100, lc_lease_duration = from_secs 30\<rparr> (from_secs 1) =
      Inr \<lparr>rc_lease = \<lparr>lc_batch_size = 100, lc_lease_duration = from_secs 30\<rparr>, rc_retry_delay = from_secs 1\<rparr>"
    by (simp add: relay_config_new_def from_secs_def from_millis_def)
  show ?thesis
    using lc rc model_db_documented(1) conjunct1 [OF relay_statements_never_accepted [OF model_db_documented(1) lc rc,
        of "\<lambda>_. None" "''jobs''" 7 "\<lparr>pg_rows = [], pg_receipts = {}, pg_now = 0\<rparr>"]]
    by simp
qed

lemma relay_pass_accounts_witness:
  "relay_once_inner
     \<lparr>rk_pass_kind = JobKind, rk_lease = (\<lambda>_ d. (Inr [1, 2 :: nat], d)), rk_publish = (\<lambda>_ w. (Inr (), w + 1)),
      rk_acknowledge = (\<lambda>l d. (Inr (if l = 1 then Applied else Lost), d)), rk_retry = (\<lambda>_ _ d. (Inr Applied, d))\<rparr> 0 7 ((), 0 :: nat) =
     ((Inr \<lparr>rr_claimed = 2, rr_published = 1, rr_retry_scheduled = 0, rr_lease_lost = 1\<rparr> :: (unit relay_error, relay_report) result), (), 2) \<and>
   rr_published \<lparr>rr_claimed = 2, rr_published = 1, rr_retry_scheduled = 0, rr_lease_lost = 1\<rparr> +
     rr_lease_lost \<lparr>rr_claimed = 2, rr_published = 1, rr_retry_scheduled = 0, rr_lease_lost = 1\<rparr> =
   rr_claimed \<lparr>rr_claimed = 2, rr_published = 1, rr_retry_scheduled = 0, rr_lease_lost = 1\<rparr>"
proof -
  have run: "relay_once_inner
     \<lparr>rk_pass_kind = JobKind, rk_lease = (\<lambda>_ d. (Inr [1, 2 :: nat], d)), rk_publish = (\<lambda>_ w. (Inr (), w + 1)),
      rk_acknowledge = (\<lambda>l d. (Inr (if l = 1 then Applied else Lost), d)), rk_retry = (\<lambda>_ _ d. (Inr Applied, d))\<rparr> 0 7 ((), 0 :: nat) =
     ((Inr \<lparr>rr_claimed = 2, rr_published = 1, rr_retry_scheduled = 0, rr_lease_lost = 1\<rparr> :: (unit relay_error, relay_report) result), (), 2)"
    by (simp add: relay_once_inner_def)
  from run relay_pass_accounts [OF run] show ?thesis by blast
qed

text \<open>A printed form of UUIDs with the documented properties: the hexadecimal digits, least significant first.\<close>

definition show_model :: "uuid \<Rightarrow> string" where
  "show_model u = map (\<lambda>i. char_of (48 + unat u div 16 ^ i mod 16)) [0..<36]"

definition parse_model :: "string \<Rightarrow> uuid option" where
  "parse_model s = Some (of_nat (\<Sum>i<36. (code_of (s ! i) - 48) * 16 ^ i))"

lemma nibbles_sum: "(\<Sum>i<n. (x div 16 ^ i mod 16) * 16 ^ i) = x mod (16 :: nat) ^ n"
proof (induction n)
  case (Suc n)
  have "x mod (16 ^ n * 16) = 16 ^ n * (x div 16 ^ n mod 16) + x mod 16 ^ n" by (rule mod_mult2_eq)
  with Suc show ?case by (simp add: mult.commute)
qed simp

lemma show_model_documented: "uuid_documented show_model parse_model"
proof -
  have code: "code_of (char_of (48 + n mod 16)) = 48 + n mod (16 :: nat)" for n
    by (simp add: of_char_of)
  have "of_nat (\<Sum>i<36. (code_of (show_model u ! i) - 48) * 16 ^ i) = u" for u
  proof -
    have "(\<Sum>i<36. (code_of (show_model u ! i) - 48) * 16 ^ i) = (\<Sum>i<36. (unat u div 16 ^ i mod 16) * 16 ^ i)"
      by (rule sum.cong) (simp_all add: show_model_def code)
    also have "\<dots> = unat u mod 16 ^ 36" by (rule nibbles_sum)
    also have "\<dots> = unat u" using unsigned_less [where 'a = nat, of u] by simp
    finally show ?thesis by simp
  qed
  moreover have "\<forall>c \<in> set (show_model u). in_codes 33 126 c" for u
  proof
    fix c assume "c \<in> set (show_model u)"
    then obtain i where "c = char_of (48 + unat u div 16 ^ i mod 16)" by (auto simp: show_model_def)
    moreover have "unat u div 16 ^ i mod 16 < 16" by simp
    ultimately show "in_codes 33 126 c" unfolding in_codes_def using code by simp
  qed
  ultimately show ?thesis by (simp add: uuid_documented_def parse_model_def) (simp add: show_model_def)
qed

definition empty_pg :: pg_state where
  "empty_pg = \<lparr>pg_rows = [], pg_receipts = {}, pg_now = 0\<rparr>"

lemma staged_job_restored_witness:
  "uuid_documented show_model parse_model \<and> outbox_documented model_db pg_rows pg_now \<and>
   (\<exists>om row d'. outbox_job show_model 9 ''jobs'' sample_json sample_job sample_envelope = Inr om \<and>
     stage model_db om empty_pg = (Inr (Inserted 9), d') \<and> pg_rows d' = [row] \<and>
     bind_result (stored_lease_of_row JobKind ''jobs'' 5 (row_columns (row\<lparr>row_relay_attempt := 3\<rparr>))) (try_from_record_job parse_model) =
       Inr \<lparr>lm_lease = \<lparr>lt_id = 9, lt_token = 5, lt_relay_attempt = 3\<rparr>, lm_destination = ''jobs'',
         lm_message = \<lparr>msg_id = 7, msg_name = ''mail'', msg_version = 1, msg_attempt = 1, msg_payload = ''{}''\<rparr>\<rparr> \<and>
     fst (stage model_db om d') = Inr AlreadyPresent)"
proof -
  have m: "envelope_message sample_json sample_job sample_envelope =
      Inr \<lparr>msg_id = 7, msg_name = ''mail'', msg_version = 1, msg_attempt = 1, msg_payload = ''{}''\<rparr>"
    by (simp add: envelope_message_def sample_encoded)
      (simp add: sample_envelope_def sample_job_def envelope_with_metadata_def)
  have free: "show_model (env_id sample_envelope) \<notin> ob_message_id ` row_message ` set (pg_rows empty_pg)"
    "9 \<notin> ob_id ` row_message ` set (pg_rows empty_pg)" "(3 :: nat) < u32_bound" by (simp_all add: empty_pg_def)
  have nil: "pg_rows empty_pg = []" by (simp add: empty_pg_def)
  from staged_job_restored [OF show_model_documented sample_json_faithful model_db_documented(2) m free, of "''jobs''" 5 0]
  show ?thesis
    unfolding nil append_Nil
    by (elim exE conjE) (intro conjI exI show_model_documented model_db_documented(2); assumption)
qed


end
