(* ===== verification/Spec2Isabelle.thy ===== *)
theory Spec2Isabelle
  imports Router StaticDelivery TrustedProxy Layers RateLimit CompressionBody Session JobsRecovery JobsWorker Outbox
begin

text \<open>
  A verification development for the Rustee web framework, a workspace of Rust crates under \<open>src/crates\<close>.

  \<^bold>\<open>The program and its parts.\<close>  A request enters a stack of layers around a router.  A layer is a service that
  calls an inner service; the router dispatches to a handler after running its extractors.  Beside the request path
  the framework has durable background work: jobs are published to a Redis stream or staged in an outbox table inside a
  business transaction, a relay publishes the staged messages, workers deliver them to handlers, and an
  inbox recognises repeated deliveries.

  \<^item> \<open>Prelude\<close>: the part of the Rust standard library that the code uses on strings, integers, durations and results, with the
    generic lemmas and simplification collections.
  \<^item> \<open>Http\<close> (\<open>rustee-core/src/response\<close>, \<open>routing.rs\<close>, \<open>rustee-json\<close>): requests, responses, bodies, sanitized errors,
    bounded JSON.  \<open>Extract\<close> (\<open>rustee-core/src/extract\<close>, \<open>media_type.rs\<close>, \<open>oauth.rs\<close>, \<open>rustee-router/src/handler.rs\<close>): the
    extractors and the handler adapters.
  \<^item> \<open>Pattern\<close>, \<open>Selection\<close>, \<open>Router\<close> (\<open>rustee-router/src\<close>): route templates, the candidate loops, the route table with its
    builder, dispatch and nested services.  The builder keeps the table well formed, dispatch picks the unique most
    specific route, captures invert the template, equivalence of templates is equality of the matched paths, and the
    404, 405 and nested cases are characterised.
  \<^item> \<open>Negotiation\<close>, \<open>CompressionBody\<close> (\<open>rustee-middleware/src/compression.rs\<close> and \<open>compression/\<close>): \<open>Accept-Encoding\<close> rules,
    the compression layer and its streaming body with trailers.  \<open>Layers\<close> (\<open>cors.rs\<close>, \<open>panic.rs\<close>).
  \<^item> \<open>StaticConfig\<close>, \<open>Range\<close>, \<open>StaticDelivery\<close> (\<open>rustee-static/src\<close>): mount paths and percent decoding, byte ranges, validators,
    precompressed siblings, multipart bodies and the layer.  No request reads outside of the root, ranges are normalised
    without changing the requested bytes, and a delivered body is the named part of one file.
  \<^item> \<open>IpParse\<close>, \<open>TrustedProxy\<close> (\<open>rustee-middleware/src/trusted_proxy\<close>): addresses, networks, both header families and the
    client that a chain of proxies determines.
  \<^item> \<open>RateLimit\<close> (\<open>rustee-rate-limit\<close>, \<open>rustee-rate-limit-redis\<close>): the layer, and the fixed window kept by the server script.
  \<^item> \<open>Auth\<close> (\<open>rustee-auth/src\<close>, \<open>rustee-tenant\<close>): bounded principals, bearer tokens, API keys with rotating peppers, policies and
    tenants.  \<open>RedisCache\<close> (\<open>rustee-redis/src/cache\<close>): the JSON cache and its scripts.  \<open>Session\<close> (\<open>rustee-auth-session/src\<close>,
    \<open>rustee-auth-session-redis/src\<close>): sessions, cookies, the manager, the local and the Redis store, the session and CSRF
    layers.  A protected route admits exactly the requests it should, an identity always comes from an established
    session that was not revoked, and an unsafe request needs the token of its session.
  \<^item> \<open>Jobs\<close> (\<open>rustee-jobs/src\<close>): envelopes and their codec, compatible decoding, retry policy, registry.
  \<^item> \<open>JobsRedis\<close>, \<open>JobsFleet\<close>, \<open>JobsRecovery\<close>, \<open>JobsWorker\<close> (\<open>rustee-jobs-redis/src\<close>, \<open>rustee-jobs/src/delivery\<close>): the
    provider operations and Lua scripts, any number of workers and producers as interleaved events, the retry storage, and the
    worker loop.  No interleaving, crash or lost reply loses a job; the loop is a refinement of the fleet events; a job is
    settled within the delivery budget.
  \<^item> \<open>Outbox\<close> (\<open>rustee-outbox-sqlx/src\<close>): messages, staging, leases, relay and inbox, over the statement texts of the code.

  \<^bold>\<open>Conventions.\<close>  A Rust \<open>str\<close> is a HOL \<open>string\<close> of UTF-8 bytes, a \<open>Result\<close> is a sum with the error on the left, a
  \<open>Duration\<close> is its number of nanoseconds.  Unsigned integers are natural numbers with the bound of their type written out
  where the code checks or saturates, or words where it wraps.  An asynchronous function is the function of its inputs
  and of the states of its services that it computes; where the order of await points is visible (the job worker), a run is a
  sequence of events that the runtime chooses, and the theorems hold for every sequence.  Definitions keep the names of the
  functions they translate.

  \<^bold>\<open>Parameters.\<close>  Code of other packages is an argument: JSON and form decoders, header value
  conversion, URI rebuilding, HTTP dates, compressors, UUID printing (records such as \<open>deps\<close>, \<open>static_env\<close>, \<open>job_json\<close>); the
  operating system is the record \<open>file_system\<close>, Redis the records \<open>redis_api\<close>, \<open>cache_api\<close> and \<open>streams_api\<close>, PostgreSQL the record \<open>database\<close>.
  What is relied on is stated by the predicates named \<open>..._documented\<close>, and each of them is shown to hold for a concrete
  instance in the witness of the theorem that assumes it.

  \<^bold>\<open>Interfaces.\<close>  The locales state what one part promises to another: the comparison behind the candidate loops of the
  router (\<open>Selection\<close>), the store behind the rate limit layer, the session store behind the manager and the session layer, the set-valued
  fields of a principal, and those of the job and outbox theories.  Each is interpreted
  on the definitions of the model, in the theory that provides them.

  \<^bold>\<open>Loops and bounds.\<close>  Loops over data are structural recursion.  The parsers of \<open>IpParse\<close> and the digit
  printers recurse on a length or a count that the code bounds too.  The worker loop and the relay loop run for as many
  steps as the given sequence of events has; that a published job is settled after a bounded number of worker rounds is proved
  as such (\<open>job_settles_in_budget\<close>), with the bound given by the retry policy.

  \<^bold>\<open>What this theory adds.\<close>  The properties below span components: the trusted proxy layer in front of the rate limit
  layer, and the CORS layer around the compression layer.

  \<^bold>\<open>What the model shows about the code.\<close>  The eligibility test of the compression layer lets a 205 response through
  (\<open>compression_reset_content\<close>); the completeness test of the promotion script never fires
  (\<open>promotion_guard_ineffective\<close>); the lease, acknowledge and retry statements of the outbox contain backslashes that
  PostgreSQL refuses (\<open>relay_statements_never_accepted\<close>).

  \<^bold>\<open>Not modelled.\<close>  The transport (\<open>rustee-server\<close>) and the clients of other services (\<open>rustee-redis\<close> beyond its
  namespace grammar and its JSON cache, \<open>rustee-sqlx\<close>, \<open>rustee-mongodb\<close>, the Kafka, NATS, RabbitMQ and SQS providers, the OpenAI and MCP
  clients) consist mainly of calls into packages that are not part of the repository.  The procedural
  macros generate code at compile time.  Metrics, tracing and their exporters only observe.  The verifiers of JSON web tokens and OpenID
  Connect and the API-key database are parameters of \<open>Auth\<close>.
  \<open>rustee-openapi\<close>, \<open>rustee-config\<close>, the cron scheduler, the event envelopes beyond the messages that the outbox
  stores, and the AI crates are separate libraries on top of the parts above and are left for later work; none of the modelled
  parts calls them.  Within the modelled crates \<open>Debug\<close> and \<open>Display\<close> output and tests are left out.
\<close>

section \<open>Layers around an application\<close>



lemma redis_check_exhausted:
  assumes "redis_documented api view elapse" "fw_limit policy < u32_bound"
    and "window_open (view s) (storage_key namespace key) (fw_window_millis policy) 0"
    and "fw_limit policy \<le> rv_count (view s) (storage_key namespace key)"
  obtains dec where "fst (redis_check api namespace key policy s) = Inr dec" "\<not> dec_allowed dec"
proof -
  obtain t where "rv_deadline (check_view (storage_key namespace key) (fw_window_millis policy) (view s))
      (storage_key namespace key) = Some t" "rv_now (view s) \<le> t"
    using window_open_deadline [OF assms(3)] by blast
  from redis_check_outcome [OF assms(1,2) this] assms(4)
  have "outcome (fst (redis_check api namespace key policy s)) = Some (False, 0)" by (simp add: Let_def)
  then show thesis using that by (cases "fst (redis_check api namespace key policy s)") auto
qed

lemma rate_limit_call_exhausted:
  assumes "redis_documented api view elapse" "fw_limit policy < u32_bound" "resolver req = Some key"
    and "window_open (view s) (storage_key namespace key) (fw_window_millis policy) 0"
    and "fw_limit policy \<le> rv_count (view s) (storage_key namespace key)"
  shows "resp_status (fst (rate_limit_call d (redis_check api namespace) policy resolver fp inner req s)) = 429"
    and "rate_limit_call d (redis_check api namespace) policy resolver fp inner req s =
      rate_limit_call d (redis_check api namespace) policy resolver fp other req s"
proof -
  obtain dec s' where dec: "redis_check api namespace key policy s = (Inr dec, s')" "\<not> dec_allowed dec"
    using redis_check_exhausted [OF assms(1,2,4,5)] by (metis prod.collapse)
  obtain r s'' where r: "rate_limit_call d (redis_check api namespace) policy resolver fp inner req s = (r, s'')" by force
  from redis.call_denied [of resolver req key, OF assms(3) dec r]
  show "resp_status (fst (rate_limit_call d (redis_check api namespace) policy resolver fp inner req s)) = 429"
    and "rate_limit_call d (redis_check api namespace) policy resolver fp inner req s =
      rate_limit_call d (redis_check api namespace) policy resolver fp other req s"
    by (simp_all add: r)
qed

section \<open>Properties\<close>

text \<open>C8. With the trusted proxy layer in front of the rate limit layer a client cannot escape its limit by forging
  forwarding information.  Suppose a trusted peer appends the chain \<open>text\<close>, which determines the client \<open>c\<close>, the
  application limits by the client address, and the window of that client is used up.  Then a request of the
  client with any addresses put in front of the chain is answered with 400 or 429, and with the same answer for every
  application behind the layers: the application is not consulted.\<close>

theorem forged_address_still_limited:
  assumes redis: "redis_documented api view elapse" "fw_limit policy < u32_bound"
    and resolver: "\<And>r. resolver r = map_option (\<lambda>c. key_of (fwd_client_ip c)) (ext_forwarded (req_extensions r))"
    and peer: "ext_connection (req_extensions req) = Some peer" "trusts (tpl_policy layer) (peer_ip peer)"
      "tpl_family layer = XForwardedFamily"
    and chain: "req_headers req ''x-forwarded-for'' = [v]" "header_to_str d v = Some text"
      "parse_x_forwarded_headers d authority_ok (req_headers req) (tpl_policy layer) = Inr (Some c)"
    and used: "window_open (view s) (storage_key namespace (key_of (fwd_client_ip c))) (fw_window_millis policy) 0"
      "fw_limit policy \<le> rv_count (view s) (storage_key namespace (key_of (fwd_client_ip c)))"
    and forged: "header_to_str d v' = Some (spoofed @ '','' @ text)"
      "req' = req\<lparr>req_headers := (req_headers req)(''x-forwarded-for'' := [v'])\<rparr>"
  shows "resp_status (trusted_proxy_call d authority_ok layer
      (\<lambda>r. fst (rate_limit_call d (redis_check api namespace) policy resolver fp inner r s)) req') \<in> {400, 429} \<and>
    trusted_proxy_call d authority_ok layer
      (\<lambda>r. fst (rate_limit_call d (redis_check api namespace) policy resolver fp inner r s)) req' =
    trusted_proxy_call d authority_ok layer
      (\<lambda>r. fst (rate_limit_call d (redis_check api namespace) policy resolver fp other r s)) req'"
proof -
  let ?seen = "req'\<lparr>req_extensions := (req_extensions req')\<lparr>ext_forwarded := Some c\<rparr>\<rparr>"
  have key: "resolver ?seen = Some (key_of (fwd_client_ip c))" by (simp add: resolver)
  note limited = rate_limit_call_exhausted [of _ _ _ _ resolver, OF redis key used]
  from x_forwarded_prepend_same [OF chain(1,2) forged(1) chain(3)]
  consider "parse_family_headers d authority_ok layer (req_headers req') = Inl ()"
    | "parse_family_headers d authority_ok layer (req_headers req') = Inr (Some c)"
    by (auto simp: parse_family_headers_def peer(3) forged(2))
  then show ?thesis
  proof cases
    case 1
    with peer show ?thesis by (simp add: trusted_proxy_call_def forged(2))
  next
    case 2
    with peer have "trusted_proxy_call d authority_ok layer service req' = service ?seen" for service
      by (simp add: trusted_proxy_call_def forged(2))
    with limited(1) limited(2) [of _ _ inner other] show ?thesis by simp
  qed
qed

definition exhausted_view :: redis_view where
  "exhausted_view = \<lparr>rv_count = (\<lambda>_. 1), rv_deadline = (\<lambda>_. Some 1000), rv_now = 0\<rparr>"

lemma forged_address_still_limited_witness:
  "resp_status (trusted_proxy_call sample_deps (\<lambda>_. True) sample_layer
      (\<lambda>r. fst (rate_limit_call sample_deps (redis_check view_api ''rl'') sample_window
         (\<lambda>r. map_option (\<lambda>c. RateLimitKey (show_ip (fwd_client_ip c))) (ext_forwarded (req_extensions r))) FailOpen
         show_client r exhausted_view))
      (proxied_request\<lparr>req_headers := (req_headers proxied_request)
         (''x-forwarded-for'' := [''10.0.0.9'' @ '','' @ ''203.0.113.7, 10.0.0.2''])\<rparr>)) \<in> {400, 429}"
proof -
  have facts: "ext_connection (req_extensions proxied_request) = Some \<lparr>peer_ip = V4 0x0A000002, peer_port = 443\<rparr>"
    "req_headers proxied_request ''x-forwarded-for'' = [''203.0.113.7, 10.0.0.2'']"
    "tpl_policy sample_layer = sample_policy" "tpl_family sample_layer = XForwardedFamily"
    "parse_x_forwarded_headers sample_deps (\<lambda>_. True) (req_headers proxied_request) sample_policy =
       Inr (Some \<lparr>fwd_client_ip = V4 0xCB007107, fwd_scheme = None, fwd_host = None\<rparr>)"
    using sample_x_forwarded
    by (simp_all add: proxied_request_def sample_layer_def with_x_forwarded_def trusted_proxy_layer_new_def)
  show ?thesis
    by (rule conjunct1, rule forged_address_still_limited [OF view_api_documented _ refl facts(1), of _ _
          "''203.0.113.7, 10.0.0.2''" _ "''203.0.113.7, 10.0.0.2''"])
      (use facts sample_trusts in \<open>simp_all add: sample_window_def exhausted_view_def window_open_def sample_deps_def\<close>)
qed




end
